(* ===== verification/M68k_Prelude.thy ===== *)
theory M68k_Prelude
  imports Main "HOL-Library.Word" "HOL-Library.State_Monad"
begin

text \<open>
  Shared vocabulary of the development: the machine integer types of the Go source, the few
  state-monad combinators the model is written in, and the generic facts about words, lists
  and monadic programs that the component theories use.

  \<^item> \<open>u8\<close>, \<open>u16\<close>, \<open>u32\<close>, \<open>u64\<close> are Go's \<open>uint8\<close> to \<open>uint64\<close>: arithmetic wraps. A Go
    \<open>int32\<close> is carried as the word with the same bits; \<open>sint\<close> reads it.
  \<^item> A Go method on \<open>*CPU\<close> is a program in the library's state monad over the CPU record.
  \<^item> \<open>state_io_rel R m\<close> (from the library) says that every run of \<open>m\<close> relates its initial and
    final state by \<open>R\<close>; the rules in the collection \<open>io\<close> take a program apart.
\<close>

unbundle bit_operations_syntax

type_synonym u8 = "8 word"
type_synonym u16 = "16 word"
type_synonym u32 = "32 word"
type_synonym u64 = "64 word"

named_theorems io \<open>rules that decompose a program under a state relation\<close>
named_theorems run \<open>equations that execute a program on a state\<close>

subsection \<open>State-monad combinators\<close>

abbreviation return :: "'a \<Rightarrow> ('s, 'a) state" where
  "return \<equiv> State_Monad.return"

definition gets :: "('s \<Rightarrow> 'a) \<Rightarrow> ('s, 'a) state" where
  "gets f = State (\<lambda>s. (f s, s))"

definition modify :: "('s \<Rightarrow> 's) \<Rightarrow> ('s, unit) state" where
  "modify f = State (\<lambda>s. ((), f s))"

definition whenM :: "bool \<Rightarrow> ('s, unit) state \<Rightarrow> ('s, unit) state" where
  "whenM b m = (if b then m else return ())"

text \<open>A Go loop over a range, with the loop-carried local variables as accumulator.\<close>

fun foldM :: "('i \<Rightarrow> 'a \<Rightarrow> ('s, 'a) state) \<Rightarrow> 'i list \<Rightarrow> 'a \<Rightarrow> ('s, 'a) state" where
  "foldM f [] a = return a"
| "foldM f (i # xs) a = do { a' \<leftarrow> f i a; foldM f xs a' }"

lemma run_gets [simp, run]: "run_state (gets f) s = (f s, s)"
  by (simp add: gets_def)

lemma run_modify [simp, run]: "run_state (modify f) s = ((), f s)"
  by (simp add: modify_def)

lemma run_whenM [simp, run]:
  "run_state (whenM b m) s = (if b then run_state m s else ((), s))"
  by (simp add: whenM_def)

lemma run_if [run]:
  "run_state (if b then m else n) s = (if b then run_state m s else run_state n s)"
  by simp

subsection \<open>Programs and state relations\<close>

lemma io_bindI:
  assumes "transp R" and "state_io_rel R m" and "\<And>x. state_io_rel R (f x)"
  shows "state_io_rel R (m \<bind> f)"
proof (rule state_io_relI)
  fix a s s'
  assume "run_state (m \<bind> f) s = (a, s')"
  then obtain x t where "run_state m s = (x, t)" and "run_state (f x) t = (a, s')"
    by (auto split: prod.splits)
  then have "R s t" and "R t s'"
    using assms(2,3) by (auto dest: state_io_relD)
  then show "R s s'"
    using assms(1) by (blast dest: transpD)
qed

lemma io_bind_predI:
  assumes "transp R" and "state_io_rel R m" and "pred_state P m"
    and "\<And>x. P x \<Longrightarrow> state_io_rel R (f x)"
  shows "state_io_rel R (m \<bind> f)"
proof (rule state_io_relI)
  fix a s s'
  assume "run_state (m \<bind> f) s = (a, s')"
  then obtain x t where m: "run_state m s = (x, t)" and f: "run_state (f x) t = (a, s')"
    by (auto split: prod.splits)
  from m assms(3) have "P x" by (rule pred_stateD [rotated])
  with m f have "R s t" and "R t s'"
    using assms(2,4) by (auto dest: state_io_relD)
  then show "R s s'"
    using assms(1) by (blast dest: transpD)
qed

lemma io_returnI: "reflp R \<Longrightarrow> state_io_rel R (return x)"
  by (rule state_io_relI) (auto dest: reflpD)

lemma io_getsI: "reflp R \<Longrightarrow> state_io_rel R (gets f)"
  by (rule state_io_relI) (auto dest: reflpD)

lemma io_modifyI: "(\<And>s. R s (f s)) \<Longrightarrow> state_io_rel R (modify f)"
  by (rule state_io_relI) auto

lemma io_ifI [io]:
  "(b \<Longrightarrow> state_io_rel R m) \<Longrightarrow> (\<not> b \<Longrightarrow> state_io_rel R n) \<Longrightarrow> state_io_rel R (if b then m else n)"
  by simp

lemma io_if_appI [io]:
  "(b \<Longrightarrow> state_io_rel R (f x)) \<Longrightarrow> (\<not> b \<Longrightarrow> state_io_rel R (g x)) \<Longrightarrow>
     state_io_rel R ((if b then f else g) x)"
  by simp

lemma io_letI [io]: "(\<And>x. x = e \<Longrightarrow> state_io_rel R (f x)) \<Longrightarrow> state_io_rel R (let x = e in f x)"
  by simp

lemma io_prodI [io]: "(\<And>a b. p = (a, b) \<Longrightarrow> state_io_rel R (f a b)) \<Longrightarrow> state_io_rel R (case p of (a, b) \<Rightarrow> f a b)"
  by (cases p) simp

lemma io_optionI [io]:
  "(x = None \<Longrightarrow> state_io_rel R m) \<Longrightarrow> (\<And>y. x = Some y \<Longrightarrow> state_io_rel R (f y)) \<Longrightarrow>
     state_io_rel R (case x of None \<Rightarrow> m | Some y \<Rightarrow> f y)"
  by (cases x) simp_all

lemma io_foldMI:
  assumes "reflp R" and "transp R" and "\<And>i a. i \<in> set xs \<Longrightarrow> state_io_rel R (f i a)"
  shows "state_io_rel R (foldM f xs a)"
  using assms(3)
proof (induction xs arbitrary: a)
  case Nil
  then show ?case using assms(1) by (simp add: io_returnI)
next
  case (Cons i xs)
  then show ?case using assms(2) by (auto intro!: io_bindI)
qed

subsection \<open>Words bit by bit\<close>

text \<open>
  Equality of two words of a fixed width, written out as one equation per bit. With
  \<open>bit_simps\<close> the simplifier then decides identities between masks, shifts and casts.
\<close>

lemma all_less_8: "(\<forall>n<8. P n) \<longleftrightarrow> P 0 \<and> P 1 \<and> P 2 \<and> P 3 \<and> P 4 \<and> P 5 \<and> P 6 \<and> P (7::nat)"
  by (simp add: numeral_eq_Suc All_less_Suc conj_ac)

lemma all_less_16: "(\<forall>n<16. P n) \<longleftrightarrow> P 0 \<and> P 1 \<and> P 2 \<and> P 3 \<and> P 4 \<and> P 5 \<and> P 6 \<and> P 7 \<and>
    P 8 \<and> P 9 \<and> P 10 \<and> P 11 \<and> P 12 \<and> P 13 \<and> P 14 \<and> P (15::nat)"
  by (simp add: numeral_eq_Suc All_less_Suc conj_ac)

lemma all_less_32: "(\<forall>n<32. P n) \<longleftrightarrow> P 0 \<and> P 1 \<and> P 2 \<and> P 3 \<and> P 4 \<and> P 5 \<and> P 6 \<and> P 7 \<and>
    P 8 \<and> P 9 \<and> P 10 \<and> P 11 \<and> P 12 \<and> P 13 \<and> P 14 \<and> P 15 \<and>
    P 16 \<and> P 17 \<and> P 18 \<and> P 19 \<and> P 20 \<and> P 21 \<and> P 22 \<and> P 23 \<and>
    P 24 \<and> P 25 \<and> P 26 \<and> P 27 \<and> P 28 \<and> P 29 \<and> P 30 \<and> P (31::nat)"
  by (simp add: numeral_eq_Suc All_less_Suc conj_ac)

lemma u8_eq_bits: "(a :: u8) = b \<longleftrightarrow> (\<forall>n<8. bit a n = bit b n)"
  by (auto intro: bit_word_eqI)

lemma u16_eq_bits: "(a :: u16) = b \<longleftrightarrow> (\<forall>n<16. bit a n = bit b n)"
  by (auto intro: bit_word_eqI)

lemma u32_eq_bits: "(a :: u32) = b \<longleftrightarrow> (\<forall>n<32. bit a n = bit b n)"
  by (auto intro: bit_word_eqI)

lemmas bits8 = u8_eq_bits all_less_8 bit_simps
lemmas bits16 = u16_eq_bits all_less_16 bit_simps
lemmas bits32 = u32_eq_bits all_less_32 bit_simps

lemma all_less_64: "(\<forall>n<64. P n) \<longleftrightarrow> (\<forall>n<32. P n) \<and> (\<forall>n<32. P (32 + (n::nat)))"
proof (intro iffI conjI allI impI)
  fix n :: nat
  assume "(\<forall>n<32. P n) \<and> (\<forall>n<32. P (32 + n))" and "n < 64"
  then show "P n"
    by (cases "n < 32") (auto dest: spec [of _ "n - 32"])
qed simp_all

lemma u64_eq_bits: "(a :: u64) = b \<longleftrightarrow> (\<forall>n<64. bit a n = bit b n)"
  by (auto intro: bit_word_eqI)

lemmas bits64 = u64_eq_bits all_less_64 all_less_32 bit_simps

subsection \<open>Small words used as indices\<close>

lemma and_7_eq_take_bit: "(x :: 'a::len word) AND 7 = take_bit 3 x"
  by (simp add: take_bit_eq_mask mask_eq_exp_minus_1)

lemma unat_and_7 [simp]: "unat ((x :: 'a::len word) AND 7) = unat x mod 8"
  by (simp add: and_7_eq_take_bit unsigned_take_bit_eq) (simp add: take_bit_eq_mod)

text \<open>
  A word below a power of two is the masked part of itself. As destruction rules these turn
  the bounds of the registration loops into masks that \<open>bits16\<close> can evaluate.
\<close>

lemma less_exp_mask: "unat (x :: u16) < 2 ^ k \<Longrightarrow> x = x AND mask k"
proof -
  assume "unat x < 2 ^ k"
  then have "take_bit k x = x"
    by (simp add: word_unat_eq_iff unsigned_take_bit_eq take_bit_nat_eq_self)
  then show ?thesis by (simp add: take_bit_eq_mask)
qed

lemma less_2D: "(x :: u16) < 2 \<Longrightarrow> \<exists>y. x = y AND 1"
  using less_exp_mask [of x 1] by (auto simp: mask_eq_exp_minus_1 word_less_nat_alt)

lemma less_4D: "(x :: u16) < 4 \<Longrightarrow> \<exists>y. x = y AND 3"
  using less_exp_mask [of x 2] by (auto simp: mask_eq_exp_minus_1 word_less_nat_alt)

lemma less_8D: "(x :: u16) < 8 \<Longrightarrow> \<exists>y. x = y AND 7"
  using less_exp_mask [of x 3] by (auto simp: mask_eq_exp_minus_1 word_less_nat_alt)

lemma less_16D: "(x :: u16) < 16 \<Longrightarrow> \<exists>y. x = y AND 15"
  using less_exp_mask [of x 4] by (auto simp: mask_eq_exp_minus_1 word_less_nat_alt)

lemma less_256D: "(x :: u16) < 256 \<Longrightarrow> \<exists>y. x = y AND 255"
  using less_exp_mask [of x 8] by (auto simp: mask_eq_exp_minus_1 word_less_nat_alt)

lemma less_8_cases: "(x :: u16) < 8 \<Longrightarrow> x \<in> {0, 1, 2, 3, 4, 5, 6, 7}"
proof -
  assume "x < 8"
  then have "unat x < 8" by (simp add: word_less_nat_alt)
  then have "unat x \<in> {0, 1, 2, 3, 4, 5, 6, 7}" by auto
  then have "word_of_nat (unat x) \<in> (word_of_nat ` {0, 1, 2, 3, 4, 5, 6, 7} :: u16 set)" by blast
  then show ?thesis by simp
qed

lemma less_3_cases: "(x :: u16) < 3 \<Longrightarrow> x = 0 \<or> x = 1 \<or> x = 2"
proof -
  assume x: "x < 3"
  then have "x < 8" by (rule less_trans) simp
  with x show ?thesis using less_8_cases [of x] by (auto simp: word_less_nat_alt)
qed

lemma unat_less_8: "(x :: u16) < 8 \<Longrightarrow> unat x < 8"
  by (simp add: word_less_nat_alt)

lemmas lessDs = less_2D less_3_cases less_4D less_8D less_16D less_256D

end
