(* ===== verification/M68k_Size.thy ===== *)
theory M68k_Size
  imports M68k_Prelude
begin

text \<open>
  The operand widths of \<open>size.go\<close>. The Go type \<open>size\<close> is an \<open>int\<close> of which the program only
  ever forms the four values 1, 2, 4 and 0 (the result of \<open>sizeEncoding\<close> and of
  \<open>moveSizeMap\<close> on an encoding that no instruction uses); each is a constructor here and
  \<open>sizeU32\<close> is the conversion \<open>uint32(sz)\<close>.
\<close>

datatype msize = sizeByte | sizeWord | sizeLong | sizeZero

definition sizeU32 :: "msize \<Rightarrow> u32" where
  "sizeU32 s = (case s of sizeByte \<Rightarrow> 1 | sizeWord \<Rightarrow> 2 | sizeLong \<Rightarrow> 4 | sizeZero \<Rightarrow> 0)"

definition Mask :: "msize \<Rightarrow> u32" where
  "Mask s = (case s of sizeByte \<Rightarrow> 0xFF | sizeWord \<Rightarrow> 0xFFFF | sizeLong \<Rightarrow> 0xFFFFFFFF
             | sizeZero \<Rightarrow> 0)"

definition MSB :: "msize \<Rightarrow> u32" where
  "MSB s = (case s of sizeByte \<Rightarrow> 0x80 | sizeWord \<Rightarrow> 0x8000 | sizeLong \<Rightarrow> 0x80000000
            | sizeZero \<Rightarrow> 0)"

definition Bits :: "msize \<Rightarrow> u32" where
  "Bits s = sizeU32 s * 8"

definition sizeString :: "msize \<Rightarrow> string" where
  "sizeString s = (case s of sizeByte \<Rightarrow> ''byte'' | sizeWord \<Rightarrow> ''word'' | sizeLong \<Rightarrow> ''long''
                   | sizeZero \<Rightarrow> ''unknown'')"

text \<open>The width in bits as a number, and the value of an operand read at that width.\<close>

definition width :: "msize \<Rightarrow> nat" where
  "width s = unat (Bits s)"

lemma sizeU32_simps [simp]:
  "sizeU32 sizeByte = 1" "sizeU32 sizeWord = 2" "sizeU32 sizeLong = 4" "sizeU32 sizeZero = 0"
  by (simp_all add: sizeU32_def)

lemma Mask_simps [simp]:
  "Mask sizeByte = 0xFF" "Mask sizeWord = 0xFFFF" "Mask sizeLong = 0xFFFFFFFF" "Mask sizeZero = 0"
  by (simp_all add: Mask_def)

lemma MSB_simps [simp]:
  "MSB sizeByte = 0x80" "MSB sizeWord = 0x8000" "MSB sizeLong = 0x80000000" "MSB sizeZero = 0"
  by (simp_all add: MSB_def)

lemma Bits_simps [simp]:
  "Bits sizeByte = 8" "Bits sizeWord = 16" "Bits sizeLong = 32" "Bits sizeZero = 0"
  by (simp_all add: Bits_def)

lemma width_simps [simp]:
  "width sizeByte = 8" "width sizeWord = 16" "width sizeLong = 32" "width sizeZero = 0"
  by (simp_all add: width_def)

lemma Bits_eq_0: "Bits s = 0 \<longleftrightarrow> s = sizeZero"
  by (cases s) simp_all

lemma and_Mask_eq_take_bit: "x AND Mask s = take_bit (width s) x"
  by (cases s) (simp_all add: take_bit_eq_mask mask_eq_exp_minus_1)

lemma Mask_eq_mask: "Mask s = mask (width s)"
  by (cases s) (simp_all add: mask_eq_exp_minus_1)

end
