(* ===== verification/M68k_Cpu.thy ===== *)
theory M68k_Cpu
  imports M68k_Size
begin

text \<open>
  The CPU of \<open>cpu.go\<close>: its data and the methods that do not depend on the instruction set
  (bus access, instruction fetch, stack, status register, construction and configuration).

  \<^item> \<open>Registers\<close> and \<open>CPU\<close> are the structs of the source, field by field. The Go array
    \<open>[8]uint32\<close> is a list; its accessors \<open>getD\<close>, \<open>putD\<close>, \<open>getA\<close>, \<open>putA\<close> make the run-time
    check of an index explicit.
  \<^item> The interface \<open>Bus\<close> is a record of operations on a bus state of any type \<open>'b\<close>; reads may
    change the state, as memory-mapped devices do. \<open>bus\<close> and \<open>busState\<close> together are the
    interface value held in the field \<open>bus\<close> of the Go struct.
  \<^item> \<open>panicked\<close> is not a field of the source: it is set where Go would panic (an index out of
    range, a call of a nil function), so that the absence of panics is a statement about it.
  \<^item> Calls of \<open>log.Printf\<close> are left out: they do not affect the CPU.
\<close>

subsection \<open>Data\<close>

record 'b Bus =
  Read8 :: "'b \<Rightarrow> u32 \<Rightarrow> u8 \<times> 'b"
  Read16 :: "'b \<Rightarrow> u32 \<Rightarrow> u16 \<times> 'b"
  Read32 :: "'b \<Rightarrow> u32 \<Rightarrow> u32 \<times> 'b"
  Write8 :: "'b \<Rightarrow> u32 \<Rightarrow> u8 \<Rightarrow> 'b"
  Write16 :: "'b \<Rightarrow> u32 \<Rightarrow> u16 \<Rightarrow> 'b"
  Write32 :: "'b \<Rightarrow> u32 \<Rightarrow> u32 \<Rightarrow> 'b"
  BusReset :: "'b \<Rightarrow> 'b"

record Registers =
  regD :: "u32 list"
  regA :: "u32 list"
  regPC :: u32
  regSR :: u16
  regUSP :: u32
  regSSP :: u32
  regIR :: u16

record 'b CPU =
  reg :: Registers
  bus :: "'b Bus"
  busState :: 'b
  cycles :: u64
  ir :: u16
  stopped :: bool
  halted :: bool
  prevPC :: u32
  pendingIPL :: u8
  pendingVec :: "u8 option"
  deficit :: int
  panicked :: bool

type_synonym ('b, 'a) cpuM = "('b CPU, 'a) state"
type_synonym 'b opFunc = "('b CPU, unit) state"

text \<open>Status register flag bits (\<open>flags.go\<close>).\<close>

abbreviation (input) flagC :: u16 where "flagC \<equiv> 0x0001"
abbreviation (input) flagV :: u16 where "flagV \<equiv> 0x0002"
abbreviation (input) flagZ :: u16 where "flagZ \<equiv> 0x0004"
abbreviation (input) flagN :: u16 where "flagN \<equiv> 0x0008"
abbreviation (input) flagX :: u16 where "flagX \<equiv> 0x0010"
abbreviation (input) flagS :: u16 where "flagS \<equiv> 0x2000"
abbreviation (input) flagT :: u16 where "flagT \<equiv> 0x8000"

subsection \<open>Field access\<close>

definition goPanic :: "'a \<Rightarrow> ('b, 'a) cpuM" where
  "goPanic x = do { modify (\<lambda>c. c\<lparr>panicked := True\<rparr>); return x }"

text \<open>
  Indexing an array and dividing, with the checks Go makes; the first argument of \<open>goIndex\<close> is the
  value a panicking access is given, \<open>goDivide d v\<close> guards a quotient or remainder \<open>v\<close> by its divisor.
\<close>

definition goIndex :: "'a \<Rightarrow> 'a list \<Rightarrow> nat \<Rightarrow> ('b, 'a) cpuM" where
  "goIndex x xs i = (if i < length xs then return (xs ! i) else goPanic x)"

definition goDivide :: "u32 \<Rightarrow> u32 \<Rightarrow> ('b, u32) cpuM" where
  "goDivide d v = (if d = 0 then goPanic 0 else return v)"

definition getD :: "nat \<Rightarrow> ('b, u32) cpuM" where
  "getD i = do { ds \<leftarrow> gets (\<lambda>c. regD (reg c));
     if i < length ds then return (ds ! i) else goPanic 0 }"

definition putD :: "nat \<Rightarrow> u32 \<Rightarrow> ('b, unit) cpuM" where
  "putD i v = do { ds \<leftarrow> gets (\<lambda>c. regD (reg c));
     if i < length ds then modify (\<lambda>c. c\<lparr>reg := (reg c)\<lparr>regD := ds[i := v]\<rparr>\<rparr>) else goPanic () }"

definition getA :: "nat \<Rightarrow> ('b, u32) cpuM" where
  "getA i = do { as \<leftarrow> gets (\<lambda>c. regA (reg c));
     if i < length as then return (as ! i) else goPanic 0 }"

definition putA :: "nat \<Rightarrow> u32 \<Rightarrow> ('b, unit) cpuM" where
  "putA i v = do { as \<leftarrow> gets (\<lambda>c. regA (reg c));
     if i < length as then modify (\<lambda>c. c\<lparr>reg := (reg c)\<lparr>regA := as[i := v]\<rparr>\<rparr>) else goPanic () }"

definition getPC :: "('b, u32) cpuM" where
  "getPC = gets (\<lambda>c. regPC (reg c))"

definition putPC :: "u32 \<Rightarrow> ('b, unit) cpuM" where
  "putPC v = modify (\<lambda>c. c\<lparr>reg := (reg c)\<lparr>regPC := v\<rparr>\<rparr>)"

definition getSR :: "('b, u16) cpuM" where
  "getSR = gets (\<lambda>c. regSR (reg c))"

definition putSR :: "u16 \<Rightarrow> ('b, unit) cpuM" where
  "putSR v = modify (\<lambda>c. c\<lparr>reg := (reg c)\<lparr>regSR := v\<rparr>\<rparr>)"

definition getUSP :: "('b, u32) cpuM" where
  "getUSP = gets (\<lambda>c. regUSP (reg c))"

definition putUSP :: "u32 \<Rightarrow> ('b, unit) cpuM" where
  "putUSP v = modify (\<lambda>c. c\<lparr>reg := (reg c)\<lparr>regUSP := v\<rparr>\<rparr>)"

definition getSSP :: "('b, u32) cpuM" where
  "getSSP = gets (\<lambda>c. regSSP (reg c))"

definition putSSP :: "u32 \<Rightarrow> ('b, unit) cpuM" where
  "putSSP v = modify (\<lambda>c. c\<lparr>reg := (reg c)\<lparr>regSSP := v\<rparr>\<rparr>)"

text \<open>\<open>c.reg.SR |= m\<close>, \<open>c.reg.SR &^= m\<close>, \<open>c.cycles += n\<close> and \<open>c.halted = true\<close>.\<close>

definition srSet :: "u16 \<Rightarrow> ('b, unit) cpuM" where
  "srSet m = modify (\<lambda>c. c\<lparr>reg := (reg c)\<lparr>regSR := regSR (reg c) OR m\<rparr>\<rparr>)"

definition srClr :: "u16 \<Rightarrow> ('b, unit) cpuM" where
  "srClr m = modify (\<lambda>c. c\<lparr>reg := (reg c)\<lparr>regSR := regSR (reg c) AND NOT m\<rparr>\<rparr>)"

definition addCycles :: "u64 \<Rightarrow> ('b, unit) cpuM" where
  "addCycles n = modify (\<lambda>c. c\<lparr>cycles := cycles c + n\<rparr>)"

definition setHalted :: "('b, unit) cpuM" where
  "setHalted = modify (\<lambda>c. c\<lparr>halted := True\<rparr>)"

subsection \<open>Bus access, instruction fetch and stack\<close>

definition busRead8 :: "u32 \<Rightarrow> ('b, u8) cpuM" where
  "busRead8 addr = State (\<lambda>c. case Read8 (bus c) (busState c) addr of (v, b) \<Rightarrow> (v, c\<lparr>busState := b\<rparr>))"

definition busRead16 :: "u32 \<Rightarrow> ('b, u16) cpuM" where
  "busRead16 addr = State (\<lambda>c. case Read16 (bus c) (busState c) addr of (v, b) \<Rightarrow> (v, c\<lparr>busState := b\<rparr>))"

definition busRead32 :: "u32 \<Rightarrow> ('b, u32) cpuM" where
  "busRead32 addr = State (\<lambda>c. case Read32 (bus c) (busState c) addr of (v, b) \<Rightarrow> (v, c\<lparr>busState := b\<rparr>))"

definition busWrite8 :: "u32 \<Rightarrow> u8 \<Rightarrow> ('b, unit) cpuM" where
  "busWrite8 addr v = modify (\<lambda>c. c\<lparr>busState := Write8 (bus c) (busState c) addr v\<rparr>)"

definition busWrite16 :: "u32 \<Rightarrow> u16 \<Rightarrow> ('b, unit) cpuM" where
  "busWrite16 addr v = modify (\<lambda>c. c\<lparr>busState := Write16 (bus c) (busState c) addr v\<rparr>)"

definition busWrite32 :: "u32 \<Rightarrow> u32 \<Rightarrow> ('b, unit) cpuM" where
  "busWrite32 addr v = modify (\<lambda>c. c\<lparr>busState := Write32 (bus c) (busState c) addr v\<rparr>)"

definition busReset :: "('b, unit) cpuM" where
  "busReset = modify (\<lambda>c. c\<lparr>busState := BusReset (bus c) (busState c)\<rparr>)"

definition readBus :: "msize \<Rightarrow> u32 \<Rightarrow> ('b, u32) cpuM" where
  "readBus sz addr = do {
     h \<leftarrow> gets halted;
     if h then return 0
     else if sz \<noteq> sizeByte \<and> addr AND 1 \<noteq> 0 then do { setHalted; return 0 }
     else do {
       let addr = addr AND 0xFFFFFF;
       (case sz of
          sizeByte \<Rightarrow> do { v \<leftarrow> busRead8 addr; return (ucast v) }
        | sizeWord \<Rightarrow> do { v \<leftarrow> busRead16 addr; return (ucast v) }
        | sizeLong \<Rightarrow> busRead32 addr
        | sizeZero \<Rightarrow> return 0) } }"

definition writeBus :: "msize \<Rightarrow> u32 \<Rightarrow> u32 \<Rightarrow> ('b, unit) cpuM" where
  "writeBus sz addr val = do {
     h \<leftarrow> gets halted;
     if h then return ()
     else if sz \<noteq> sizeByte \<and> addr AND 1 \<noteq> 0 then setHalted
     else do {
       let addr = addr AND 0xFFFFFF;
       let val = val AND Mask sz;
       (case sz of
          sizeByte \<Rightarrow> busWrite8 addr (ucast val)
        | sizeWord \<Rightarrow> busWrite16 addr (ucast val)
        | sizeLong \<Rightarrow> busWrite32 addr val
        | sizeZero \<Rightarrow> return ()) } }"

definition fetchPC :: "('b, u16) cpuM" where
  "fetchPC = do {
     pc \<leftarrow> getPC;
     val \<leftarrow> readBus sizeWord pc;
     pc \<leftarrow> getPC;
     putPC (pc + 2);
     return (ucast val) }"

definition fetchPCLong :: "('b, u32) cpuM" where
  "fetchPCLong = do {
     hi \<leftarrow> fetchPC;
     lo \<leftarrow> fetchPC;
     return (push_bit 16 (ucast hi) OR ucast lo) }"

definition pushWord :: "u16 \<Rightarrow> ('b, unit) cpuM" where
  "pushWord val = do {
     a \<leftarrow> getA 7;
     putA 7 (a - 2);
     a \<leftarrow> getA 7;
     writeBus sizeWord a (ucast val) }"

definition pushLong :: "u32 \<Rightarrow> ('b, unit) cpuM" where
  "pushLong val = do {
     a \<leftarrow> getA 7;
     putA 7 (a - 4);
     a \<leftarrow> getA 7;
     writeBus sizeLong a val }"

definition popWord :: "('b, u16) cpuM" where
  "popWord = do {
     a \<leftarrow> getA 7;
     val \<leftarrow> readBus sizeWord a;
     a \<leftarrow> getA 7;
     putA 7 (a + 2);
     return (ucast val) }"

definition popLong :: "('b, u32) cpuM" where
  "popLong = do {
     a \<leftarrow> getA 7;
     val \<leftarrow> readBus sizeLong a;
     a \<leftarrow> getA 7;
     putA 7 (a + 4);
     return val }"

subsection \<open>Status register\<close>

definition supervisor :: "('b, bool) cpuM" where
  "supervisor = do { sr \<leftarrow> getSR; return (sr AND flagS \<noteq> 0) }"

definition setSR :: "u16 \<Rightarrow> ('b, unit) cpuM" where
  "setSR sr = do {
     sr0 \<leftarrow> getSR;
     let oldS = sr0 AND flagS;
     let newS = sr AND flagS;
     (if oldS \<noteq> 0 \<and> newS = 0 then do {
        a \<leftarrow> getA 7;
        putSSP a;
        u \<leftarrow> getUSP;
        putA 7 u }
      else if oldS = 0 \<and> newS \<noteq> 0 then do {
        a \<leftarrow> getA 7;
        putUSP a;
        s \<leftarrow> getSSP;
        putA 7 s }
      else return ());
     putSR (sr AND 0xA71F) }"

definition setCCR :: "u8 \<Rightarrow> ('b, unit) cpuM" where
  "setCCR ccr = do {
     sr \<leftarrow> getSR;
     putSR ((sr AND 0xFF00) OR ucast (ccr AND 0x1F)) }"

subsection \<open>Construction, configuration and observers\<close>

definition zeroRegisters :: Registers where
  "zeroRegisters = \<lparr>regD = replicate 8 0, regA = replicate 8 0, regPC = 0, regSR = 0,
     regUSP = 0, regSSP = 0, regIR = 0\<rparr>"

definition zeroCPU :: "'b Bus \<Rightarrow> 'b \<Rightarrow> 'b CPU" where
  "zeroCPU b s = \<lparr>reg = zeroRegisters, bus = b, busState = s, cycles = 0, ir = 0,
     stopped = False, halted = False, prevPC = 0, pendingIPL = 0, pendingVec = None,
     deficit = 0, panicked = False\<rparr>"

definition Reset :: "('b, unit) cpuM" where
  "Reset = do {
     modify (\<lambda>c. c\<lparr>reg := zeroRegisters\<lparr>regSR := 0x2700\<rparr>\<rparr>);
     modify (\<lambda>c. c\<lparr>stopped := False, halted := False, cycles := 0, deficit := 0,
       pendingIPL := 0, pendingVec := None\<rparr>);
     ssp \<leftarrow> busRead32 0;
     putA 7 ssp;
     putSSP ssp;
     pc \<leftarrow> busRead32 4;
     putPC pc }"

definition New :: "'b Bus \<Rightarrow> 'b \<Rightarrow> 'b CPU" where
  "New b s = snd (run_state Reset (zeroCPU b s))"

definition Halted :: "('b, bool) cpuM" where
  "Halted = gets halted"

definition Deficit :: "('b, int) cpuM" where
  "Deficit = gets deficit"

definition Cycles :: "('b, u64) cpuM" where
  "Cycles = gets cycles"

definition AddCycles :: "u64 \<Rightarrow> ('b, unit) cpuM" where
  "AddCycles n = addCycles n"

definition getRegisters :: "('b, Registers) cpuM" where
  "getRegisters = gets reg"

definition RequestInterrupt :: "u8 \<Rightarrow> u8 option \<Rightarrow> ('b, unit) cpuM" where
  "RequestInterrupt level vector = do {
     p \<leftarrow> gets pendingIPL;
     whenM (level > p) (modify (\<lambda>c. c\<lparr>pendingIPL := level, pendingVec := vector\<rparr>)) }"

definition SetIPL :: "u8 \<Rightarrow> u8 option \<Rightarrow> ('b, unit) cpuM" where
  "SetIPL level vector = modify (\<lambda>c. c\<lparr>pendingIPL := level, pendingVec := vector\<rparr>)"

definition SetState :: "Registers \<Rightarrow> ('b, unit) cpuM" where
  "SetState regs = do {
     modify (\<lambda>c. c\<lparr>reg := (reg c)\<lparr>regD := regD regs, regSR := regSR regs, regUSP := regUSP regs,
       regSSP := regSSP regs, regPC := regPC regs\<rparr>\<rparr>);
     modify (\<lambda>c. c\<lparr>stopped := False, halted := False, cycles := 0, deficit := 0,
       pendingIPL := 0, pendingVec := None\<rparr>);
     foldM (\<lambda>i _. do { v \<leftarrow> goIndex 0 (regA regs) i; putA i v }) [0..<7] ();
     (if regSR regs AND flagS \<noteq> 0 then putA 7 (regSSP regs) else putA 7 (regUSP regs)) }"

subsection \<open>Running the field accessors\<close>

lemma run_goIndex [simp, run]: "i < length xs \<Longrightarrow> goIndex x xs i = return (xs ! i)"
  by (simp add: goIndex_def)

lemma run_goDivide [simp, run]: "d \<noteq> 0 \<Longrightarrow> goDivide d v = return v"
  by (simp add: goDivide_def)

lemma run_getD [simp, run]: "i < length (regD (reg c)) \<Longrightarrow> run_state (getD i) c = (regD (reg c) ! i, c)"
  by (simp add: getD_def)

lemma run_putD [simp, run]:
  "i < length (regD (reg c)) \<Longrightarrow>
     run_state (putD i v) c = ((), c\<lparr>reg := (reg c)\<lparr>regD := (regD (reg c))[i := v]\<rparr>\<rparr>)"
  by (simp add: putD_def)

lemma run_getA [simp, run]: "i < length (regA (reg c)) \<Longrightarrow> run_state (getA i) c = (regA (reg c) ! i, c)"
  by (simp add: getA_def)

lemma run_putA [simp, run]:
  "i < length (regA (reg c)) \<Longrightarrow>
     run_state (putA i v) c = ((), c\<lparr>reg := (reg c)\<lparr>regA := (regA (reg c))[i := v]\<rparr>\<rparr>)"
  by (simp add: putA_def)

lemma run_special [simp, run]:
  "run_state getPC c = (regPC (reg c), c)"
  "run_state (putPC a) c = ((), c\<lparr>reg := (reg c)\<lparr>regPC := a\<rparr>\<rparr>)"
  "run_state getSR c = (regSR (reg c), c)"
  "run_state (putSR w) c = ((), c\<lparr>reg := (reg c)\<lparr>regSR := w\<rparr>\<rparr>)"
  "run_state getUSP c = (regUSP (reg c), c)"
  "run_state (putUSP a) c = ((), c\<lparr>reg := (reg c)\<lparr>regUSP := a\<rparr>\<rparr>)"
  "run_state getSSP c = (regSSP (reg c), c)"
  "run_state (putSSP a) c = ((), c\<lparr>reg := (reg c)\<lparr>regSSP := a\<rparr>\<rparr>)"
  "run_state (srSet w) c = ((), c\<lparr>reg := (reg c)\<lparr>regSR := regSR (reg c) OR w\<rparr>\<rparr>)"
  "run_state (srClr w) c = ((), c\<lparr>reg := (reg c)\<lparr>regSR := regSR (reg c) AND NOT w\<rparr>\<rparr>)"
  "run_state (addCycles n) c = ((), c\<lparr>cycles := cycles c + n\<rparr>)"
  "run_state setHalted c = ((), c\<lparr>halted := True\<rparr>)"
  by (simp_all add: getPC_def putPC_def getSR_def putSR_def getUSP_def putUSP_def getSSP_def
    putSSP_def srSet_def srClr_def addCycles_def setHalted_def)

subsection \<open>What memory accesses change\<close>

lemma run_readBus:
  "\<exists>v b h. run_state (readBus sz a) c = (v, c\<lparr>busState := b, halted := h\<rparr>)"
  by (cases c; cases sz)
    (auto simp: readBus_def setHalted_def busRead8_def busRead16_def busRead32_def Let_def
      split: prod.split)

lemma run_writeBus:
  "\<exists>b h. run_state (writeBus sz a v) c = ((), c\<lparr>busState := b, halted := h\<rparr>)"
  by (cases c; cases sz)
    (auto simp: writeBus_def setHalted_def busWrite8_def busWrite16_def busWrite32_def Let_def)

lemma run_fetchPC:
  "\<exists>v b h. run_state fetchPC c =
     (v, c\<lparr>reg := (reg c)\<lparr>regPC := regPC (reg c) + 2\<rparr>, busState := b, halted := h\<rparr>)"
proof -
  obtain v b h where "run_state (readBus sizeWord (regPC (reg c))) c = (v, c\<lparr>busState := b, halted := h\<rparr>)"
    using run_readBus [of sizeWord "regPC (reg c)" c] by blast
  then show ?thesis
    by (cases c) (auto simp: fetchPC_def getPC_def putPC_def)
qed

end
