(* ===== verification/M68k_Exception.thy ===== *)
theory M68k_Exception
  imports M68k_Cpu
begin

text \<open>
  Exception processing (\<open>exception.go\<close>) and interrupt processing (\<open>interrupt.go\<close>).
\<close>

abbreviation (input) vecBusError :: nat where "vecBusError \<equiv> 2"
abbreviation (input) vecIllegalInstruction :: nat where "vecIllegalInstruction \<equiv> 4"
abbreviation (input) vecDivideByZero :: nat where "vecDivideByZero \<equiv> 5"
abbreviation (input) vecCHK :: nat where "vecCHK \<equiv> 6"
abbreviation (input) vecTRAPV :: nat where "vecTRAPV \<equiv> 7"
abbreviation (input) vecPrivilegeViolation :: nat where "vecPrivilegeViolation \<equiv> 8"
abbreviation (input) vecLineA :: nat where "vecLineA \<equiv> 10"
abbreviation (input) vecLineF :: nat where "vecLineF \<equiv> 11"
abbreviation (input) vecUninitialized :: u32 where "vecUninitialized \<equiv> 15"
abbreviation (input) vecSpuriousInterrupt :: u32 where "vecSpuriousInterrupt \<equiv> 24"
abbreviation (input) vecTrap0 :: nat where "vecTrap0 \<equiv> 32"

definition exception :: "nat \<Rightarrow> ('b, unit) cpuM" where
  "exception vector = do {
     pc \<leftarrow> getPC;
     pp \<leftarrow> gets prevPC;
     let pushPC = (if vector \<in> {vecIllegalInstruction, vecPrivilegeViolation, vecLineA, vecLineF}
                   then pp else pc);
     oldSR \<leftarrow> getSR;
     whenM (oldSR AND flagS = 0) (do {
       a \<leftarrow> getA 7;
       putUSP a;
       s \<leftarrow> getSSP;
       putA 7 s });
     putSR ((oldSR OR flagS) AND NOT flagT);
     pushLong pushPC;
     pushWord oldSR;
     addr \<leftarrow> readBus sizeLong (of_nat vector * 4);
     if addr = 0 then do {
       addr \<leftarrow> readBus sizeLong (vecUninitialized * 4);
       if addr = 0 then setHalted
       else do { putPC addr; addCycles 34 } }
     else do { putPC addr; addCycles 34 } }"

definition processInterrupt :: "('b, unit) cpuM" where
  "processInterrupt = do {
     level \<leftarrow> gets pendingIPL;
     vec \<leftarrow> gets pendingVec;
     modify (\<lambda>c. c\<lparr>pendingIPL := 0, pendingVec := None\<rparr>);
     oldSR \<leftarrow> getSR;
     whenM (oldSR AND flagS = 0) (do {
       a \<leftarrow> getA 7;
       putUSP a;
       s \<leftarrow> getSSP;
       putA 7 s });
     putSR ((oldSR OR flagS) AND NOT flagT);
     sr \<leftarrow> getSR;
     putSR ((sr AND 0xF8FF) OR push_bit 8 (ucast level));
     pc \<leftarrow> getPC;
     pushLong pc;
     pushWord oldSR;
     let vectorNum = (case vec of Some v \<Rightarrow> v | None \<Rightarrow> 24 + level);
     addr \<leftarrow> readBus sizeLong (ucast vectorNum * 4);
     addr \<leftarrow> (if addr = 0 then readBus sizeLong (vecSpuriousInterrupt * 4) else return addr);
     putPC addr;
     modify (\<lambda>c. c\<lparr>stopped := False\<rparr>);
     addCycles 44 }"

definition checkInterrupt :: "('b, unit) cpuM" where
  "checkInterrupt = do {
     p \<leftarrow> gets pendingIPL;
     if p = 0 then return ()
     else do {
       sr \<leftarrow> getSR;
       let mask = (ucast (drop_bit 8 sr AND 7) :: u8);
       whenM (p > mask \<or> p = 7) processInterrupt } }"

subsection \<open>Entering supervisor mode\<close>

text \<open>The prefix that exceptions and interrupts share: it returns the old status register.\<close>

definition enterSupervisor :: "('b, u16) cpuM" where
  "enterSupervisor = do {
     oldSR \<leftarrow> getSR;
     whenM (oldSR AND flagS = 0) (do {
       a \<leftarrow> getA 7;
       putUSP a;
       s \<leftarrow> getSSP;
       putA 7 s });
     putSR ((oldSR OR flagS) AND NOT flagT);
     return oldSR }"

lemma exception_enterSupervisor:
  "exception vector = do {
     pc \<leftarrow> getPC;
     pp \<leftarrow> gets prevPC;
     let pushPC = (if vector \<in> {vecIllegalInstruction, vecPrivilegeViolation, vecLineA, vecLineF}
                   then pp else pc);
     oldSR \<leftarrow> enterSupervisor;
     pushLong pushPC;
     pushWord oldSR;
     addr \<leftarrow> readBus sizeLong (of_nat vector * 4);
     if addr = 0 then do {
       addr \<leftarrow> readBus sizeLong (vecUninitialized * 4);
       if addr = 0 then setHalted
       else do { putPC addr; addCycles 34 } }
     else do { putPC addr; addCycles 34 } }"
  by (simp add: exception_def enterSupervisor_def Let_def)

end
