(* ===== verification/M68k_EA.thy ===== *)
theory M68k_EA
  imports M68k_Exception
begin

text \<open>
  Effective addresses. First the resolved operands of \<open>ea.go\<close> (\<open>resolveEA\<close> with \<open>read\<close>,
  \<open>write\<close> and \<open>address\<close>) and the timing tables of \<open>timing.go\<close>; then the specialised closures
  of \<open>ea_inline.go\<close> that the instruction handlers use instead. A Go function value that is nil
  is the program that panics when it is called.
\<close>

subsection \<open>Resolved operands (\<open>ea.go\<close>)\<close>

datatype eaKind = eaDataReg | eaAddrReg | eaMemory | eaImmediate

record ea =
  ea_mode :: eaKind
  ea_reg :: u8
  ea_addr :: u32
  ea_imm :: u32

definition zeroEA :: ea where
  "zeroEA = \<lparr>ea_mode = eaDataReg, ea_reg = 0, ea_addr = 0, ea_imm = 0\<rparr>"

definition ea_read :: "ea \<Rightarrow> msize \<Rightarrow> ('b, u32) cpuM" where
  "ea_read e sz = (case ea_mode e of
       eaDataReg \<Rightarrow> do { v \<leftarrow> getD (unat (ea_reg e)); return (v AND Mask sz) }
     | eaAddrReg \<Rightarrow> do { v \<leftarrow> getA (unat (ea_reg e)); return (v AND Mask sz) }
     | eaMemory \<Rightarrow> readBus sz (ea_addr e)
     | eaImmediate \<Rightarrow> return (ea_imm e AND Mask sz))"

definition ea_write :: "ea \<Rightarrow> msize \<Rightarrow> u32 \<Rightarrow> ('b, unit) cpuM" where
  "ea_write e sz val = (case ea_mode e of
       eaDataReg \<Rightarrow> do {
         let mask = Mask sz;
         v \<leftarrow> getD (unat (ea_reg e));
         putD (unat (ea_reg e)) ((v AND NOT mask) OR (val AND mask)) }
     | eaAddrReg \<Rightarrow> putA (unat (ea_reg e)) val
     | eaMemory \<Rightarrow> writeBus sz (ea_addr e) val
     | eaImmediate \<Rightarrow> return ())"

definition ea_address :: "ea \<Rightarrow> u32" where
  "ea_address e = ea_addr e"

definition calcIndex :: "u32 \<Rightarrow> u16 \<Rightarrow> ('b, u32) cpuM" where
  "calcIndex base ext = do {
     let disp = (ucast (ext AND 0xFF) :: u8);
     let xn = drop_bit 12 ext AND 7;
     idx \<leftarrow> (if ext AND 0x8000 \<noteq> 0 then getA (unat xn) else getD (unat xn));
     let idx = (if ext AND 0x0800 = 0 then scast (ucast idx :: u16) else idx);
     return (base + idx + scast disp) }"

definition resolveEA :: "u8 \<Rightarrow> u8 \<Rightarrow> msize \<Rightarrow> ('b, ea) cpuM" where
  "resolveEA mode rg sz =
    (if mode = 0 then return (zeroEA\<lparr>ea_mode := eaDataReg, ea_reg := rg\<rparr>)
     else if mode = 1 then return (zeroEA\<lparr>ea_mode := eaAddrReg, ea_reg := rg\<rparr>)
     else if mode = 2 then do {
       a \<leftarrow> getA (unat rg);
       return (zeroEA\<lparr>ea_mode := eaMemory, ea_addr := a\<rparr>) }
     else if mode = 3 then do {
       addr \<leftarrow> getA (unat rg);
       let inc = (if rg = 7 \<and> sz = sizeByte then 2 else sizeU32 sz);
       a \<leftarrow> getA (unat rg);
       putA (unat rg) (a + inc);
       return (zeroEA\<lparr>ea_mode := eaMemory, ea_addr := addr\<rparr>) }
     else if mode = 4 then do {
       let dec = (if rg = 7 \<and> sz = sizeByte then 2 else sizeU32 sz);
       a \<leftarrow> getA (unat rg);
       putA (unat rg) (a - dec);
       a \<leftarrow> getA (unat rg);
       return (zeroEA\<lparr>ea_mode := eaMemory, ea_addr := a\<rparr>) }
     else if mode = 5 then do {
       disp \<leftarrow> fetchPC;
       a \<leftarrow> getA (unat rg);
       return (zeroEA\<lparr>ea_mode := eaMemory, ea_addr := a + scast disp\<rparr>) }
     else if mode = 6 then do {
       ext \<leftarrow> fetchPC;
       a \<leftarrow> getA (unat rg);
       x \<leftarrow> calcIndex a ext;
       return (zeroEA\<lparr>ea_mode := eaMemory, ea_addr := x\<rparr>) }
     else if mode = 7 \<and> rg = 0 then do {
       addr \<leftarrow> fetchPC;
       return (zeroEA\<lparr>ea_mode := eaMemory, ea_addr := scast addr\<rparr>) }
     else if mode = 7 \<and> rg = 1 then do {
       addr \<leftarrow> fetchPCLong;
       return (zeroEA\<lparr>ea_mode := eaMemory, ea_addr := addr\<rparr>) }
     else if mode = 7 \<and> rg = 2 then do {
       pc \<leftarrow> getPC;
       disp \<leftarrow> fetchPC;
       return (zeroEA\<lparr>ea_mode := eaMemory, ea_addr := pc + scast disp\<rparr>) }
     else if mode = 7 \<and> rg = 3 then do {
       pc \<leftarrow> getPC;
       ext \<leftarrow> fetchPC;
       x \<leftarrow> calcIndex pc ext;
       return (zeroEA\<lparr>ea_mode := eaMemory, ea_addr := x\<rparr>) }
     else if mode = 7 \<and> rg = 4 \<and> sz = sizeByte then do {
       val \<leftarrow> fetchPC;
       return (zeroEA\<lparr>ea_mode := eaImmediate, ea_imm := ucast (val AND 0xFF)\<rparr>) }
     else if mode = 7 \<and> rg = 4 \<and> sz = sizeWord then do {
       val \<leftarrow> fetchPC;
       return (zeroEA\<lparr>ea_mode := eaImmediate, ea_imm := ucast val\<rparr>) }
     else if mode = 7 \<and> rg = 4 \<and> sz = sizeLong then do {
       val \<leftarrow> fetchPCLong;
       return (zeroEA\<lparr>ea_mode := eaImmediate, ea_imm := val\<rparr>) }
     else do { exception vecIllegalInstruction; return zeroEA })"

subsection \<open>Timing tables (\<open>timing.go\<close>)\<close>

definition eaFetchCycles :: "u8 \<Rightarrow> u8 \<Rightarrow> msize \<Rightarrow> u64" where
  "eaFetchCycles mode rg sz =
    (let base = (if mode = 0 \<or> mode = 1 then 0
                 else if mode = 2 \<or> mode = 3 then 4
                 else if mode = 4 then 6
                 else if mode = 5 then 8
                 else if mode = 6 then 10
                 else if mode = 7 then
                   (if rg = 0 then 8 else if rg = 1 then 12 else if rg = 2 then 8
                    else if rg = 3 then 10 else if rg = 4 then 4 else 0)
                 else 0)
     in if sz = sizeLong \<and> base > 0 then base + 4 else base)"

definition eaWriteCycles :: "u8 \<Rightarrow> u8 \<Rightarrow> msize \<Rightarrow> u64" where
  "eaWriteCycles mode rg sz =
    (let base = (if mode = 0 \<or> mode = 1 then 0
                 else if mode = 2 \<or> mode = 3 \<or> mode = 4 then 4
                 else if mode = 5 then 8
                 else if mode = 6 then 10
                 else if mode = 7 then (if rg = 0 then 8 else if rg = 1 then 12 else 0)
                 else 0)
     in if sz = sizeLong \<and> base > 0 then base + 4 else base)"

subsection \<open>Specialised closures (\<open>ea_inline.go\<close>)\<close>

type_synonym 'b eaReadFunc = "msize \<Rightarrow> ('b, u32) cpuM"
type_synonym 'b eaAddrFunc = "msize \<Rightarrow> ('b, u32) cpuM"

definition makeEARead :: "u16 \<Rightarrow> u16 \<Rightarrow> 'b eaReadFunc" where
  "makeEARead mode rg =
    (if mode = 0 then (\<lambda>sz. do { v \<leftarrow> getD (unat rg); return (v AND Mask sz) })
     else if mode = 1 then (\<lambda>sz. do { v \<leftarrow> getA (unat rg); return (v AND Mask sz) })
     else if mode = 2 then (\<lambda>sz. do { a \<leftarrow> getA (unat rg); readBus sz a })
     else if mode = 3 then
       (if rg = 7 then (\<lambda>sz. do {
          addr \<leftarrow> getA 7;
          let inc = (if sz = sizeByte then 2 else sizeU32 sz);
          a \<leftarrow> getA 7;
          putA 7 (a + inc);
          readBus sz addr })
        else (\<lambda>sz. do {
          addr \<leftarrow> getA (unat rg);
          a \<leftarrow> getA (unat rg);
          putA (unat rg) (a + sizeU32 sz);
          readBus sz addr }))
     else if mode = 4 then
       (if rg = 7 then (\<lambda>sz. do {
          let dec = (if sz = sizeByte then 2 else sizeU32 sz);
          a \<leftarrow> getA 7;
          putA 7 (a - dec);
          a \<leftarrow> getA 7;
          readBus sz a })
        else (\<lambda>sz. do {
          a \<leftarrow> getA (unat rg);
          putA (unat rg) (a - sizeU32 sz);
          a \<leftarrow> getA (unat rg);
          readBus sz a }))
     else if mode = 5 then (\<lambda>sz. do {
       disp \<leftarrow> fetchPC;
       a \<leftarrow> getA (unat rg);
       readBus sz (a + scast disp) })
     else if mode = 6 then (\<lambda>sz. do {
       ext \<leftarrow> fetchPC;
       a \<leftarrow> getA (unat rg);
       x \<leftarrow> calcIndex a ext;
       readBus sz x })
     else if mode = 7 \<and> rg = 0 then (\<lambda>sz. do { addr \<leftarrow> fetchPC; readBus sz (scast addr) })
     else if mode = 7 \<and> rg = 1 then (\<lambda>sz. do { addr \<leftarrow> fetchPCLong; readBus sz addr })
     else if mode = 7 \<and> rg = 2 then (\<lambda>sz. do {
       pc \<leftarrow> getPC;
       disp \<leftarrow> fetchPC;
       readBus sz (pc + scast disp) })
     else if mode = 7 \<and> rg = 3 then (\<lambda>sz. do {
       pc \<leftarrow> getPC;
       ext \<leftarrow> fetchPC;
       x \<leftarrow> calcIndex pc ext;
       readBus sz x })
     else if mode = 7 \<and> rg = 4 then (\<lambda>sz.
       if sz = sizeLong then fetchPCLong
       else do { v \<leftarrow> fetchPC; return (ucast v AND Mask sz) })
     else (\<lambda>sz. goPanic 0))"

definition makeEAMemAddr :: "u16 \<Rightarrow> u16 \<Rightarrow> 'b eaAddrFunc" where
  "makeEAMemAddr mode rg =
    (if mode = 2 then (\<lambda>sz. getA (unat rg))
     else if mode = 3 then
       (if rg = 7 then (\<lambda>sz. do {
          addr \<leftarrow> getA 7;
          let inc = (if sz = sizeByte then 2 else sizeU32 sz);
          a \<leftarrow> getA 7;
          putA 7 (a + inc);
          return addr })
        else (\<lambda>sz. do {
          addr \<leftarrow> getA (unat rg);
          a \<leftarrow> getA (unat rg);
          putA (unat rg) (a + sizeU32 sz);
          return addr }))
     else if mode = 4 then
       (if rg = 7 then (\<lambda>sz. do {
          let dec = (if sz = sizeByte then 2 else sizeU32 sz);
          a \<leftarrow> getA 7;
          putA 7 (a - dec);
          getA 7 })
        else (\<lambda>sz. do {
          a \<leftarrow> getA (unat rg);
          putA (unat rg) (a - sizeU32 sz);
          getA (unat rg) }))
     else if mode = 5 then (\<lambda>sz. do {
       disp \<leftarrow> fetchPC;
       a \<leftarrow> getA (unat rg);
       return (a + scast disp) })
     else if mode = 6 then (\<lambda>sz. do {
       ext \<leftarrow> fetchPC;
       a \<leftarrow> getA (unat rg);
       calcIndex a ext })
     else if mode = 7 \<and> rg = 0 then (\<lambda>sz. do { addr \<leftarrow> fetchPC; return (scast addr) })
     else if mode = 7 \<and> rg = 1 then (\<lambda>sz. fetchPCLong)
     else if mode = 7 \<and> rg = 2 then (\<lambda>sz. do {
       pc \<leftarrow> getPC;
       disp \<leftarrow> fetchPC;
       return (pc + scast disp) })
     else if mode = 7 \<and> rg = 3 then (\<lambda>sz. do {
       pc \<leftarrow> getPC;
       ext \<leftarrow> fetchPC;
       calcIndex pc ext })
     else (\<lambda>sz. goPanic 0))"

definition eaFetchConst :: "u16 \<Rightarrow> u16 \<Rightarrow> u64 \<times> u64" where
  "eaFetchConst mode rg =
    (if mode = 0 \<or> mode = 1 then (0, 0)
     else if mode = 2 \<or> mode = 3 then (4, 4)
     else if mode = 4 then (6, 4)
     else if mode = 5 then (8, 4)
     else if mode = 6 then (10, 4)
     else if mode = 7 then
       (if rg = 0 then (8, 4) else if rg = 1 then (12, 4) else if rg = 2 then (8, 4)
        else if rg = 3 then (10, 4) else if rg = 4 then (4, 4) else (0, 0))
     else (0, 0))"

definition eaWriteConst :: "u16 \<Rightarrow> u16 \<Rightarrow> u64 \<times> u64" where
  "eaWriteConst mode rg =
    (if mode = 0 \<or> mode = 1 then (0, 0)
     else if mode = 2 \<or> mode = 3 \<or> mode = 4 then (4, 4)
     else if mode = 5 then (8, 4)
     else if mode = 6 then (10, 4)
     else if mode = 7 then (if rg = 0 then (8, 4) else if rg = 1 then (12, 4) else (0, 0))
     else (0, 0))"

end
