(* ===== verification/M68k_Flags.thy ===== *)
theory M68k_Flags
  imports M68k_Cpu
begin

text \<open>
  The condition codes of \<open>flags.go\<close>: setting them after additions, subtractions,
  comparisons and logical operations, and evaluating the sixteen conditions.
\<close>

subsection \<open>Setting the condition codes\<close>

definition setFlagsAdd :: "u32 \<Rightarrow> u32 \<Rightarrow> u32 \<Rightarrow> msize \<Rightarrow> ('b, unit) cpuM" where
  "setFlagsAdd src dst result sz = do {
     let msb = MSB sz;
     let mask = Mask sz;
     let r = result AND mask;
     let s = src AND mask;
     let d = dst AND mask;
     srClr (flagX OR flagN OR flagZ OR flagV OR flagC);
     whenM (r = 0) (srSet flagZ);
     whenM (r AND msb \<noteq> 0) (srSet flagN);
     whenM ((s XOR r) AND (d XOR r) AND msb \<noteq> 0) (srSet flagV);
     whenM (result AND (push_bit 1 msb) \<noteq> 0 \<or>
            (sz = sizeLong \<and> ((s AND d) OR ((s OR d) AND NOT r)) AND msb \<noteq> 0))
       (srSet (flagC OR flagX)) }"

definition setFlagsSub :: "u32 \<Rightarrow> u32 \<Rightarrow> u32 \<Rightarrow> msize \<Rightarrow> ('b, unit) cpuM" where
  "setFlagsSub src dst result sz = do {
     let msb = MSB sz;
     let mask = Mask sz;
     let r = result AND mask;
     let s = src AND mask;
     let d = dst AND mask;
     srClr (flagX OR flagN OR flagZ OR flagV OR flagC);
     whenM (r = 0) (srSet flagZ);
     whenM (r AND msb \<noteq> 0) (srSet flagN);
     whenM ((s XOR d) AND (r XOR d) AND msb \<noteq> 0) (srSet flagV);
     whenM (((s AND NOT d) OR (r AND NOT d) OR (s AND r)) AND msb \<noteq> 0)
       (srSet (flagC OR flagX)) }"

definition setFlagsCmp :: "u32 \<Rightarrow> u32 \<Rightarrow> u32 \<Rightarrow> msize \<Rightarrow> ('b, unit) cpuM" where
  "setFlagsCmp src dst result sz = do {
     let msb = MSB sz;
     let mask = Mask sz;
     let r = result AND mask;
     let s = src AND mask;
     let d = dst AND mask;
     srClr (flagN OR flagZ OR flagV OR flagC);
     whenM (r = 0) (srSet flagZ);
     whenM (r AND msb \<noteq> 0) (srSet flagN);
     whenM ((s XOR d) AND (r XOR d) AND msb \<noteq> 0) (srSet flagV);
     whenM (((s AND NOT d) OR (r AND NOT d) OR (s AND r)) AND msb \<noteq> 0)
       (srSet flagC) }"

definition setFlagsLogical :: "u32 \<Rightarrow> msize \<Rightarrow> ('b, unit) cpuM" where
  "setFlagsLogical result sz = do {
     srClr (flagN OR flagZ OR flagV OR flagC);
     whenM (result AND Mask sz = 0) (srSet flagZ);
     whenM (result AND MSB sz \<noteq> 0) (srSet flagN) }"

subsection \<open>Conditions\<close>

definition testCondition :: "u16 \<Rightarrow> ('b, bool) cpuM" where
  "testCondition cc = do {
     sr \<leftarrow> getSR;
     let n = (sr AND flagN \<noteq> 0);
     let v = (sr AND flagV \<noteq> 0);
     let z = (sr AND flagZ \<noteq> 0);
     return (
       if cc = 0 then True
       else if cc = 1 then False
       else if cc = 2 then sr AND (flagC OR flagZ) = 0
       else if cc = 3 then sr AND (flagC OR flagZ) \<noteq> 0
       else if cc = 4 then sr AND flagC = 0
       else if cc = 5 then sr AND flagC \<noteq> 0
       else if cc = 6 then sr AND flagZ = 0
       else if cc = 7 then sr AND flagZ \<noteq> 0
       else if cc = 8 then sr AND flagV = 0
       else if cc = 9 then sr AND flagV \<noteq> 0
       else if cc = 10 then sr AND flagN = 0
       else if cc = 11 then sr AND flagN \<noteq> 0
       else if cc = 12 then n = v
       else if cc = 13 then n \<noteq> v
       else if cc = 14 then n = v \<and> \<not> z
       else if cc = 15 then z \<or> n \<noteq> v
       else False) }"

end
