(* ===== verification/M68k_Frame.thy ===== *)
theory M68k_Frame
  imports M68k_EA M68k_Flags
begin

text \<open>
  The interface between the CPU core and the instruction set. An instruction handler changes
  the CPU only through the operations of \<open>cpu.go\<close>. The locale \<open>cpu_frame\<close> states, for a reflexive
  and transitive relation \<open>R\<close> between the state before and after, that each of these operations
  respects \<open>R\<close>; inside it every program built from them is shown to respect \<open>R\<close>. The locale
  \<open>cpu_frame_trap\<close> adds exceptions as the last act of an instruction, \<open>cpu_frame_exc\<close> exceptions
  anywhere, and \<open>cpu_frame_sys\<close> the operations that only privileged instructions use.
  \<open>cpu_frame_any\<close> is a stronger contract for relations that do not care about the value of the
  status register; it implies \<open>cpu_frame_sys\<close>.

  Each safety property of the instruction set is an interpretation of one of these locales.
\<close>

subsection \<open>Valid operand fields\<close>

definition srcEA :: "u16 \<Rightarrow> u16 \<Rightarrow> bool" where
  "srcEA mode rg \<longleftrightarrow> mode < 8 \<and> rg < 8 \<and> \<not> (mode = 7 \<and> rg > 4)"

definition memEA :: "u16 \<Rightarrow> u16 \<Rightarrow> bool" where
  "memEA mode rg \<longleftrightarrow> 2 \<le> mode \<and> mode < 8 \<and> rg < 8 \<and> \<not> (mode = 7 \<and> rg > 3)"

text \<open>An update of the status register that stays within the condition codes.\<close>

definition ccr_step :: "u16 \<Rightarrow> u16 \<Rightarrow> bool" where
  "ccr_step sr sr' \<longleftrightarrow> sr' AND 0xFF00 = sr AND 0xFF00 \<and> sr' AND 0xE0 AND NOT sr = 0"

lemma ccr_step_or: "m AND 0xFFE0 = 0 \<Longrightarrow> ccr_step sr (sr OR m)"
  by (simp add: ccr_step_def bits16)

lemma ccr_step_andnot: "m AND 0xFFE0 = 0 \<Longrightarrow> ccr_step sr (sr AND NOT m)"
  by (auto simp: ccr_step_def bits16)

lemma ccr_step_setCCR: "ccr_step sr ((sr AND 0xFF00) OR ucast ((ccr :: u8) AND 0x1F))"
  by (simp add: ccr_step_def bits16)

lemma ccr_step_keepZ: "ccr_step sr ((sr AND NOT flagZ) OR (sr0 AND flagZ))"
  by (simp add: ccr_step_def bits16)

lemma pred_return: "P x \<Longrightarrow> pred_state P (return x)"
  by (rule pred_stateI) auto

lemma pred_bind: "(\<And>x. pred_state P (f x)) \<Longrightarrow> pred_state P (m \<bind> f)"
  by (rule pred_stateI) (auto split: prod.splits)

lemma pred_if: "(b \<Longrightarrow> pred_state P m) \<Longrightarrow> (\<not> b \<Longrightarrow> pred_state P n) \<Longrightarrow> pred_state P (if b then m else n)"
  by simp

lemma resolveEA_reg: "rg < 8 \<Longrightarrow> pred_state (\<lambda>e. ea_reg e < 8) (resolveEA mode rg sz)"
  unfolding resolveEA_def Let_def
  by (intro pred_if pred_bind pred_return; simp add: zeroEA_def)

subsection \<open>The contract\<close>

locale cpu_frame =
  fixes R :: "'b CPU \<Rightarrow> 'b CPU \<Rightarrow> bool"
  assumes refl_R: "reflp R"
    and trans_R: "transp R"
    and io_getD [io]: "i < 8 \<Longrightarrow> state_io_rel R (getD i)"
    and io_putD [io]: "i < 8 \<Longrightarrow> state_io_rel R (putD i v)"
    and io_getA [io]: "i < 8 \<Longrightarrow> state_io_rel R (getA i)"
    and io_putA [io]: "i < 8 \<Longrightarrow> state_io_rel R (putA i v)"
    and io_putPC [io]: "state_io_rel R (putPC v)"
    and io_ccr: "(\<And>sr. ccr_step sr (f sr)) \<Longrightarrow>
      state_io_rel R (modify (\<lambda>c. c\<lparr>reg := (reg c)\<lparr>regSR := f (regSR (reg c))\<rparr>\<rparr>))"
    and io_addCycles [io]: "state_io_rel R (addCycles n)"
    and io_setHalted [io]: "state_io_rel R setHalted"
    and io_readBus [io]: "state_io_rel R (readBus sz a)"
    and io_writeBus [io]: "state_io_rel R (writeBus sz a v)"
begin

lemmas io_return [io] = io_returnI [OF refl_R]
lemmas io_gets [io] = io_getsI [OF refl_R]
lemmas io_bind [io] = io_bindI [OF trans_R]
lemmas io_foldM [io] = io_foldMI [OF refl_R trans_R]

lemma io_goIndex [io]: "i < length xs \<Longrightarrow> state_io_rel R (goIndex x xs i)"
  by (simp add: io_return)

lemma io_goDivide [io]: "d \<noteq> 0 \<Longrightarrow> state_io_rel R (goDivide d v)"
  by (simp add: io_return)

lemma io_whenM [io]: "(b \<Longrightarrow> state_io_rel R m) \<Longrightarrow> state_io_rel R (whenM b m)"
  by (simp add: whenM_def io_return)

lemma io_getters [io]:
  "state_io_rel R getPC" "state_io_rel R getSR" "state_io_rel R getUSP" "state_io_rel R getSSP"
  by (simp_all add: getPC_def getSR_def getUSP_def getSSP_def io_gets)

lemma io_srSet [io]: "m AND 0xFFE0 = 0 \<Longrightarrow> state_io_rel R (srSet m)"
  unfolding srSet_def by (rule io_ccr) (rule ccr_step_or)

lemma io_srClr [io]: "m AND 0xFFE0 = 0 \<Longrightarrow> state_io_rel R (srClr m)"
  unfolding srClr_def by (rule io_ccr) (rule ccr_step_andnot)

lemma io_update_ccr:
  assumes "\<And>sr. ccr_step sr (f sr)"
  shows "state_io_rel R (do { sr \<leftarrow> getSR; putSR (f sr) })"
proof -
  have "(do { sr \<leftarrow> getSR; putSR (f sr) } :: ('b, unit) cpuM) =
      modify (\<lambda>c. c\<lparr>reg := (reg c)\<lparr>regSR := f (regSR (reg c))\<rparr>\<rparr>)"
    by (rule state_ext) (simp add: getSR_def putSR_def)
  then show ?thesis using io_ccr [OF assms] by simp
qed

lemma io_setCCR [io]: "state_io_rel R (setCCR v)"
  unfolding setCCR_def by (rule io_update_ccr) (rule ccr_step_setCCR)

lemma io_fetchPC [io]: "state_io_rel R fetchPC"
  unfolding fetchPC_def by (intro io)

lemma io_fetchPCLong [io]: "state_io_rel R fetchPCLong"
  unfolding fetchPCLong_def by (intro io)

lemma io_pushWord [io]: "state_io_rel R (pushWord v)"
  unfolding pushWord_def by (intro io; simp)

lemma io_pushLong [io]: "state_io_rel R (pushLong v)"
  unfolding pushLong_def by (intro io; simp)

lemma io_popWord [io]: "state_io_rel R popWord"
  unfolding popWord_def by (intro io; simp)

lemma io_popLong [io]: "state_io_rel R popLong"
  unfolding popLong_def by (intro io; simp)

lemma io_supervisor [io]: "state_io_rel R supervisor"
  unfolding supervisor_def by (intro io)

lemma io_setFlags [io]:
  "state_io_rel R (setFlagsAdd s d r sz)" "state_io_rel R (setFlagsSub s d r sz)"
  "state_io_rel R (setFlagsCmp s d r sz)" "state_io_rel R (setFlagsLogical r sz)"
  unfolding setFlagsAdd_def setFlagsSub_def setFlagsCmp_def setFlagsLogical_def Let_def
  by (intro io; simp)+

lemma io_testCondition [io]: "state_io_rel R (testCondition cc)"
  unfolding testCondition_def Let_def by (intro io)

lemma io_calcIndex [io]: "state_io_rel R (calcIndex base ext)"
  unfolding calcIndex_def Let_def by (intro io; simp)

lemma io_makeEARead [io]: "srcEA mode rg \<Longrightarrow> state_io_rel R (makeEARead mode rg sz)"
proof -
  assume ok: "srcEA mode rg"
  then have "mode \<in> {0, 1, 2, 3, 4, 5, 6, 7}" and "unat rg < 8" and "mode = 7 \<Longrightarrow> rg \<in> {0, 1, 2, 3, 4}"
    using less_8_cases [of mode] less_8_cases [of rg] by (auto simp: srcEA_def unat_less_8)
  then show ?thesis
    unfolding makeEARead_def Let_def by (intro io; auto)
qed

lemma io_makeEAMemAddr [io]: "memEA mode rg \<Longrightarrow> state_io_rel R (makeEAMemAddr mode rg sz)"
proof -
  assume ok: "memEA mode rg"
  then have "mode \<in> {2, 3, 4, 5, 6, 7}" and "unat rg < 8" and "mode = 7 \<Longrightarrow> rg \<in> {0, 1, 2, 3}"
    using less_8_cases [of mode] less_8_cases [of rg] by (auto simp: memEA_def unat_less_8 word_le_nat_alt)
  then show ?thesis
    unfolding makeEAMemAddr_def Let_def by (intro io; auto)
qed

lemma io_resolveEA [io]:
  "mode \<in> {2, 3, 4, 5, 6} \<or> mode = 7 \<and> rg \<in> {0, 1, 2, 3} \<Longrightarrow> rg < 8 \<Longrightarrow> state_io_rel R (resolveEA mode rg sz)"
  unfolding resolveEA_def Let_def by (intro io; auto simp: word_less_nat_alt)

lemma io_ea_read [io]: "ea_reg e < 8 \<Longrightarrow> state_io_rel R (ea_read e sz)"
  unfolding ea_read_def
  by (cases "ea_mode e"; simp; intro io; simp add: word_less_nat_alt)

lemma io_ea_write [io]: "ea_reg e < 8 \<Longrightarrow> state_io_rel R (ea_write e sz v)"
  unfolding ea_write_def Let_def
  by (cases "ea_mode e"; simp; intro io; simp add: word_less_nat_alt)

text \<open>What \<open>resolveEA\<close> returns names a register that exists.\<close>

lemma io_bind_resolveEA:
  assumes "mode \<in> {2, 3, 4, 5, 6} \<or> mode = 7 \<and> rg \<in> {0, 1, 2, 3}" "rg < 8"
    and "\<And>e. ea_reg e < 8 \<Longrightarrow> state_io_rel R (f e)"
  shows "state_io_rel R (resolveEA mode rg sz \<bind> f)"
  by (rule io_bind_predI [OF trans_R io_resolveEA resolveEA_reg]) (use assms in auto)

end

text \<open>
  Exceptions that instructions raise. \<open>R'\<close> is a relation that need only hold of a whole instruction:
  code that respects \<open>R\<close> may come before code that respects \<open>R'\<close>, but not after it. So a handler
  respects \<open>R'\<close> if raising an exception is the last thing it does.
\<close>

definition trapVectors :: "nat set" where
  "trapVectors = {vecIllegalInstruction, vecDivideByZero, vecCHK, vecTRAPV, vecPrivilegeViolation,
     vecLineA, vecLineF} \<union> {vecTrap0..<vecTrap0 + 16}"

locale cpu_frame_trap = cpu_frame R for R :: "'b CPU \<Rightarrow> 'b CPU \<Rightarrow> bool" +
  fixes R' :: "'b CPU \<Rightarrow> 'b CPU \<Rightarrow> bool"
  assumes weaker: "R \<le> R'"
    and follows: "R c c1 \<Longrightarrow> R' c1 c2 \<Longrightarrow> R' c c2"
    and trap_exception: "v \<in> trapVectors \<Longrightarrow> state_io_rel R' (exception v)"
begin

lemma trap_weaken: "state_io_rel R m \<Longrightarrow> state_io_rel R' m"
  using weaker by (auto simp: state_io_rel_def)

lemma trap_bind:
  assumes "state_io_rel R m" and "\<And>x. state_io_rel R' (f x)"
  shows "state_io_rel R' (m \<bind> f)"
  using assms by (auto simp: state_io_rel_def split_def intro: follows)

end

locale cpu_frame_exc = cpu_frame R for R :: "'b CPU \<Rightarrow> 'b CPU \<Rightarrow> bool" +
  assumes io_exception [io]: "state_io_rel R (exception v)"

sublocale cpu_frame_exc \<subseteq> cpu_frame_trap R R
  by unfold_locales (auto intro: io_exception transpD [OF trans_R])

locale cpu_frame_sys = cpu_frame_exc R for R :: "'b CPU \<Rightarrow> 'b CPU \<Rightarrow> bool" +
  assumes io_setSR [io]: "state_io_rel R (setSR sr)"
    and io_putUSP [io]: "state_io_rel R (putUSP u)"
    and io_stop [io]: "state_io_rel R (modify (\<lambda>c. c\<lparr>stopped := True\<rparr>))"
    and io_busReset [io]: "state_io_rel R busReset"

locale cpu_frame_any = cpu_frame R for R :: "'b CPU \<Rightarrow> 'b CPU \<Rightarrow> bool" +
  assumes io_putSR [io]: "state_io_rel R (putSR sr)"
    and any_putUSP [io]: "state_io_rel R (putUSP u)"
    and io_putSSP [io]: "state_io_rel R (putSSP s)"
    and any_stop [io]: "state_io_rel R (modify (\<lambda>c. c\<lparr>stopped := True\<rparr>))"
    and any_busReset [io]: "state_io_rel R busReset"
begin

lemma any_exception: "state_io_rel R (exception v)"
  unfolding exception_def Let_def by (intro io; simp)

lemma any_setSR: "state_io_rel R (setSR sr)"
  unfolding setSR_def Let_def by (intro io; simp)

end

sublocale cpu_frame_any \<subseteq> cpu_frame_sys
  by unfold_locales (fact any_exception any_setSR any_putUSP any_stop any_busReset)+

end
