(* ===== verification/M68k_Ops.thy ===== *)
theory M68k_Ops
  imports M68k_Frame
begin

text \<open>
  What the instruction theories share. \<open>sizeEncoding\<close> is the function of \<open>ops_arith.go\<close>. The
  other definitions name code fragments that the handlers of the source repeat word for word:
  fetching an immediate operand, replacing the low part of a data register, reading the
  extend flag as a number, restoring the zero flag after a multi-precision operation, and
  setting the zero flag from a tested bit.

  A function \<open>registerX\<close> of the source is a sequence of stores \<open>opcodeTable[k] = h\<close> made by
  nested loops; its model is the list of these pairs in loop order.
\<close>

definition sizeEncoding :: "u16 \<Rightarrow> msize" where
  "sizeEncoding b = (if b = 0 then sizeByte else if b = 1 then sizeWord
     else if b = 2 then sizeLong else sizeZero)"

definition fetchImm :: "msize \<Rightarrow> ('b, u32) cpuM" where
  "fetchImm sz = (if sz = sizeLong then fetchPCLong
     else do { v \<leftarrow> fetchPC; return (ucast v AND Mask sz) })"

definition storeD :: "nat \<Rightarrow> msize \<Rightarrow> u32 \<Rightarrow> ('b, unit) cpuM" where
  "storeD i sz result = do {
     let mask = Mask sz;
     v \<leftarrow> getD i;
     putD i ((v AND NOT mask) OR (result AND mask)) }"

definition extendFlag :: "('b, u32) cpuM" where
  "extendFlag = do { sr \<leftarrow> getSR; return (if sr AND flagX \<noteq> 0 then 1 else 0) }"

definition keepZ :: "u16 \<Rightarrow> u32 \<Rightarrow> msize \<Rightarrow> ('b, unit) cpuM" where
  "keepZ oldZ result sz = whenM (result AND Mask sz = 0)
     (do { sr \<leftarrow> getSR; putSR ((sr AND NOT flagZ) OR oldZ) })"

definition setZ :: "bool \<Rightarrow> ('b, unit) cpuM" where
  "setZ z = (if z then srSet flagZ else srClr flagZ)"

definition range16 :: "nat \<Rightarrow> nat \<Rightarrow> u16 list" where
  "range16 a b = map of_nat [a..<b]"

type_synonym 'b stores = "(u16 \<times> 'b opFunc) list"

text \<open>Fields of an alterable operand, as most instructions with one operand register them.\<close>

definition altEA :: "u16 \<Rightarrow> u16 \<Rightarrow> bool" where
  "altEA mode rg \<longleftrightarrow> rg < 8 \<and> (mode = 0 \<or> memEA mode rg)"

text \<open>
  \<open>handles R xs\<close>: a handler stored in \<open>xs\<close> that runs with its own opcode in the instruction
  register respects \<open>R\<close>.
\<close>

definition handles :: "('b CPU \<Rightarrow> 'b CPU \<Rightarrow> bool) \<Rightarrow> 'b stores \<Rightarrow> bool" where
  "handles R xs \<longleftrightarrow> (\<forall>(op, h) \<in> set xs. \<forall>c. ir c = op \<longrightarrow> R c (snd (run_state h c)))"

lemma handlesI: "(\<And>op h. (op, h) \<in> set xs \<Longrightarrow> state_io_rel R h) \<Longrightarrow> handles R xs"
  unfolding handles_def state_io_rel_def by blast

lemma handlesD: "handles R xs \<Longrightarrow> (op, h) \<in> set xs \<Longrightarrow> ir c = op \<Longrightarrow> R c (snd (run_state h c))"
  unfolding handles_def by blast

lemma io_at_ir: "ir c = op \<Longrightarrow> state_io_rel R (f op) \<Longrightarrow> R c (snd (run_state (gets ir \<bind> f) c))"
  by (simp add: state_io_rel_def)

lemma handles_weaken: "handles R xs \<Longrightarrow> R \<le> R' \<Longrightarrow> handles R' xs"
  unfolding handles_def by blast

lemma handles_append [simp]: "handles R (xs @ ys) \<longleftrightarrow> handles R xs \<and> handles R ys"
  unfolding handles_def by auto

lemma set_range16 [simp]:
  assumes "a < 65536" and "b < 65536"
  shows "x \<in> set (range16 a b) \<longleftrightarrow> of_nat a \<le> x \<and> x < of_nat b"
proof -
  have "x \<in> set (range16 a b) \<longleftrightarrow> (\<exists>n. a \<le> n \<and> n < b \<and> x = of_nat n)"
    by (auto simp: range16_def)
  also have "\<dots> \<longleftrightarrow> a \<le> unat x \<and> unat x < b"
  proof
    assume "\<exists>n. a \<le> n \<and> n < b \<and> x = of_nat n"
    then obtain n where "a \<le> n" "n < b" "x = of_nat n" by blast
    then show "a \<le> unat x \<and> unat x < b"
      using assms by (simp add: unat_of_nat take_bit_eq_mod)
  next
    assume "a \<le> unat x \<and> unat x < b"
    then show "\<exists>n. a \<le> n \<and> n < b \<and> x = of_nat n"
      by (auto intro!: exI [of _ "unat x"])
  qed
  also have "\<dots> \<longleftrightarrow> of_nat a \<le> x \<and> x < of_nat b"
    using assms by (simp add: word_le_nat_alt word_less_nat_alt unat_of_nat take_bit_eq_mod)
  finally show ?thesis .
qed

lemma unat_ucast_and_7 [simp]: "unat (ucast ((x :: u16) AND 7) :: u8) = unat x mod 8"
proof -
  have "unat (ucast (x AND 7) :: u8) = take_bit 8 (unat (x AND 7))"
    by (simp only: unsigned_ucast_eq) simp
  also have "\<dots> = unat (x AND 7)"
    by (rule take_bit_nat_eq_self) (simp add: less_trans [of _ 8])
  finally show ?thesis by simp
qed

lemma ucast_and_7_less [simp]: "(ucast ((x :: u16) AND 7) :: u8) < 8"
  by (simp add: word_less_nat_alt)

lemma memEA_I:
  assumes "2 \<le> mode" "mode < 8" "rg < 8" "\<not> (mode = 7 \<and> rg > 1) \<or> \<not> (mode = 7 \<and> rg > 3)"
  shows "memEA mode rg"
proof -
  have "\<not> (mode = 7 \<and> rg > 3)"
    using assms(4) by (auto simp: word_less_nat_alt)
  with assms(1-3) show ?thesis by (simp add: memEA_def)
qed

lemma altEA_I:
  assumes "mode < 8" "mode \<noteq> 1" "rg < 8" "\<not> (mode = 7 \<and> rg > 1)"
  shows "altEA mode rg"
proof (cases "mode = 0")
  case False
  with assms(1,2) have "2 \<le> mode"
    using less_8_cases [of mode] by (auto simp: word_le_nat_alt)
  with assms show ?thesis by (simp add: altEA_def memEA_I)
qed (use assms in \<open>simp add: altEA_def\<close>)

lemma altEA_memEA: "altEA mode rg \<Longrightarrow> mode \<noteq> 0 \<Longrightarrow> memEA mode rg"
  by (simp add: altEA_def)

lemma altEA_reg: "altEA mode rg \<Longrightarrow> rg < 8"
  by (simp add: altEA_def)

lemma srcEA_I:
  assumes "mode < 8" "rg < 8"
    and "\<not> (mode = 7 \<and> rg > 1) \<or> \<not> (mode = 7 \<and> rg > 3) \<or> \<not> (mode = 7 \<and> rg > 4)"
  shows "srcEA mode rg"
proof -
  have "\<not> (mode = 7 \<and> rg > 4)"
    using assms(3) by (auto simp: word_less_nat_alt)
  with assms(1,2) show ?thesis by (simp add: srcEA_def)
qed

lemma srcEA_reg: "srcEA mode rg \<Longrightarrow> rg < 8"
  by (simp add: srcEA_def)

lemma memEA_reg: "memEA mode rg \<Longrightarrow> rg < 8"
  by (simp add: memEA_def)

lemmas fields = unat_less_8 altEA_memEA altEA_reg srcEA_reg memEA_reg
lemmas rangeIs = memEA_I altEA_I srcEA_I

context cpu_frame
begin

lemma io_fetchImm [io]: "state_io_rel R (fetchImm sz)"
  unfolding fetchImm_def by (intro io)

lemma io_storeD [io]: "i < 8 \<Longrightarrow> state_io_rel R (storeD i sz v)"
  unfolding storeD_def Let_def by (intro io)

lemma io_extendFlag [io]: "state_io_rel R extendFlag"
  unfolding extendFlag_def by (intro io)

lemma io_keepZ [io]: "state_io_rel R (keepZ (sr AND flagZ) r sz)"
  unfolding keepZ_def by (intro io_whenM io_update_ccr ccr_step_keepZ)

lemma io_setZ [io]: "state_io_rel R (setZ z)"
  unfolding setZ_def by (intro io; simp)

end

text \<open>The extend flag as a number.\<close>

definition extendIn :: "'b CPU \<Rightarrow> int" where
  "extendIn c = (if regSR (reg c) AND flagX \<noteq> 0 then 1 else 0)"

lemma extendFlag_run: "run_state extendFlag c = (word_of_int (extendIn c), c)"
  by (simp add: extendFlag_def extendIn_def)

lemma extendIn_cases: "extendIn c = 0 \<or> extendIn c = 1"
  by (simp add: extendIn_def)

end
