(* ===== verification/Ops_Arith.thy ===== *)
theory Ops_Arith
  imports M68k_Ops "HOL-Library.Signed_Division"
begin

text \<open>
  The arithmetic instructions of \<open>ops_arith.go\<close>: ADD, ADDA, ADDI, ADDQ, ADDX, SUB, SUBA, SUBI,
  SUBQ, SUBX, CMP, CMPA, CMPI, CMPM, MULU, MULS, DIVU, DIVS, NEG, NEGX, CLR, EXT and CHK. Each
  \<open>makeX\<close> is the handler the function of that name returns, each \<open>registerX\<close> the stores the
  function of that name makes into the opcode table.
\<close>

subsection \<open>ADD\<close>

definition makeADDtoReg :: "u16 \<Rightarrow> u16 \<Rightarrow> u16 \<Rightarrow> 'b opFunc" where
  "makeADDtoReg dn mode rg =
    (let read = makeEARead mode rg;
         (eaBase, eaLong) = eaFetchConst mode rg;
         isMem = (mode \<ge> 2 \<and> \<not> (mode = 7 \<and> rg = 4))
     in do {
       i \<leftarrow> gets ir;
       let sz = sizeEncoding (drop_bit 6 i AND 3);
       s \<leftarrow> read sz;
       dv \<leftarrow> getD (unat dn);
       let d = dv AND Mask sz;
       let result = s + d;
       setFlagsAdd s d result sz;
       storeD (unat dn) sz result;
       (if sz \<noteq> sizeLong then addCycles (4 + eaBase)
        else if isMem then addCycles (6 + eaBase + eaLong)
        else addCycles (8 + eaBase + eaLong)) })"

definition makeADDtoEA :: "u16 \<Rightarrow> u16 \<Rightarrow> u16 \<Rightarrow> 'b opFunc" where
  "makeADDtoEA dn mode rg =
    (let addr = makeEAMemAddr mode rg;
         (eaBase, eaLong) = eaFetchConst mode rg
     in do {
       i \<leftarrow> gets ir;
       let sz = sizeEncoding ((drop_bit 6 i AND 7) - 4);
       a \<leftarrow> addr sz;
       d \<leftarrow> readBus sz a;
       dv \<leftarrow> getD (unat dn);
       let s = dv AND Mask sz;
       let result = s + d;
       setFlagsAdd s d result sz;
       writeBus sz a result;
       (if sz = sizeLong then addCycles (12 + eaBase + eaLong) else addCycles (8 + eaBase)) })"

definition registerADD :: "'b stores" where
  "registerADD = concat
     [[(0xD000 OR push_bit 9 dn OR push_bit 6 szBits OR push_bit 3 mode OR rg,
        makeADDtoReg dn mode rg).
         mode \<leftarrow> range16 0 8, rg \<leftarrow> range16 0 8,
         \<not> (mode = 7 \<and> rg > 4), \<not> (mode = 1 \<and> szBits = 0)] @
      [(0xD000 OR push_bit 9 dn OR push_bit 6 (szBits + 4) OR push_bit 3 mode OR rg,
        makeADDtoEA dn mode rg).
         mode \<leftarrow> range16 2 8, rg \<leftarrow> range16 0 8, \<not> (mode = 7 \<and> rg > 1)].
      dn \<leftarrow> range16 0 8, szBits \<leftarrow> range16 0 3]"

subsection \<open>ADDA\<close>

definition makeADDA :: "u16 \<Rightarrow> u16 \<Rightarrow> u16 \<Rightarrow> 'b opFunc" where
  "makeADDA an mode rg =
    (let read = makeEARead mode rg;
         (eaBase, eaLong) = eaFetchConst mode rg;
         isMem = (mode \<ge> 2 \<and> \<not> (mode = 7 \<and> rg = 4))
     in do {
       i \<leftarrow> gets ir;
       let sz = (if drop_bit 6 i AND 7 = 7 then sizeLong else sizeWord);
       val \<leftarrow> read sz;
       let val = (if sz = sizeWord then scast (ucast val :: u16) else val);
       av \<leftarrow> getA (unat an);
       putA (unat an) (av + val);
       (if sz = sizeLong \<and> isMem then addCycles (6 + eaBase + eaLong)
        else do {
          addCycles (8 + eaBase);
          whenM (sz = sizeLong) (addCycles eaLong) }) })"

definition registerADDA :: "'b stores" where
  "registerADDA =
     [(0xD000 OR push_bit 9 an OR push_bit 6 szBit OR push_bit 3 mode OR rg, makeADDA an mode rg).
        an \<leftarrow> range16 0 8, szBit \<leftarrow> [3, 7], mode \<leftarrow> range16 0 8, rg \<leftarrow> range16 0 8,
        \<not> (mode = 7 \<and> rg > 4)]"

subsection \<open>ADDI\<close>

definition makeADDI :: "u16 \<Rightarrow> u16 \<Rightarrow> 'b opFunc" where
  "makeADDI mode rg =
    (if mode = 0 then do {
       i \<leftarrow> gets ir;
       let sz = sizeEncoding (drop_bit 6 i AND 3);
       imm \<leftarrow> fetchImm sz;
       dv \<leftarrow> getD (unat rg);
       let d = dv AND Mask sz;
       let result = imm + d;
       setFlagsAdd imm d result sz;
       storeD (unat rg) sz result;
       (if sz = sizeLong then addCycles 16 else addCycles 8) }
     else
       (let addr = makeEAMemAddr mode rg;
            (eaBase, eaLong) = eaFetchConst mode rg
        in do {
          i \<leftarrow> gets ir;
          let sz = sizeEncoding (drop_bit 6 i AND 3);
          imm \<leftarrow> fetchImm sz;
          a \<leftarrow> addr sz;
          d \<leftarrow> readBus sz a;
          let result = imm + d;
          setFlagsAdd imm d result sz;
          writeBus sz a result;
          (if sz = sizeLong then addCycles (20 + eaBase + eaLong) else addCycles (12 + eaBase)) }))"

definition registerADDI :: "'b stores" where
  "registerADDI =
     [(0x0600 OR push_bit 6 szBits OR push_bit 3 mode OR rg, makeADDI mode rg).
        szBits \<leftarrow> range16 0 3, mode \<leftarrow> range16 0 8, mode \<noteq> 1, rg \<leftarrow> range16 0 8,
        \<not> (mode = 7 \<and> rg > 1)]"

subsection \<open>ADDQ\<close>

definition makeADDQ :: "u16 \<Rightarrow> u16 \<Rightarrow> u16 \<Rightarrow> 'b opFunc" where
  "makeADDQ dat mode rg =
    (let imm = (if (ucast dat :: u32) = 0 then 8 else ucast dat)
     in if mode = 0 then do {
       i \<leftarrow> gets ir;
       let sz = sizeEncoding (drop_bit 6 i AND 3);
       dv \<leftarrow> getD (unat rg);
       let d = dv AND Mask sz;
       let result = imm + d;
       setFlagsAdd imm d result sz;
       storeD (unat rg) sz result;
       (if sz = sizeLong then addCycles 8 else addCycles 4) }
     else if mode = 1 then do {
       av \<leftarrow> getA (unat rg);
       putA (unat rg) (av + imm);
       addCycles 8 }
     else
       (let addr = makeEAMemAddr mode rg;
            (eaBase, eaLong) = eaFetchConst mode rg
        in do {
          i \<leftarrow> gets ir;
          let sz = sizeEncoding (drop_bit 6 i AND 3);
          a \<leftarrow> addr sz;
          d \<leftarrow> readBus sz a;
          let result = imm + d;
          setFlagsAdd imm d result sz;
          writeBus sz a result;
          (if sz = sizeLong then addCycles (12 + eaBase + eaLong) else addCycles (8 + eaBase)) }))"

definition registerADDQ :: "'b stores" where
  "registerADDQ =
     [(0x5000 OR push_bit 9 dat OR push_bit 6 szBits OR push_bit 3 mode OR rg, makeADDQ dat mode rg).
        dat \<leftarrow> range16 0 8, szBits \<leftarrow> range16 0 3, mode \<leftarrow> range16 0 8, rg \<leftarrow> range16 0 8,
        \<not> (mode = 7 \<and> rg > 1), \<not> (mode = 1 \<and> szBits = 0)]"

subsection \<open>ADDX\<close>

definition opADDXreg :: "'b opFunc" where
  "opADDXreg = do {
     i \<leftarrow> gets ir;
     let rx = drop_bit 9 i AND 7;
     let sz = sizeEncoding (drop_bit 6 i AND 3);
     let ry = i AND 7;
     sv \<leftarrow> getD (unat ry);
     let s = sv AND Mask sz;
     dv \<leftarrow> getD (unat rx);
     let d = dv AND Mask sz;
     x \<leftarrow> extendFlag;
     let result = d + s + x;
     sr \<leftarrow> getSR;
     let oldZ = sr AND flagZ;
     setFlagsAdd s d result sz;
     keepZ oldZ result sz;
     storeD (unat rx) sz result;
     addCycles 4;
     whenM (sz = sizeLong) (addCycles 4) }"

definition opADDXmem :: "'b opFunc" where
  "opADDXmem = do {
     i \<leftarrow> gets ir;
     let rx = drop_bit 9 i AND 7;
     let sz = sizeEncoding (drop_bit 6 i AND 3);
     let ry = i AND 7;
     src \<leftarrow> resolveEA 4 (ucast ry) sz;
     s \<leftarrow> ea_read src sz;
     dst \<leftarrow> resolveEA 4 (ucast rx) sz;
     d \<leftarrow> ea_read dst sz;
     x \<leftarrow> extendFlag;
     let result = d + s + x;
     sr \<leftarrow> getSR;
     let oldZ = sr AND flagZ;
     setFlagsAdd s d result sz;
     keepZ oldZ result sz;
     ea_write dst sz result;
     (if sz = sizeLong then addCycles 30 else addCycles 18) }"

definition registerADDX :: "'b stores" where
  "registerADDX = concat
     [[(0xD100 OR push_bit 9 rx OR push_bit 6 szBits OR ry, opADDXreg),
       (0xD108 OR push_bit 9 rx OR push_bit 6 szBits OR ry, opADDXmem)].
      rx \<leftarrow> range16 0 8, ry \<leftarrow> range16 0 8, szBits \<leftarrow> range16 0 3]"

subsection \<open>SUB\<close>

definition makeSUBtoReg :: "u16 \<Rightarrow> u16 \<Rightarrow> u16 \<Rightarrow> 'b opFunc" where
  "makeSUBtoReg dn mode rg =
    (let read = makeEARead mode rg;
         (eaBase, eaLong) = eaFetchConst mode rg;
         isMem = (mode \<ge> 2 \<and> \<not> (mode = 7 \<and> rg = 4))
     in do {
       i \<leftarrow> gets ir;
       let sz = sizeEncoding (drop_bit 6 i AND 3);
       s \<leftarrow> read sz;
       dv \<leftarrow> getD (unat dn);
       let d = dv AND Mask sz;
       let result = d - s;
       setFlagsSub s d result sz;
       storeD (unat dn) sz result;
       (if sz \<noteq> sizeLong then addCycles (4 + eaBase)
        else if isMem then addCycles (6 + eaBase + eaLong)
        else addCycles (8 + eaBase + eaLong)) })"

definition makeSUBtoEA :: "u16 \<Rightarrow> u16 \<Rightarrow> u16 \<Rightarrow> 'b opFunc" where
  "makeSUBtoEA dn mode rg =
    (let addr = makeEAMemAddr mode rg;
         (eaBase, eaLong) = eaFetchConst mode rg
     in do {
       i \<leftarrow> gets ir;
       let sz = sizeEncoding ((drop_bit 6 i AND 7) - 4);
       a \<leftarrow> addr sz;
       d \<leftarrow> readBus sz a;
       dv \<leftarrow> getD (unat dn);
       let s = dv AND Mask sz;
       let result = d - s;
       setFlagsSub s d result sz;
       writeBus sz a result;
       (if sz = sizeLong then addCycles (12 + eaBase + eaLong) else addCycles (8 + eaBase)) })"

definition registerSUB :: "'b stores" where
  "registerSUB = concat
     [[(0x9000 OR push_bit 9 dn OR push_bit 6 szBits OR push_bit 3 mode OR rg,
        makeSUBtoReg dn mode rg).
         mode \<leftarrow> range16 0 8, rg \<leftarrow> range16 0 8,
         \<not> (mode = 7 \<and> rg > 4), \<not> (mode = 1 \<and> szBits = 0)] @
      [(0x9000 OR push_bit 9 dn OR push_bit 6 (szBits + 4) OR push_bit 3 mode OR rg,
        makeSUBtoEA dn mode rg).
         mode \<leftarrow> range16 2 8, rg \<leftarrow> range16 0 8, \<not> (mode = 7 \<and> rg > 1)].
      dn \<leftarrow> range16 0 8, szBits \<leftarrow> range16 0 3]"

subsection \<open>SUBA\<close>

definition makeSUBA :: "u16 \<Rightarrow> u16 \<Rightarrow> u16 \<Rightarrow> 'b opFunc" where
  "makeSUBA an mode rg =
    (let read = makeEARead mode rg;
         (eaBase, eaLong) = eaFetchConst mode rg;
         isMem = (mode \<ge> 2 \<and> \<not> (mode = 7 \<and> rg = 4))
     in do {
       i \<leftarrow> gets ir;
       let sz = (if drop_bit 6 i AND 7 = 7 then sizeLong else sizeWord);
       val \<leftarrow> read sz;
       let val = (if sz = sizeWord then scast (ucast val :: u16) else val);
       av \<leftarrow> getA (unat an);
       putA (unat an) (av - val);
       (if sz = sizeLong \<and> isMem then addCycles (6 + eaBase + eaLong)
        else do {
          addCycles (8 + eaBase);
          whenM (sz = sizeLong) (addCycles eaLong) }) })"

definition registerSUBA :: "'b stores" where
  "registerSUBA =
     [(0x9000 OR push_bit 9 an OR push_bit 6 szBit OR push_bit 3 mode OR rg, makeSUBA an mode rg).
        an \<leftarrow> range16 0 8, szBit \<leftarrow> [3, 7], mode \<leftarrow> range16 0 8, rg \<leftarrow> range16 0 8,
        \<not> (mode = 7 \<and> rg > 4)]"

subsection \<open>SUBI\<close>

definition makeSUBI :: "u16 \<Rightarrow> u16 \<Rightarrow> 'b opFunc" where
  "makeSUBI mode rg =
    (if mode = 0 then do {
       i \<leftarrow> gets ir;
       let sz = sizeEncoding (drop_bit 6 i AND 3);
       imm \<leftarrow> fetchImm sz;
       dv \<leftarrow> getD (unat rg);
       let d = dv AND Mask sz;
       let result = d - imm;
       setFlagsSub imm d result sz;
       storeD (unat rg) sz result;
       (if sz = sizeLong then addCycles 16 else addCycles 8) }
     else
       (let addr = makeEAMemAddr mode rg;
            (eaBase, eaLong) = eaFetchConst mode rg
        in do {
          i \<leftarrow> gets ir;
          let sz = sizeEncoding (drop_bit 6 i AND 3);
          imm \<leftarrow> fetchImm sz;
          a \<leftarrow> addr sz;
          d \<leftarrow> readBus sz a;
          let result = d - imm;
          setFlagsSub imm d result sz;
          writeBus sz a result;
          (if sz = sizeLong then addCycles (20 + eaBase + eaLong) else addCycles (12 + eaBase)) }))"

definition registerSUBI :: "'b stores" where
  "registerSUBI =
     [(0x0400 OR push_bit 6 szBits OR push_bit 3 mode OR rg, makeSUBI mode rg).
        szBits \<leftarrow> range16 0 3, mode \<leftarrow> range16 0 8, mode \<noteq> 1, rg \<leftarrow> range16 0 8,
        \<not> (mode = 7 \<and> rg > 1)]"

subsection \<open>SUBQ\<close>

definition makeSUBQ :: "u16 \<Rightarrow> u16 \<Rightarrow> u16 \<Rightarrow> 'b opFunc" where
  "makeSUBQ dat mode rg =
    (let imm = (if (ucast dat :: u32) = 0 then 8 else ucast dat)
     in if mode = 0 then do {
       i \<leftarrow> gets ir;
       let sz = sizeEncoding (drop_bit 6 i AND 3);
       dv \<leftarrow> getD (unat rg);
       let d = dv AND Mask sz;
       let result = d - imm;
       setFlagsSub imm d result sz;
       storeD (unat rg) sz result;
       (if sz = sizeLong then addCycles 8 else addCycles 4) }
     else if mode = 1 then do {
       av \<leftarrow> getA (unat rg);
       putA (unat rg) (av - imm);
       addCycles 8 }
     else
       (let addr = makeEAMemAddr mode rg;
            (eaBase, eaLong) = eaFetchConst mode rg
        in do {
          i \<leftarrow> gets ir;
          let sz = sizeEncoding (drop_bit 6 i AND 3);
          a \<leftarrow> addr sz;
          d \<leftarrow> readBus sz a;
          let result = d - imm;
          setFlagsSub imm d result sz;
          writeBus sz a result;
          (if sz = sizeLong then addCycles (12 + eaBase + eaLong) else addCycles (8 + eaBase)) }))"

definition registerSUBQ :: "'b stores" where
  "registerSUBQ =
     [(0x5100 OR push_bit 9 dat OR push_bit 6 szBits OR push_bit 3 mode OR rg, makeSUBQ dat mode rg).
        dat \<leftarrow> range16 0 8, szBits \<leftarrow> range16 0 3, mode \<leftarrow> range16 0 8, rg \<leftarrow> range16 0 8,
        \<not> (mode = 7 \<and> rg > 1), \<not> (mode = 1 \<and> szBits = 0)]"

subsection \<open>SUBX\<close>

definition opSUBXreg :: "'b opFunc" where
  "opSUBXreg = do {
     i \<leftarrow> gets ir;
     let rx = drop_bit 9 i AND 7;
     let sz = sizeEncoding (drop_bit 6 i AND 3);
     let ry = i AND 7;
     sv \<leftarrow> getD (unat ry);
     let s = sv AND Mask sz;
     dv \<leftarrow> getD (unat rx);
     let d = dv AND Mask sz;
     x \<leftarrow> extendFlag;
     let result = d - s - x;
     sr \<leftarrow> getSR;
     let oldZ = sr AND flagZ;
     setFlagsSub s d result sz;
     keepZ oldZ result sz;
     storeD (unat rx) sz result;
     addCycles 4;
     whenM (sz = sizeLong) (addCycles 4) }"

definition opSUBXmem :: "'b opFunc" where
  "opSUBXmem = do {
     i \<leftarrow> gets ir;
     let rx = drop_bit 9 i AND 7;
     let sz = sizeEncoding (drop_bit 6 i AND 3);
     let ry = i AND 7;
     src \<leftarrow> resolveEA 4 (ucast ry) sz;
     s \<leftarrow> ea_read src sz;
     dst \<leftarrow> resolveEA 4 (ucast rx) sz;
     d \<leftarrow> ea_read dst sz;
     x \<leftarrow> extendFlag;
     let result = d - s - x;
     sr \<leftarrow> getSR;
     let oldZ = sr AND flagZ;
     setFlagsSub s d result sz;
     keepZ oldZ result sz;
     ea_write dst sz result;
     (if sz = sizeLong then addCycles 30 else addCycles 18) }"

definition registerSUBX :: "'b stores" where
  "registerSUBX = concat
     [[(0x9100 OR push_bit 9 rx OR push_bit 6 szBits OR ry, opSUBXreg),
       (0x9108 OR push_bit 9 rx OR push_bit 6 szBits OR ry, opSUBXmem)].
      rx \<leftarrow> range16 0 8, ry \<leftarrow> range16 0 8, szBits \<leftarrow> range16 0 3]"

subsection \<open>CMP, CMPA, CMPI and CMPM\<close>

definition makeCMP :: "u16 \<Rightarrow> u16 \<Rightarrow> u16 \<Rightarrow> 'b opFunc" where
  "makeCMP dn mode rg =
    (let read = makeEARead mode rg;
         (eaBase, eaLong) = eaFetchConst mode rg
     in do {
       i \<leftarrow> gets ir;
       let sz = sizeEncoding (drop_bit 6 i AND 3);
       s \<leftarrow> read sz;
       dv \<leftarrow> getD (unat dn);
       let d = dv AND Mask sz;
       let result = d - s;
       setFlagsCmp s d result sz;
       (if sz = sizeLong then addCycles (6 + eaBase + eaLong) else addCycles (4 + eaBase)) })"

definition registerCMP :: "'b stores" where
  "registerCMP =
     [(0xB000 OR push_bit 9 dn OR push_bit 6 szBits OR push_bit 3 mode OR rg, makeCMP dn mode rg).
        dn \<leftarrow> range16 0 8, szBits \<leftarrow> range16 0 3, mode \<leftarrow> range16 0 8, rg \<leftarrow> range16 0 8,
        \<not> (mode = 7 \<and> rg > 4), \<not> (mode = 1 \<and> szBits = 0)]"

definition makeCMPA :: "u16 \<Rightarrow> u16 \<Rightarrow> u16 \<Rightarrow> 'b opFunc" where
  "makeCMPA an mode rg =
    (let read = makeEARead mode rg;
         (eaBase, eaLong) = eaFetchConst mode rg
     in do {
       i \<leftarrow> gets ir;
       let sz = (if drop_bit 6 i AND 7 = 7 then sizeLong else sizeWord);
       val \<leftarrow> read sz;
       let val = (if sz = sizeWord then scast (ucast val :: u16) else val);
       d \<leftarrow> getA (unat an);
       let result = d - val;
       setFlagsCmp val d result sizeLong;
       addCycles (6 + eaBase);
       whenM (sz = sizeLong) (addCycles eaLong) })"

definition registerCMPA :: "'b stores" where
  "registerCMPA =
     [(0xB000 OR push_bit 9 an OR push_bit 6 szBit OR push_bit 3 mode OR rg, makeCMPA an mode rg).
        an \<leftarrow> range16 0 8, szBit \<leftarrow> [3, 7], mode \<leftarrow> range16 0 8, rg \<leftarrow> range16 0 8,
        \<not> (mode = 7 \<and> rg > 4)]"

definition makeCMPI :: "u16 \<Rightarrow> u16 \<Rightarrow> 'b opFunc" where
  "makeCMPI mode rg =
    (if mode = 0 then do {
       i \<leftarrow> gets ir;
       let sz = sizeEncoding (drop_bit 6 i AND 3);
       imm \<leftarrow> fetchImm sz;
       dv \<leftarrow> getD (unat rg);
       let d = dv AND Mask sz;
       let result = d - imm;
       setFlagsCmp imm d result sz;
       (if sz = sizeLong then addCycles 14 else addCycles 8) }
     else
       (let addr = makeEAMemAddr mode rg;
            (eaBase, eaLong) = eaFetchConst mode rg
        in do {
          i \<leftarrow> gets ir;
          let sz = sizeEncoding (drop_bit 6 i AND 3);
          imm \<leftarrow> fetchImm sz;
          a \<leftarrow> addr sz;
          d \<leftarrow> readBus sz a;
          let result = d - imm;
          setFlagsCmp imm d result sz;
          (if sz = sizeLong then addCycles (12 + eaBase + eaLong) else addCycles (8 + eaBase)) }))"

definition registerCMPI :: "'b stores" where
  "registerCMPI =
     [(0x0C00 OR push_bit 6 szBits OR push_bit 3 mode OR rg, makeCMPI mode rg).
        szBits \<leftarrow> range16 0 3, mode \<leftarrow> range16 0 8, mode \<noteq> 1, rg \<leftarrow> range16 0 8,
        \<not> (mode = 7 \<and> rg > 1)]"

definition opCMPM :: "'b opFunc" where
  "opCMPM = do {
     i \<leftarrow> gets ir;
     let sz = sizeEncoding (drop_bit 6 i AND 3);
     let ay = i AND 7;
     let ax = drop_bit 9 i AND 7;
     src \<leftarrow> resolveEA 3 (ucast ay) sz;
     s \<leftarrow> ea_read src sz;
     dst \<leftarrow> resolveEA 3 (ucast ax) sz;
     d \<leftarrow> ea_read dst sz;
     let result = d - s;
     setFlagsCmp s d result sz;
     (if sz = sizeLong then addCycles 20 else addCycles 12) }"

definition registerCMPM :: "'b stores" where
  "registerCMPM =
     [(0xB108 OR push_bit 9 ax OR push_bit 6 szBits OR ay, opCMPM).
        ax \<leftarrow> range16 0 8, ay \<leftarrow> range16 0 8, szBits \<leftarrow> range16 0 3]"

subsection \<open>MULU, MULS, DIVU and DIVS\<close>

definition makeMULU :: "u16 \<Rightarrow> u16 \<Rightarrow> u16 \<Rightarrow> 'b opFunc" where
  "makeMULU dn mode rg =
    (let read = makeEARead mode rg;
         (eaBase, eaLong) = eaFetchConst mode rg
     in do {
       s \<leftarrow> read sizeWord;
       dv \<leftarrow> getD (unat dn);
       let d = dv AND 0xFFFF;
       let result = s * d;
       putD (unat dn) result;
       setFlagsLogical result sizeLong;
       addCycles (70 + eaBase);
       whenM (sizeWord = sizeLong) (addCycles eaLong) })"

definition registerMULU :: "'b stores" where
  "registerMULU =
     [(0xC0C0 OR push_bit 9 dn OR push_bit 3 mode OR rg, makeMULU dn mode rg).
        dn \<leftarrow> range16 0 8, mode \<leftarrow> range16 0 8, mode \<noteq> 1, rg \<leftarrow> range16 0 8,
        \<not> (mode = 7 \<and> rg > 4)]"

definition makeMULS :: "u16 \<Rightarrow> u16 \<Rightarrow> u16 \<Rightarrow> 'b opFunc" where
  "makeMULS dn mode rg =
    (let read = makeEARead mode rg;
         (eaBase, eaLong) = eaFetchConst mode rg
     in do {
       sv \<leftarrow> read sizeWord;
       let s = (scast (ucast sv :: u16) :: u32);
       dv \<leftarrow> getD (unat dn);
       let d = (scast (ucast (dv AND 0xFFFF) :: u16) :: u32);
       let result = s * d;
       putD (unat dn) result;
       setFlagsLogical result sizeLong;
       addCycles (70 + eaBase);
       whenM (sizeWord = sizeLong) (addCycles eaLong) })"

definition registerMULS :: "'b stores" where
  "registerMULS =
     [(0xC1C0 OR push_bit 9 dn OR push_bit 3 mode OR rg, makeMULS dn mode rg).
        dn \<leftarrow> range16 0 8, mode \<leftarrow> range16 0 8, mode \<noteq> 1, rg \<leftarrow> range16 0 8,
        \<not> (mode = 7 \<and> rg > 4)]"

definition makeDIVU :: "u16 \<Rightarrow> u16 \<Rightarrow> u16 \<Rightarrow> 'b opFunc" where
  "makeDIVU dn mode rg =
    (let read = makeEARead mode rg;
         (eaBase, eaLong) = eaFetchConst mode rg
     in do {
       divisor \<leftarrow> read sizeWord;
       if divisor = 0 then exception vecDivideByZero
       else do {
         dividend \<leftarrow> getD (unat dn);
         quotient \<leftarrow> goDivide divisor (dividend div divisor);
         remainder \<leftarrow> goDivide divisor (dividend mod divisor);
         (if quotient > 0xFFFF then do {
            srSet (flagV OR flagN);
            srClr (flagC OR flagZ) }
          else do {
            putD (unat dn) (push_bit 16 (remainder AND 0xFFFF) OR (quotient AND 0xFFFF));
            setFlagsLogical quotient sizeWord });
         addCycles (140 + eaBase);
         whenM (sizeWord = sizeLong) (addCycles eaLong) } })"

definition registerDIVU :: "'b stores" where
  "registerDIVU =
     [(0x80C0 OR push_bit 9 dn OR push_bit 3 mode OR rg, makeDIVU dn mode rg).
        dn \<leftarrow> range16 0 8, mode \<leftarrow> range16 0 8, mode \<noteq> 1, rg \<leftarrow> range16 0 8,
        \<not> (mode = 7 \<and> rg > 4)]"

text \<open>
  Go's \<open>int32\<close> division truncates towards zero, and the one quotient that does not fit wraps
  around: the library's \<open>sdiv\<close> and \<open>smod\<close> on the signed readings, taken back to 32 bits. A zero divisor
  panics; \<open>goDivide\<close> makes that visible.
\<close>

definition int32_quot :: "u32 \<Rightarrow> u32 \<Rightarrow> u32" where
  "int32_quot a b = word_of_int (sint a sdiv sint b)"

definition int32_rem :: "u32 \<Rightarrow> u32 \<Rightarrow> u32" where
  "int32_rem a b = word_of_int (sint a smod sint b)"

definition makeDIVS :: "u16 \<Rightarrow> u16 \<Rightarrow> u16 \<Rightarrow> 'b opFunc" where
  "makeDIVS dn mode rg =
    (let read = makeEARead mode rg;
         (eaBase, eaLong) = eaFetchConst mode rg
     in do {
       sv \<leftarrow> read sizeWord;
       let divisor = (scast (ucast sv :: u16) :: u32);
       if divisor = 0 then exception vecDivideByZero
       else do {
         dividend \<leftarrow> getD (unat dn);
         quotient \<leftarrow> goDivide divisor (int32_quot dividend divisor);
         remainder \<leftarrow> goDivide divisor (int32_rem dividend divisor);
         (if sint quotient > 32767 \<or> sint quotient < - 32768 then do {
            srSet (flagV OR flagN);
            srClr (flagC OR flagZ) }
          else do {
            putD (unat dn) (push_bit 16 (remainder AND 0xFFFF) OR (quotient AND 0xFFFF));
            setFlagsLogical quotient sizeWord });
         addCycles (158 + eaBase);
         whenM (sizeWord = sizeLong) (addCycles eaLong) } })"

definition registerDIVS :: "'b stores" where
  "registerDIVS =
     [(0x81C0 OR push_bit 9 dn OR push_bit 3 mode OR rg, makeDIVS dn mode rg).
        dn \<leftarrow> range16 0 8, mode \<leftarrow> range16 0 8, mode \<noteq> 1, rg \<leftarrow> range16 0 8,
        \<not> (mode = 7 \<and> rg > 4)]"

subsection \<open>NEG, NEGX and CLR\<close>

definition makeNEG :: "u16 \<Rightarrow> u16 \<Rightarrow> 'b opFunc" where
  "makeNEG mode rg =
    (if mode = 0 then do {
       i \<leftarrow> gets ir;
       let sz = sizeEncoding (drop_bit 6 i AND 3);
       dv \<leftarrow> getD (unat rg);
       let d = dv AND Mask sz;
       let result = 0 - d;
       setFlagsSub d 0 result sz;
       storeD (unat rg) sz result;
       (if sz = sizeLong then addCycles 6 else addCycles 4) }
     else
       (let addr = makeEAMemAddr mode rg;
            (eaBase, eaLong) = eaFetchConst mode rg
        in do {
          i \<leftarrow> gets ir;
          let sz = sizeEncoding (drop_bit 6 i AND 3);
          a \<leftarrow> addr sz;
          d \<leftarrow> readBus sz a;
          let result = 0 - d;
          setFlagsSub d 0 result sz;
          writeBus sz a result;
          (if sz = sizeLong then addCycles (12 + eaBase + eaLong) else addCycles (8 + eaBase)) }))"

definition registerNEG :: "'b stores" where
  "registerNEG =
     [(0x4400 OR push_bit 6 szBits OR push_bit 3 mode OR rg, makeNEG mode rg).
        szBits \<leftarrow> range16 0 3, mode \<leftarrow> range16 0 8, mode \<noteq> 1, rg \<leftarrow> range16 0 8,
        \<not> (mode = 7 \<and> rg > 1)]"

definition makeNEGX :: "u16 \<Rightarrow> u16 \<Rightarrow> 'b opFunc" where
  "makeNEGX mode rg =
    (if mode = 0 then do {
       i \<leftarrow> gets ir;
       let sz = sizeEncoding (drop_bit 6 i AND 3);
       dv \<leftarrow> getD (unat rg);
       let d = dv AND Mask sz;
       x \<leftarrow> extendFlag;
       let result = 0 - d - x;
       sr \<leftarrow> getSR;
       let oldZ = sr AND flagZ;
       setFlagsSub d 0 result sz;
       keepZ oldZ result sz;
       storeD (unat rg) sz result;
       (if sz = sizeLong then addCycles 6 else addCycles 4) }
     else
       (let addr = makeEAMemAddr mode rg;
            (eaBase, eaLong) = eaFetchConst mode rg
        in do {
          i \<leftarrow> gets ir;
          let sz = sizeEncoding (drop_bit 6 i AND 3);
          a \<leftarrow> addr sz;
          d \<leftarrow> readBus sz a;
          x \<leftarrow> extendFlag;
          let result = 0 - d - x;
          sr \<leftarrow> getSR;
          let oldZ = sr AND flagZ;
          setFlagsSub d 0 result sz;
          keepZ oldZ result sz;
          writeBus sz a result;
          (if sz = sizeLong then addCycles (12 + eaBase + eaLong) else addCycles (8 + eaBase)) }))"

definition registerNEGX :: "'b stores" where
  "registerNEGX =
     [(0x4000 OR push_bit 6 szBits OR push_bit 3 mode OR rg, makeNEGX mode rg).
        szBits \<leftarrow> range16 0 3, mode \<leftarrow> range16 0 8, mode \<noteq> 1, rg \<leftarrow> range16 0 8,
        \<not> (mode = 7 \<and> rg > 1)]"

definition makeCLR :: "u16 \<Rightarrow> u16 \<Rightarrow> 'b opFunc" where
  "makeCLR mode rg =
    (if mode = 0 then do {
       i \<leftarrow> gets ir;
       let sz = sizeEncoding (drop_bit 6 i AND 3);
       let mask = Mask sz;
       dv \<leftarrow> getD (unat rg);
       putD (unat rg) (dv AND NOT mask);
       srClr (flagN OR flagV OR flagC);
       srSet flagZ;
       (if sz = sizeLong then addCycles 6 else addCycles 4) }
     else
       (let addr = makeEAMemAddr mode rg;
            (eaBase, eaLong) = eaFetchConst mode rg
        in do {
          i \<leftarrow> gets ir;
          let sz = sizeEncoding (drop_bit 6 i AND 3);
          a \<leftarrow> addr sz;
          writeBus sz a 0;
          srClr (flagN OR flagV OR flagC);
          srSet flagZ;
          (if sz = sizeLong then addCycles (12 + eaBase + eaLong) else addCycles (8 + eaBase)) }))"

definition registerCLR :: "'b stores" where
  "registerCLR =
     [(0x4200 OR push_bit 6 szBits OR push_bit 3 mode OR rg, makeCLR mode rg).
        szBits \<leftarrow> range16 0 3, mode \<leftarrow> range16 0 8, mode \<noteq> 1, rg \<leftarrow> range16 0 8,
        \<not> (mode = 7 \<and> rg > 1)]"

subsection \<open>EXT and CHK\<close>

definition opEXTW :: "'b opFunc" where
  "opEXTW = do {
     i \<leftarrow> gets ir;
     let dn = i AND 7;
     dv \<leftarrow> getD (unat dn);
     let val = (scast (scast (ucast dv :: u8) :: u16) :: u32);
     putD (unat dn) ((dv AND 0xFFFF0000) OR (val AND 0xFFFF));
     setFlagsLogical val sizeWord;
     addCycles 4 }"

definition opEXTL :: "'b opFunc" where
  "opEXTL = do {
     i \<leftarrow> gets ir;
     let dn = i AND 7;
     dv \<leftarrow> getD (unat dn);
     let val = (scast (ucast dv :: u16) :: u32);
     putD (unat dn) val;
     setFlagsLogical val sizeLong;
     addCycles 4 }"

definition registerEXT :: "'b stores" where
  "registerEXT = concat
     [[(0x4880 OR dn, opEXTW), (0x48C0 OR dn, opEXTL)]. dn \<leftarrow> range16 0 8]"

definition makeCHK :: "u16 \<Rightarrow> u16 \<Rightarrow> u16 \<Rightarrow> 'b opFunc" where
  "makeCHK dn mode rg =
    (let read = makeEARead mode rg;
         (eaBase, eaLong) = eaFetchConst mode rg
     in do {
       bv \<leftarrow> read sizeWord;
       let bound = (ucast bv :: u16);
       dv \<leftarrow> getD (unat dn);
       let val = (ucast (dv AND 0xFFFF) :: u16);
       if sint val < 0 then do {
         srClr (flagN OR flagZ OR flagV OR flagC);
         srSet flagN;
         exception vecCHK }
       else if sint val > sint bound then do {
         srClr (flagN OR flagZ OR flagV OR flagC);
         exception vecCHK }
       else do {
         setFlagsCmp (scast val) (scast bound) (scast (bound - val)) sizeWord;
         addCycles (10 + eaBase);
         whenM (sizeWord = sizeLong) (addCycles eaLong) } })"

definition registerCHK :: "'b stores" where
  "registerCHK =
     [(0x4180 OR push_bit 9 dn OR push_bit 3 mode OR rg, makeCHK dn mode rg).
        dn \<leftarrow> range16 0 8, mode \<leftarrow> range16 0 8, mode \<noteq> 1, rg \<leftarrow> range16 0 8,
        \<not> (mode = 7 \<and> rg > 4)]"

definition init_arith :: "'b stores" where
  "init_arith = registerADD @ registerADDA @ registerADDI @ registerADDQ @ registerADDX @
     registerSUB @ registerSUBA @ registerSUBI @ registerSUBQ @ registerSUBX @
     registerCMP @ registerCMPA @ registerCMPI @ registerCMPM @
     registerMULU @ registerMULS @ registerDIVU @ registerDIVS @
     registerNEG @ registerNEGX @ registerCLR @ registerEXT @ registerCHK"

subsection \<open>The handlers respect the CPU contract\<close>

context cpu_frame
begin

lemma io_makeADDtoReg [io]: "dn < 8 \<Longrightarrow> srcEA mode rg \<Longrightarrow> state_io_rel R (makeADDtoReg dn mode rg)"
  unfolding makeADDtoReg_def Let_def split_def by (intro io; simp add: fields)

lemma io_makeSUBtoReg [io]: "dn < 8 \<Longrightarrow> srcEA mode rg \<Longrightarrow> state_io_rel R (makeSUBtoReg dn mode rg)"
  unfolding makeSUBtoReg_def Let_def split_def by (intro io; simp add: fields)

lemma io_makeCMP [io]: "dn < 8 \<Longrightarrow> srcEA mode rg \<Longrightarrow> state_io_rel R (makeCMP dn mode rg)"
  unfolding makeCMP_def Let_def split_def by (intro io; simp add: fields)

lemma io_makeMULU [io]: "dn < 8 \<Longrightarrow> srcEA mode rg \<Longrightarrow> state_io_rel R (makeMULU dn mode rg)"
  unfolding makeMULU_def Let_def split_def by (intro io; simp add: fields)

lemma io_makeMULS [io]: "dn < 8 \<Longrightarrow> srcEA mode rg \<Longrightarrow> state_io_rel R (makeMULS dn mode rg)"
  unfolding makeMULS_def Let_def split_def by (intro io; simp add: fields)

lemma io_makeADDtoEA [io]: "dn < 8 \<Longrightarrow> memEA mode rg \<Longrightarrow> state_io_rel R (makeADDtoEA dn mode rg)"
  unfolding makeADDtoEA_def Let_def split_def by (intro io; simp add: fields)

lemma io_makeSUBtoEA [io]: "dn < 8 \<Longrightarrow> memEA mode rg \<Longrightarrow> state_io_rel R (makeSUBtoEA dn mode rg)"
  unfolding makeSUBtoEA_def Let_def split_def by (intro io; simp add: fields)

lemma io_makeADDA [io]: "dn < 8 \<Longrightarrow> srcEA mode rg \<Longrightarrow> state_io_rel R (makeADDA dn mode rg)"
  unfolding makeADDA_def Let_def split_def by (intro io; simp add: fields)

lemma io_makeSUBA [io]: "dn < 8 \<Longrightarrow> srcEA mode rg \<Longrightarrow> state_io_rel R (makeSUBA dn mode rg)"
  unfolding makeSUBA_def Let_def split_def by (intro io; simp add: fields)

lemma io_makeCMPA [io]: "dn < 8 \<Longrightarrow> srcEA mode rg \<Longrightarrow> state_io_rel R (makeCMPA dn mode rg)"
  unfolding makeCMPA_def Let_def split_def by (intro io; simp add: fields)

lemma io_makeADDI [io]: "altEA mode rg \<Longrightarrow> state_io_rel R (makeADDI mode rg)"
  unfolding makeADDI_def Let_def split_def by (intro io; simp add: fields)

lemma io_makeSUBI [io]: "altEA mode rg \<Longrightarrow> state_io_rel R (makeSUBI mode rg)"
  unfolding makeSUBI_def Let_def split_def by (intro io; simp add: fields)

lemma io_makeCMPI [io]: "altEA mode rg \<Longrightarrow> state_io_rel R (makeCMPI mode rg)"
  unfolding makeCMPI_def Let_def split_def by (intro io; simp add: fields)

lemma io_makeNEG [io]: "altEA mode rg \<Longrightarrow> state_io_rel R (makeNEG mode rg)"
  unfolding makeNEG_def Let_def split_def by (intro io; simp add: fields)

lemma io_makeNEGX [io]: "altEA mode rg \<Longrightarrow> state_io_rel R (makeNEGX mode rg)"
  unfolding makeNEGX_def Let_def split_def by (intro io; simp add: fields)

lemma io_makeCLR [io]: "altEA mode rg \<Longrightarrow> state_io_rel R (makeCLR mode rg)"
  unfolding makeCLR_def Let_def split_def by (intro io; simp add: fields)

lemma io_makeADDQ [io]: "rg < 8 \<Longrightarrow> mode = 1 \<or> altEA mode rg \<Longrightarrow> state_io_rel R (makeADDQ dat mode rg)"
  unfolding makeADDQ_def Let_def split_def by (intro io; simp add: fields)

lemma io_makeSUBQ [io]: "rg < 8 \<Longrightarrow> mode = 1 \<or> altEA mode rg \<Longrightarrow> state_io_rel R (makeSUBQ dat mode rg)"
  unfolding makeSUBQ_def Let_def split_def by (intro io; simp add: fields)

lemma io_opADDXreg [io]: "state_io_rel R (opADDXreg)"
  unfolding opADDXreg_def Let_def split_def by (intro io; simp add: fields)

lemma io_opSUBXreg [io]: "state_io_rel R (opSUBXreg)"
  unfolding opSUBXreg_def Let_def split_def by (intro io; simp add: fields)

lemma io_opEXTW [io]: "state_io_rel R (opEXTW)"
  unfolding opEXTW_def Let_def split_def by (intro io; simp add: fields)

lemma io_opEXTL [io]: "state_io_rel R (opEXTL)"
  unfolding opEXTL_def Let_def split_def by (intro io; simp add: fields)

lemma io_opADDXmem [io]: "state_io_rel R (opADDXmem)"
  unfolding opADDXmem_def Let_def split_def
  by (rule io_bind_resolveEA | rule io | (simp add: fields; fail))+

lemma io_opSUBXmem [io]: "state_io_rel R (opSUBXmem)"
  unfolding opSUBXmem_def Let_def split_def
  by (rule io_bind_resolveEA | rule io | (simp add: fields; fail))+

lemma io_opCMPM [io]: "state_io_rel R (opCMPM)"
  unfolding opCMPM_def Let_def split_def
  by (rule io_bind_resolveEA | rule io | (simp add: fields; fail))+

lemma handles_registerADD: "handles R registerADD"
  by (rule handlesI) (auto simp: registerADD_def split: if_splits intro!: io rangeIs)

lemma handles_registerADDA: "handles R registerADDA"
  by (rule handlesI) (auto simp: registerADDA_def split: if_splits intro!: io rangeIs)

lemma handles_registerADDI: "handles R registerADDI"
  by (rule handlesI) (auto simp: registerADDI_def split: if_splits intro!: io rangeIs)

lemma handles_registerADDQ: "handles R registerADDQ"
  by (rule handlesI) (auto simp: registerADDQ_def split: if_splits intro!: io rangeIs)

lemma handles_registerADDX: "handles R registerADDX"
  by (rule handlesI) (auto simp: registerADDX_def split: if_splits intro!: io rangeIs)

lemma handles_registerSUB: "handles R registerSUB"
  by (rule handlesI) (auto simp: registerSUB_def split: if_splits intro!: io rangeIs)

lemma handles_registerSUBA: "handles R registerSUBA"
  by (rule handlesI) (auto simp: registerSUBA_def split: if_splits intro!: io rangeIs)

lemma handles_registerSUBI: "handles R registerSUBI"
  by (rule handlesI) (auto simp: registerSUBI_def split: if_splits intro!: io rangeIs)

lemma handles_registerSUBQ: "handles R registerSUBQ"
  by (rule handlesI) (auto simp: registerSUBQ_def split: if_splits intro!: io rangeIs)

lemma handles_registerSUBX: "handles R registerSUBX"
  by (rule handlesI) (auto simp: registerSUBX_def split: if_splits intro!: io rangeIs)

lemma handles_registerCMP: "handles R registerCMP"
  by (rule handlesI) (auto simp: registerCMP_def split: if_splits intro!: io rangeIs)

lemma handles_registerCMPA: "handles R registerCMPA"
  by (rule handlesI) (auto simp: registerCMPA_def split: if_splits intro!: io rangeIs)

lemma handles_registerCMPI: "handles R registerCMPI"
  by (rule handlesI) (auto simp: registerCMPI_def split: if_splits intro!: io rangeIs)

lemma handles_registerCMPM: "handles R registerCMPM"
  by (rule handlesI) (auto simp: registerCMPM_def split: if_splits intro!: io rangeIs)

lemma handles_registerMULU: "handles R registerMULU"
  by (rule handlesI) (auto simp: registerMULU_def split: if_splits intro!: io rangeIs)

lemma handles_registerMULS: "handles R registerMULS"
  by (rule handlesI) (auto simp: registerMULS_def split: if_splits intro!: io rangeIs)

lemma handles_registerNEG: "handles R registerNEG"
  by (rule handlesI) (auto simp: registerNEG_def split: if_splits intro!: io rangeIs)

lemma handles_registerNEGX: "handles R registerNEGX"
  by (rule handlesI) (auto simp: registerNEGX_def split: if_splits intro!: io rangeIs)

lemma handles_registerCLR: "handles R registerCLR"
  by (rule handlesI) (auto simp: registerCLR_def split: if_splits intro!: io rangeIs)

lemma handles_registerEXT: "handles R registerEXT"
  by (rule handlesI) (auto simp: registerEXT_def split: if_splits intro!: io rangeIs)

lemmas handles_arith = handles_registerADD handles_registerADDA handles_registerADDI
  handles_registerADDQ handles_registerADDX handles_registerSUB handles_registerSUBA
  handles_registerSUBI handles_registerSUBQ handles_registerSUBX handles_registerCMP
  handles_registerCMPA handles_registerCMPI handles_registerCMPM handles_registerMULU
  handles_registerMULS handles_registerNEG handles_registerNEGX handles_registerCLR
  handles_registerEXT

end

context cpu_frame_trap
begin

lemma trap_makeDIVU: "dn < 8 \<Longrightarrow> srcEA mode rg \<Longrightarrow> state_io_rel R' (makeDIVU dn mode rg)"
  unfolding makeDIVU_def Let_def split_def
  by (rule trap_bind [OF _ io_ifI [OF trap_exception trap_weaken]]; (intro io)?; simp add: fields trapVectors_def)

lemma trap_makeDIVS: "dn < 8 \<Longrightarrow> srcEA mode rg \<Longrightarrow> state_io_rel R' (makeDIVS dn mode rg)"
  unfolding makeDIVS_def Let_def split_def
  by (rule trap_bind [OF _ io_ifI [OF trap_exception trap_weaken]]; (intro io)?; simp add: fields trapVectors_def)

lemma trap_makeCHK: "dn < 8 \<Longrightarrow> srcEA mode rg \<Longrightarrow> state_io_rel R' (makeCHK dn mode rg)"
  unfolding makeCHK_def Let_def split_def
  by (intro trap_bind io_ifI; (rule trap_exception trap_weaken)?; (intro io)?; simp add: fields trapVectors_def)

lemma handles_trapping: "handles R' registerDIVU" "handles R' registerDIVS" "handles R' registerCHK"
  by (rule handlesI; auto simp: registerDIVU_def registerDIVS_def registerCHK_def split: if_splits
      intro!: trap_makeDIVU trap_makeDIVS trap_makeCHK rangeIs)+

lemma handles_init_arith: "handles R' init_arith"
  by (simp add: init_arith_def handles_trapping handles_arith [THEN handles_weaken] weaker)

end

end
