(* ===== verification/Ops_Bcd.thy ===== *)
theory Ops_Bcd
  imports M68k_Ops
begin

text \<open>Packed decimal arithmetic (\<open>ops_bcd.go\<close>): ABCD, SBCD and NBCD.\<close>

definition bcdAdd :: "u32 \<Rightarrow> u32 \<Rightarrow> ('b, u32) cpuM" where
  "bcdAdd s d = do {
     x \<leftarrow> extendFlag;
     let binary = s + d + x;
     let lo = (s AND 0x0F) + (d AND 0x0F) + x;
     let hi = (drop_bit 4 s AND 0x0F) + (drop_bit 4 d AND 0x0F);
     let lo = (if lo > 9 then lo + 6 else lo);
     let hi = hi + drop_bit 4 lo;
     let lo = lo AND 0x0F;
     let carry = (hi > 9);
     let hi = (if hi > 9 then hi + 6 else hi);
     let r8 = (push_bit 4 hi OR lo) AND 0xFF;
     srClr (flagC OR flagX OR flagN OR flagV);
     whenM carry (srSet (flagC OR flagX));
     whenM (r8 AND 0x80 \<noteq> 0) (srSet flagN);
     whenM (binary AND 0x80 = 0 \<and> r8 AND 0x80 \<noteq> 0) (srSet flagV);
     whenM (r8 \<noteq> 0) (srClr flagZ);
     return r8 }"

definition bcdSub :: "u32 \<Rightarrow> u32 \<Rightarrow> ('b, u32) cpuM" where
  "bcdSub s d = do {
     x \<leftarrow> extendFlag;
     let binary = d - s - x;
     let lo = (d AND 0x0F) - (s AND 0x0F) - x;
     let res = (if lo AND 0x10 \<noteq> 0 then binary - 6 else binary);
     let binBorrow = (d < s + x);
     let borrow = (binBorrow \<or> res AND 0x100 \<noteq> 0);
     let res = (if binBorrow then res - 0x60 else res);
     let r8 = res AND 0xFF;
     srClr (flagC OR flagX OR flagN OR flagV);
     whenM borrow (srSet (flagC OR flagX));
     whenM (r8 AND 0x80 \<noteq> 0) (srSet flagN);
     whenM (binary AND 0x80 \<noteq> 0 \<and> r8 AND 0x80 = 0) (srSet flagV);
     whenM (r8 \<noteq> 0) (srClr flagZ);
     return r8 }"

definition opABCDreg :: "'b opFunc" where
  "opABCDreg = do {
     i \<leftarrow> gets ir;
     let rx = drop_bit 9 i AND 7;
     let ry = i AND 7;
     sv \<leftarrow> getD (unat ry);
     let s = sv AND 0xFF;
     dv \<leftarrow> getD (unat rx);
     let d = dv AND 0xFF;
     result \<leftarrow> bcdAdd s d;
     dv \<leftarrow> getD (unat rx);
     putD (unat rx) ((dv AND 0xFFFFFF00) OR (result AND 0xFF));
     addCycles 6 }"

definition opABCDmem :: "'b opFunc" where
  "opABCDmem = do {
     i \<leftarrow> gets ir;
     let rx = drop_bit 9 i AND 7;
     let ry = i AND 7;
     src \<leftarrow> resolveEA 4 (ucast ry) sizeByte;
     s \<leftarrow> ea_read src sizeByte;
     dst \<leftarrow> resolveEA 4 (ucast rx) sizeByte;
     d \<leftarrow> ea_read dst sizeByte;
     result \<leftarrow> bcdAdd s d;
     ea_write dst sizeByte result;
     addCycles 18 }"

definition registerABCD :: "'b stores" where
  "registerABCD = concat
     [[(0xC100 OR push_bit 9 rx OR ry, opABCDreg), (0xC108 OR push_bit 9 rx OR ry, opABCDmem)].
      rx \<leftarrow> range16 0 8, ry \<leftarrow> range16 0 8]"

definition opSBCDreg :: "'b opFunc" where
  "opSBCDreg = do {
     i \<leftarrow> gets ir;
     let rx = drop_bit 9 i AND 7;
     let ry = i AND 7;
     sv \<leftarrow> getD (unat ry);
     let s = sv AND 0xFF;
     dv \<leftarrow> getD (unat rx);
     let d = dv AND 0xFF;
     result \<leftarrow> bcdSub s d;
     dv \<leftarrow> getD (unat rx);
     putD (unat rx) ((dv AND 0xFFFFFF00) OR (result AND 0xFF));
     addCycles 6 }"

definition opSBCDmem :: "'b opFunc" where
  "opSBCDmem = do {
     i \<leftarrow> gets ir;
     let rx = drop_bit 9 i AND 7;
     let ry = i AND 7;
     src \<leftarrow> resolveEA 4 (ucast ry) sizeByte;
     s \<leftarrow> ea_read src sizeByte;
     dst \<leftarrow> resolveEA 4 (ucast rx) sizeByte;
     d \<leftarrow> ea_read dst sizeByte;
     result \<leftarrow> bcdSub s d;
     ea_write dst sizeByte result;
     addCycles 18 }"

definition registerSBCD :: "'b stores" where
  "registerSBCD = concat
     [[(0x8100 OR push_bit 9 rx OR ry, opSBCDreg), (0x8108 OR push_bit 9 rx OR ry, opSBCDmem)].
      rx \<leftarrow> range16 0 8, ry \<leftarrow> range16 0 8]"

definition makeNBCD :: "u16 \<Rightarrow> u16 \<Rightarrow> 'b opFunc" where
  "makeNBCD mode rg =
    (if mode = 0 then do {
       dv \<leftarrow> getD (unat rg);
       let d = dv AND 0xFF;
       result \<leftarrow> bcdSub d 0;
       dv \<leftarrow> getD (unat rg);
       putD (unat rg) ((dv AND 0xFFFFFF00) OR (result AND 0xFF));
       addCycles 6 }
     else
       (let addr = makeEAMemAddr mode rg;
            (eaBase, _) = eaFetchConst mode rg
        in do {
          a \<leftarrow> addr sizeByte;
          d \<leftarrow> readBus sizeByte a;
          result \<leftarrow> bcdSub d 0;
          writeBus sizeByte a result;
          addCycles (8 + eaBase) }))"

definition registerNBCD :: "'b stores" where
  "registerNBCD =
     [(0x4800 OR push_bit 3 mode OR rg, makeNBCD mode rg).
        mode \<leftarrow> range16 0 8, mode \<noteq> 1, rg \<leftarrow> range16 0 8, \<not> (mode = 7 \<and> rg > 1)]"

definition init_bcd :: "'b stores" where
  "init_bcd = registerABCD @ registerSBCD @ registerNBCD"

subsection \<open>The handlers respect the CPU contract\<close>

context cpu_frame
begin

lemma io_bcdAdd [io]: "state_io_rel R (bcdAdd s d)"
  unfolding bcdAdd_def Let_def split_def by (intro io; simp add: fields)

lemma io_bcdSub [io]: "state_io_rel R (bcdSub s d)"
  unfolding bcdSub_def Let_def split_def by (intro io; simp add: fields)

lemma io_opABCDreg [io]: "state_io_rel R (opABCDreg)"
  unfolding opABCDreg_def Let_def split_def by (intro io; simp add: fields)

lemma io_opSBCDreg [io]: "state_io_rel R (opSBCDreg)"
  unfolding opSBCDreg_def Let_def split_def by (intro io; simp add: fields)

lemma io_makeNBCD [io]: "altEA mode rg \<Longrightarrow> state_io_rel R (makeNBCD mode rg)"
  unfolding makeNBCD_def Let_def split_def by (intro io; simp add: fields)

lemma io_opABCDmem [io]: "state_io_rel R (opABCDmem)"
  unfolding opABCDmem_def Let_def split_def
  by (rule io_bind_resolveEA | rule io | (simp add: fields; fail))+

lemma io_opSBCDmem [io]: "state_io_rel R (opSBCDmem)"
  unfolding opSBCDmem_def Let_def split_def
  by (rule io_bind_resolveEA | rule io | (simp add: fields; fail))+

lemma handles_registerABCD: "handles R registerABCD"
  by (rule handlesI) (auto simp: registerABCD_def split: if_splits intro!: io rangeIs)

lemma handles_registerSBCD: "handles R registerSBCD"
  by (rule handlesI) (auto simp: registerSBCD_def split: if_splits intro!: io rangeIs)

lemma handles_registerNBCD: "handles R registerNBCD"
  by (rule handlesI) (auto simp: registerNBCD_def split: if_splits intro!: io rangeIs)

lemma handles_init_bcd: "handles R init_bcd"
  by (simp add: init_bcd_def handles_registerABCD handles_registerSBCD handles_registerNBCD)

end

end
