(* ===== verification/Ops_Bit.thy ===== *)
theory Ops_Bit
  imports M68k_Ops
begin

text \<open>
  Bit test and manipulation (\<open>ops_bit.go\<close>): BTST, BCHG, BCLR and BSET, each with the bit number
  in a register (\<open>dyn\<close>) or in an extension word (\<open>static\<close>). On a data register the bit number
  is taken modulo 32, on a memory byte modulo 8.
\<close>

subsection \<open>BTST\<close>

definition makeBTSTdyn :: "u16 \<Rightarrow> u16 \<Rightarrow> u16 \<Rightarrow> 'b opFunc" where
  "makeBTSTdyn dn mode rg =
    (if mode = 0 then do {
       bv \<leftarrow> getD (unat dn);
       let bitNum = bv AND 31;
       v \<leftarrow> getD (unat rg);
       setZ (v AND push_bit (unat bitNum) 1 = 0);
       addCycles 6 }
     else
       (let read = makeEARead mode rg;
            (eaBase, _) = eaFetchConst mode rg
        in do {
          bv \<leftarrow> getD (unat dn);
          let bitNum = bv AND 7;
          val \<leftarrow> read sizeByte;
          setZ (val AND push_bit (unat bitNum) 1 = 0);
          addCycles (4 + eaBase) }))"

definition makeBTSTstatic :: "u16 \<Rightarrow> u16 \<Rightarrow> 'b opFunc" where
  "makeBTSTstatic mode rg =
    (if mode = 0 then do {
       w \<leftarrow> fetchPC;
       let bitNum = (ucast (w AND 0xFF) :: u32) AND 31;
       v \<leftarrow> getD (unat rg);
       setZ (v AND push_bit (unat bitNum) 1 = 0);
       addCycles 10 }
     else
       (let read = makeEARead mode rg;
            (eaBase, _) = eaFetchConst mode rg
        in do {
          w \<leftarrow> fetchPC;
          let bitNum = (ucast (w AND 0xFF) :: u32) AND 7;
          val \<leftarrow> read sizeByte;
          setZ (val AND push_bit (unat bitNum) 1 = 0);
          addCycles (8 + eaBase) }))"

definition registerBTST :: "'b stores" where
  "registerBTST =
     [(0x0100 OR push_bit 9 dn OR push_bit 3 mode OR rg, makeBTSTdyn dn mode rg).
        dn \<leftarrow> range16 0 8, mode \<leftarrow> range16 0 8, mode \<noteq> 1, rg \<leftarrow> range16 0 8,
        \<not> (mode = 7 \<and> rg > 4)] @
     [(0x0800 OR push_bit 3 mode OR rg, makeBTSTstatic mode rg).
        mode \<leftarrow> range16 0 8, mode \<noteq> 1, rg \<leftarrow> range16 0 8, \<not> (mode = 7 \<and> rg > 3)]"

subsection \<open>BCHG\<close>

definition makeBCHGdyn :: "u16 \<Rightarrow> u16 \<Rightarrow> u16 \<Rightarrow> 'b opFunc" where
  "makeBCHGdyn dn mode rg =
    (if mode = 0 then do {
       bv \<leftarrow> getD (unat dn);
       let bitNum = bv AND 31;
       let mask = push_bit (unat bitNum) 1;
       v \<leftarrow> getD (unat rg);
       setZ (v AND mask = 0);
       v \<leftarrow> getD (unat rg);
       putD (unat rg) (v XOR mask);
       (if bitNum < 16 then addCycles 6 else addCycles 8) }
     else
       (let addr = makeEAMemAddr mode rg;
            (eaBase, _) = eaFetchConst mode rg
        in do {
          bv \<leftarrow> getD (unat dn);
          let bitNum = bv AND 7;
          a \<leftarrow> addr sizeByte;
          val \<leftarrow> readBus sizeByte a;
          let mask = push_bit (unat bitNum) 1;
          setZ (val AND mask = 0);
          writeBus sizeByte a (val XOR mask);
          addCycles (8 + eaBase) }))"

definition makeBCHGstatic :: "u16 \<Rightarrow> u16 \<Rightarrow> 'b opFunc" where
  "makeBCHGstatic mode rg =
    (if mode = 0 then do {
       w \<leftarrow> fetchPC;
       let bitNum = (ucast (w AND 0xFF) :: u32) AND 31;
       let mask = push_bit (unat bitNum) 1;
       v \<leftarrow> getD (unat rg);
       setZ (v AND mask = 0);
       v \<leftarrow> getD (unat rg);
       putD (unat rg) (v XOR mask);
       addCycles 12 }
     else
       (let addr = makeEAMemAddr mode rg;
            (eaBase, _) = eaFetchConst mode rg
        in do {
          w \<leftarrow> fetchPC;
          let bitNum = (ucast (w AND 0xFF) :: u32) AND 7;
          a \<leftarrow> addr sizeByte;
          val \<leftarrow> readBus sizeByte a;
          let mask = push_bit (unat bitNum) 1;
          setZ (val AND mask = 0);
          writeBus sizeByte a (val XOR mask);
          addCycles (12 + eaBase) }))"

definition registerBCHG :: "'b stores" where
  "registerBCHG =
     [(0x0140 OR push_bit 9 dn OR push_bit 3 mode OR rg, makeBCHGdyn dn mode rg).
        dn \<leftarrow> range16 0 8, mode \<leftarrow> range16 0 8, mode \<noteq> 1, rg \<leftarrow> range16 0 8,
        \<not> (mode = 7 \<and> rg > 1)] @
     [(0x0840 OR push_bit 3 mode OR rg, makeBCHGstatic mode rg).
        mode \<leftarrow> range16 0 8, mode \<noteq> 1, rg \<leftarrow> range16 0 8, \<not> (mode = 7 \<and> rg > 1)]"

subsection \<open>BCLR\<close>

definition makeBCLRdyn :: "u16 \<Rightarrow> u16 \<Rightarrow> u16 \<Rightarrow> 'b opFunc" where
  "makeBCLRdyn dn mode rg =
    (if mode = 0 then do {
       bv \<leftarrow> getD (unat dn);
       let bitNum = bv AND 31;
       let mask = push_bit (unat bitNum) 1;
       v \<leftarrow> getD (unat rg);
       setZ (v AND mask = 0);
       v \<leftarrow> getD (unat rg);
       putD (unat rg) (v AND NOT mask);
       (if bitNum < 16 then addCycles 8 else addCycles 10) }
     else
       (let addr = makeEAMemAddr mode rg;
            (eaBase, _) = eaFetchConst mode rg
        in do {
          bv \<leftarrow> getD (unat dn);
          let bitNum = bv AND 7;
          a \<leftarrow> addr sizeByte;
          val \<leftarrow> readBus sizeByte a;
          let mask = push_bit (unat bitNum) 1;
          setZ (val AND mask = 0);
          writeBus sizeByte a (val AND NOT mask);
          addCycles (8 + eaBase) }))"

definition makeBCLRstatic :: "u16 \<Rightarrow> u16 \<Rightarrow> 'b opFunc" where
  "makeBCLRstatic mode rg =
    (if mode = 0 then do {
       w \<leftarrow> fetchPC;
       let bitNum = (ucast (w AND 0xFF) :: u32) AND 31;
       let mask = push_bit (unat bitNum) 1;
       v \<leftarrow> getD (unat rg);
       setZ (v AND mask = 0);
       v \<leftarrow> getD (unat rg);
       putD (unat rg) (v AND NOT mask);
       addCycles 14 }
     else
       (let addr = makeEAMemAddr mode rg;
            (eaBase, _) = eaFetchConst mode rg
        in do {
          w \<leftarrow> fetchPC;
          let bitNum = (ucast (w AND 0xFF) :: u32) AND 7;
          a \<leftarrow> addr sizeByte;
          val \<leftarrow> readBus sizeByte a;
          let mask = push_bit (unat bitNum) 1;
          setZ (val AND mask = 0);
          writeBus sizeByte a (val AND NOT mask);
          addCycles (12 + eaBase) }))"

definition registerBCLR :: "'b stores" where
  "registerBCLR =
     [(0x0180 OR push_bit 9 dn OR push_bit 3 mode OR rg, makeBCLRdyn dn mode rg).
        dn \<leftarrow> range16 0 8, mode \<leftarrow> range16 0 8, mode \<noteq> 1, rg \<leftarrow> range16 0 8,
        \<not> (mode = 7 \<and> rg > 1)] @
     [(0x0880 OR push_bit 3 mode OR rg, makeBCLRstatic mode rg).
        mode \<leftarrow> range16 0 8, mode \<noteq> 1, rg \<leftarrow> range16 0 8, \<not> (mode = 7 \<and> rg > 1)]"

subsection \<open>BSET\<close>

definition makeBSETdyn :: "u16 \<Rightarrow> u16 \<Rightarrow> u16 \<Rightarrow> 'b opFunc" where
  "makeBSETdyn dn mode rg =
    (if mode = 0 then do {
       bv \<leftarrow> getD (unat dn);
       let bitNum = bv AND 31;
       let mask = push_bit (unat bitNum) 1;
       v \<leftarrow> getD (unat rg);
       setZ (v AND mask = 0);
       v \<leftarrow> getD (unat rg);
       putD (unat rg) (v OR mask);
       (if bitNum < 16 then addCycles 6 else addCycles 8) }
     else
       (let addr = makeEAMemAddr mode rg;
            (eaBase, _) = eaFetchConst mode rg
        in do {
          bv \<leftarrow> getD (unat dn);
          let bitNum = bv AND 7;
          a \<leftarrow> addr sizeByte;
          val \<leftarrow> readBus sizeByte a;
          let mask = push_bit (unat bitNum) 1;
          setZ (val AND mask = 0);
          writeBus sizeByte a (val OR mask);
          addCycles (8 + eaBase) }))"

definition makeBSETstatic :: "u16 \<Rightarrow> u16 \<Rightarrow> 'b opFunc" where
  "makeBSETstatic mode rg =
    (if mode = 0 then do {
       w \<leftarrow> fetchPC;
       let bitNum = (ucast (w AND 0xFF) :: u32) AND 31;
       let mask = push_bit (unat bitNum) 1;
       v \<leftarrow> getD (unat rg);
       setZ (v AND mask = 0);
       v \<leftarrow> getD (unat rg);
       putD (unat rg) (v OR mask);
       addCycles 12 }
     else
       (let addr = makeEAMemAddr mode rg;
            (eaBase, _) = eaFetchConst mode rg
        in do {
          w \<leftarrow> fetchPC;
          let bitNum = (ucast (w AND 0xFF) :: u32) AND 7;
          a \<leftarrow> addr sizeByte;
          val \<leftarrow> readBus sizeByte a;
          let mask = push_bit (unat bitNum) 1;
          setZ (val AND mask = 0);
          writeBus sizeByte a (val OR mask);
          addCycles (12 + eaBase) }))"

definition registerBSET :: "'b stores" where
  "registerBSET =
     [(0x01C0 OR push_bit 9 dn OR push_bit 3 mode OR rg, makeBSETdyn dn mode rg).
        dn \<leftarrow> range16 0 8, mode \<leftarrow> range16 0 8, mode \<noteq> 1, rg \<leftarrow> range16 0 8,
        \<not> (mode = 7 \<and> rg > 1)] @
     [(0x08C0 OR push_bit 3 mode OR rg, makeBSETstatic mode rg).
        mode \<leftarrow> range16 0 8, mode \<noteq> 1, rg \<leftarrow> range16 0 8, \<not> (mode = 7 \<and> rg > 1)]"

definition init_bit :: "'b stores" where
  "init_bit = registerBTST @ registerBCHG @ registerBCLR @ registerBSET"

subsection \<open>The handlers respect the CPU contract\<close>

context cpu_frame
begin

lemma io_makeBTSTdyn [io]: "dn < 8 \<Longrightarrow> srcEA mode rg \<Longrightarrow> state_io_rel R (makeBTSTdyn dn mode rg)"
  unfolding makeBTSTdyn_def Let_def split_def by (intro io; simp add: fields)

lemma io_makeBTSTstatic [io]: "srcEA mode rg \<Longrightarrow> state_io_rel R (makeBTSTstatic mode rg)"
  unfolding makeBTSTstatic_def Let_def split_def by (intro io; simp add: fields)

lemma io_makeBCHGdyn [io]: "dn < 8 \<Longrightarrow> altEA mode rg \<Longrightarrow> state_io_rel R (makeBCHGdyn dn mode rg)"
  unfolding makeBCHGdyn_def Let_def split_def by (intro io; simp add: fields)

lemma io_makeBCHGstatic [io]: "altEA mode rg \<Longrightarrow> state_io_rel R (makeBCHGstatic mode rg)"
  unfolding makeBCHGstatic_def Let_def split_def by (intro io; simp add: fields)

lemma io_makeBCLRdyn [io]: "dn < 8 \<Longrightarrow> altEA mode rg \<Longrightarrow> state_io_rel R (makeBCLRdyn dn mode rg)"
  unfolding makeBCLRdyn_def Let_def split_def by (intro io; simp add: fields)

lemma io_makeBCLRstatic [io]: "altEA mode rg \<Longrightarrow> state_io_rel R (makeBCLRstatic mode rg)"
  unfolding makeBCLRstatic_def Let_def split_def by (intro io; simp add: fields)

lemma io_makeBSETdyn [io]: "dn < 8 \<Longrightarrow> altEA mode rg \<Longrightarrow> state_io_rel R (makeBSETdyn dn mode rg)"
  unfolding makeBSETdyn_def Let_def split_def by (intro io; simp add: fields)

lemma io_makeBSETstatic [io]: "altEA mode rg \<Longrightarrow> state_io_rel R (makeBSETstatic mode rg)"
  unfolding makeBSETstatic_def Let_def split_def by (intro io; simp add: fields)

lemma handles_registerBTST: "handles R registerBTST"
  by (rule handlesI) (auto simp: registerBTST_def split: if_splits intro!: io rangeIs)

lemma handles_registerBCHG: "handles R registerBCHG"
  by (rule handlesI) (auto simp: registerBCHG_def split: if_splits intro!: io rangeIs)

lemma handles_registerBCLR: "handles R registerBCLR"
  by (rule handlesI) (auto simp: registerBCLR_def split: if_splits intro!: io rangeIs)

lemma handles_registerBSET: "handles R registerBSET"
  by (rule handlesI) (auto simp: registerBSET_def split: if_splits intro!: io rangeIs)

lemma handles_init_bit: "handles R init_bit"
  by (simp add: init_bit_def handles_registerBTST handles_registerBCHG handles_registerBCLR handles_registerBSET)

end

end
