(* ===== verification/Ops_Branch.thy ===== *)
theory Ops_Branch
  imports M68k_Ops
begin

text \<open>
  Branches, jumps, subroutine calls and returns, and Scc (\<open>ops_branch.go\<close>).
\<close>

subsection \<open>Bcc, BRA, BSR and DBcc\<close>

definition opBcc :: "'b opFunc" where
  "opBcc = do {
     i \<leftarrow> gets ir;
     let cc = drop_bit 8 i AND 0xF;
     let disp = (scast (ucast (i AND 0xFF) :: u8) :: u32);
     base \<leftarrow> getPC;
     disp \<leftarrow> (if disp = 0 then do { w \<leftarrow> fetchPC; return (scast w) } else return disp);
     t \<leftarrow> testCondition cc;
     (if t then do {
        putPC (base + disp);
        addCycles 10 }
      else do {
        addCycles 8;
        whenM ((ucast (i AND 0xFF) :: u8) = 0) (addCycles 4) }) }"

definition registerBcc :: "'b stores" where
  "registerBcc =
     [(0x6000 OR push_bit 8 cc OR disp, opBcc). cc \<leftarrow> range16 2 16, disp \<leftarrow> range16 0 256]"

definition opBRA :: "'b opFunc" where
  "opBRA = do {
     i \<leftarrow> gets ir;
     let disp = (scast (ucast (i AND 0xFF) :: u8) :: u32);
     base \<leftarrow> getPC;
     disp \<leftarrow> (if disp = 0 then do { w \<leftarrow> fetchPC; return (scast w) } else return disp);
     putPC (base + disp);
     addCycles 10 }"

definition registerBRA :: "'b stores" where
  "registerBRA = [(0x6000 OR disp, opBRA). disp \<leftarrow> range16 0 256]"

definition opBSR :: "'b opFunc" where
  "opBSR = do {
     i \<leftarrow> gets ir;
     let disp = (scast (ucast (i AND 0xFF) :: u8) :: u32);
     base \<leftarrow> getPC;
     disp \<leftarrow> (if disp = 0 then do { w \<leftarrow> fetchPC; return (scast w) } else return disp);
     pc \<leftarrow> getPC;
     pushLong pc;
     putPC (base + disp);
     addCycles 18 }"

definition registerBSR :: "'b stores" where
  "registerBSR = [(0x6100 OR disp, opBSR). disp \<leftarrow> range16 0 256]"

definition opDBcc :: "'b opFunc" where
  "opDBcc = do {
     i \<leftarrow> gets ir;
     let cc = drop_bit 8 i AND 0xF;
     let dn = i AND 7;
     disp \<leftarrow> fetchPC;
     t \<leftarrow> testCondition cc;
     if t then addCycles 12
     else do {
       dv \<leftarrow> getD (unat dn);
       let val = (ucast (dv AND 0xFFFF) :: u16) - 1;
       putD (unat dn) ((dv AND 0xFFFF0000) OR ucast val);
       (if val = - 1 then addCycles 14
        else do {
          pc \<leftarrow> getPC;
          putPC (pc - 2 + scast disp);
          addCycles 10 }) } }"

definition registerDBcc :: "'b stores" where
  "registerDBcc =
     [(0x50C8 OR push_bit 8 cc OR dn, opDBcc). cc \<leftarrow> range16 0 16, dn \<leftarrow> range16 0 8]"

subsection \<open>JMP and JSR\<close>

definition makeJMP :: "u16 \<Rightarrow> u16 \<Rightarrow> 'b opFunc" where
  "makeJMP mode rg =
    (let addr = makeEAMemAddr mode rg;
         cyc = (if mode = 2 then 8 else if mode = 5 then 10 else if mode = 6 then 14
                else if mode = 7 then
                  (if rg = 0 \<or> rg = 2 then 10 else if rg = 1 then 12 else if rg = 3 then 14 else 0)
                else 0)
     in do {
       a \<leftarrow> addr sizeWord;
       putPC a;
       addCycles cyc })"

definition registerJMP :: "'b stores" where
  "registerJMP =
     [(0x4EC0 OR push_bit 3 mode OR rg, makeJMP mode rg).
        mode \<leftarrow> range16 2 8, \<not> (mode = 3 \<or> mode = 4), rg \<leftarrow> range16 0 8, \<not> (mode = 7 \<and> rg > 3)]"

definition makeJSR :: "u16 \<Rightarrow> u16 \<Rightarrow> 'b opFunc" where
  "makeJSR mode rg =
    (let addr = makeEAMemAddr mode rg;
         cyc = (if mode = 2 then 16 else if mode = 5 then 18 else if mode = 6 then 22
                else if mode = 7 then
                  (if rg = 0 \<or> rg = 2 then 18 else if rg = 1 then 20 else if rg = 3 then 22 else 0)
                else 0)
     in do {
       target \<leftarrow> addr sizeWord;
       pc \<leftarrow> getPC;
       pushLong pc;
       putPC target;
       addCycles cyc })"

definition registerJSR :: "'b stores" where
  "registerJSR =
     [(0x4E80 OR push_bit 3 mode OR rg, makeJSR mode rg).
        mode \<leftarrow> range16 2 8, \<not> (mode = 3 \<or> mode = 4), rg \<leftarrow> range16 0 8, \<not> (mode = 7 \<and> rg > 3)]"

subsection \<open>RTS, RTE and RTR\<close>

definition opRTS :: "'b opFunc" where
  "opRTS = do {
     pc \<leftarrow> popLong;
     putPC pc;
     addCycles 16 }"

definition registerRTS :: "'b stores" where
  "registerRTS = [(0x4E75, opRTS)]"

definition opRTE :: "'b opFunc" where
  "opRTE = do {
     s \<leftarrow> supervisor;
     if \<not> s then exception vecPrivilegeViolation
     else do {
       sr \<leftarrow> popWord;
       pc \<leftarrow> popLong;
       setSR sr;
       putPC pc;
       addCycles 20 } }"

definition registerRTE :: "'b stores" where
  "registerRTE = [(0x4E73, opRTE)]"

definition opRTR :: "'b opFunc" where
  "opRTR = do {
     ccr \<leftarrow> popWord;
     setCCR (ucast ccr);
     pc \<leftarrow> popLong;
     putPC pc;
     addCycles 20 }"

definition registerRTR :: "'b stores" where
  "registerRTR = [(0x4E77, opRTR)]"

subsection \<open>Scc\<close>

definition makeScc :: "u16 \<Rightarrow> u16 \<Rightarrow> 'b opFunc" where
  "makeScc mode rg =
    (if mode = 0 then do {
       i \<leftarrow> gets ir;
       let cc = drop_bit 8 i AND 0xF;
       t \<leftarrow> testCondition cc;
       (if t then do {
          dv \<leftarrow> getD (unat rg);
          putD (unat rg) ((dv AND 0xFFFFFF00) OR 0xFF);
          addCycles 6 }
        else do {
          dv \<leftarrow> getD (unat rg);
          putD (unat rg) (dv AND 0xFFFFFF00);
          addCycles 4 }) }
     else
       (let addr = makeEAMemAddr mode rg;
            (eaBase, _) = eaFetchConst mode rg
        in do {
          i \<leftarrow> gets ir;
          let cc = drop_bit 8 i AND 0xF;
          a \<leftarrow> addr sizeByte;
          t \<leftarrow> testCondition cc;
          (if t then writeBus sizeByte a 0xFF else writeBus sizeByte a 0x00);
          addCycles (8 + eaBase) }))"

definition registerScc :: "'b stores" where
  "registerScc =
     [(0x50C0 OR push_bit 8 cc OR push_bit 3 mode OR rg, makeScc mode rg).
        cc \<leftarrow> range16 0 16, mode \<leftarrow> range16 0 8, mode \<noteq> 1, rg \<leftarrow> range16 0 8,
        \<not> (mode = 7 \<and> rg > 1)]"

definition init_branch :: "'b stores" where
  "init_branch = registerBcc @ registerBRA @ registerBSR @ registerDBcc @ registerJMP @
     registerJSR @ registerRTS @ registerRTE @ registerRTR @ registerScc"

subsection \<open>The handlers respect the CPU contract\<close>

context cpu_frame
begin

lemma io_opBcc [io]: "state_io_rel R (opBcc)"
  unfolding opBcc_def Let_def split_def by (intro io; simp add: fields)

lemma io_opBRA [io]: "state_io_rel R (opBRA)"
  unfolding opBRA_def Let_def split_def by (intro io; simp add: fields)

lemma io_opBSR [io]: "state_io_rel R (opBSR)"
  unfolding opBSR_def Let_def split_def by (intro io; simp add: fields)

lemma io_opDBcc [io]: "state_io_rel R (opDBcc)"
  unfolding opDBcc_def Let_def split_def by (intro io; simp add: fields)

lemma io_opRTS [io]: "state_io_rel R (opRTS)"
  unfolding opRTS_def Let_def split_def by (intro io; simp add: fields)

lemma io_opRTR [io]: "state_io_rel R (opRTR)"
  unfolding opRTR_def Let_def split_def by (intro io; simp add: fields)

lemma io_makeJMP [io]: "memEA mode rg \<Longrightarrow> state_io_rel R (makeJMP mode rg)"
  unfolding makeJMP_def Let_def split_def by (intro io; simp add: fields)

lemma io_makeJSR [io]: "memEA mode rg \<Longrightarrow> state_io_rel R (makeJSR mode rg)"
  unfolding makeJSR_def Let_def split_def by (intro io; simp add: fields)

lemma io_makeScc [io]: "altEA mode rg \<Longrightarrow> state_io_rel R (makeScc mode rg)"
  unfolding makeScc_def Let_def split_def by (intro io; simp add: fields)

end

context cpu_frame_sys
begin

lemma io_opRTE [io]: "state_io_rel R (opRTE)"
  unfolding opRTE_def Let_def split_def by (intro io; simp add: fields)

end

context cpu_frame
begin

lemma handles_registerBcc: "handles R registerBcc"
  by (rule handlesI) (auto simp: registerBcc_def split: if_splits intro!: io rangeIs)

lemma handles_registerBRA: "handles R registerBRA"
  by (rule handlesI) (auto simp: registerBRA_def split: if_splits intro!: io rangeIs)

lemma handles_registerBSR: "handles R registerBSR"
  by (rule handlesI) (auto simp: registerBSR_def split: if_splits intro!: io rangeIs)

lemma handles_registerDBcc: "handles R registerDBcc"
  by (rule handlesI) (auto simp: registerDBcc_def split: if_splits intro!: io rangeIs)

lemma handles_registerJMP: "handles R registerJMP"
  by (rule handlesI) (auto simp: registerJMP_def split: if_splits intro!: io rangeIs)

lemma handles_registerJSR: "handles R registerJSR"
  by (rule handlesI) (auto simp: registerJSR_def split: if_splits intro!: io rangeIs)

lemma handles_registerRTS: "handles R registerRTS"
  by (rule handlesI) (auto simp: registerRTS_def split: if_splits intro!: io rangeIs)

lemma handles_registerRTR: "handles R registerRTR"
  by (rule handlesI) (auto simp: registerRTR_def split: if_splits intro!: io rangeIs)

lemma handles_registerScc: "handles R registerScc"
  by (rule handlesI) (auto simp: registerScc_def split: if_splits intro!: io rangeIs)

lemmas handles_branch = handles_registerBcc handles_registerBRA handles_registerBSR
  handles_registerDBcc handles_registerJMP handles_registerJSR handles_registerRTS
  handles_registerRTR handles_registerScc

text \<open>RTE is privileged: it need only respect a weaker relation.\<close>

lemma handles_init_branch:
  assumes "R \<le> R'" and "state_io_rel R' opRTE"
  shows "handles R' init_branch"
proof -
  have "handles R' registerRTE"
    using assms(2) by (intro handlesI) (auto simp: registerRTE_def)
  with assms(1) show ?thesis
    by (simp add: init_branch_def handles_branch [THEN handles_weaken])
qed

end

end
