(* ===== verification/Ops_Ctrl.thy ===== *)
theory Ops_Ctrl
  imports M68k_Ops
begin

text \<open>
  System control (\<open>ops_ctrl.go\<close>): NOP, STOP, RESET, TRAP, TRAPV, LINK, UNLK, the moves to and
  from SR, CCR and USP, and the immediate logical operations on CCR and SR.
\<close>

subsection \<open>NOP, STOP, RESET, TRAP and TRAPV\<close>

definition opNOP :: "'b opFunc" where
  "opNOP = addCycles 4"

definition registerNOP :: "'b stores" where
  "registerNOP = [(0x4E71, opNOP)]"

definition opSTOP :: "'b opFunc" where
  "opSTOP = do {
     s \<leftarrow> supervisor;
     if \<not> s then exception vecPrivilegeViolation
     else do {
       imm \<leftarrow> fetchPC;
       setSR imm;
       modify (\<lambda>c. c\<lparr>stopped := True\<rparr>);
       pp \<leftarrow> gets prevPC;
       putPC pp;
       addCycles 4 } }"

definition registerSTOP :: "'b stores" where
  "registerSTOP = [(0x4E72, opSTOP)]"

definition opRESET :: "'b opFunc" where
  "opRESET = do {
     s \<leftarrow> supervisor;
     if \<not> s then exception vecPrivilegeViolation
     else do {
       busReset;
       addCycles 132 } }"

definition registerRESET :: "'b stores" where
  "registerRESET = [(0x4E70, opRESET)]"

definition opTRAP :: "'b opFunc" where
  "opTRAP = do {
     i \<leftarrow> gets ir;
     let vector = unat (i AND 0xF) + vecTrap0;
     exception vector }"

definition registerTRAP :: "'b stores" where
  "registerTRAP = [(0x4E40 OR v, opTRAP). v \<leftarrow> range16 0 16]"

definition opTRAPV :: "'b opFunc" where
  "opTRAPV = do {
     sr \<leftarrow> getSR;
     if sr AND flagV \<noteq> 0 then exception vecTRAPV
     else addCycles 4 }"

definition registerTRAPV :: "'b stores" where
  "registerTRAPV = [(0x4E76, opTRAPV)]"

subsection \<open>LINK and UNLK\<close>

definition opLINK :: "'b opFunc" where
  "opLINK = do {
     i \<leftarrow> gets ir;
     let an = i AND 7;
     disp \<leftarrow> fetchPC;
     av \<leftarrow> getA (unat an);
     pushLong av;
     sp \<leftarrow> getA 7;
     putA (unat an) sp;
     sp \<leftarrow> getA 7;
     putA 7 (sp + scast disp);
     addCycles 16 }"

definition registerLINK :: "'b stores" where
  "registerLINK = [(0x4E50 OR an, opLINK). an \<leftarrow> range16 0 8]"

definition opUNLK :: "'b opFunc" where
  "opUNLK = do {
     i \<leftarrow> gets ir;
     let an = i AND 7;
     av \<leftarrow> getA (unat an);
     putA 7 av;
     v \<leftarrow> popLong;
     putA (unat an) v;
     addCycles 12 }"

definition registerUNLK :: "'b stores" where
  "registerUNLK = [(0x4E58 OR an, opUNLK). an \<leftarrow> range16 0 8]"

subsection \<open>Moves to and from SR, CCR and USP\<close>

definition makeMOVEfromSR :: "u16 \<Rightarrow> u16 \<Rightarrow> 'b opFunc" where
  "makeMOVEfromSR mode rg =
    (if mode = 0 then do {
       dv \<leftarrow> getD (unat rg);
       sr \<leftarrow> getSR;
       putD (unat rg) ((dv AND 0xFFFF0000) OR ucast sr);
       addCycles 6 }
     else
       (let addr = makeEAMemAddr mode rg;
            (eaBase, _) = eaFetchConst mode rg
        in do {
          a \<leftarrow> addr sizeWord;
          sr \<leftarrow> getSR;
          writeBus sizeWord a (ucast sr);
          addCycles (8 + eaBase) }))"

definition makeMOVEtoCCR :: "u16 \<Rightarrow> u16 \<Rightarrow> 'b opFunc" where
  "makeMOVEtoCCR mode rg =
    (let read = makeEARead mode rg;
         (eaBase, eaLong) = eaFetchConst mode rg
     in do {
       val \<leftarrow> read sizeWord;
       setCCR (ucast val);
       addCycles (12 + eaBase);
       whenM (sizeWord = sizeLong) (addCycles eaLong) })"

definition makeMOVEtoSR :: "u16 \<Rightarrow> u16 \<Rightarrow> 'b opFunc" where
  "makeMOVEtoSR mode rg =
    (let read = makeEARead mode rg;
         (eaBase, eaLong) = eaFetchConst mode rg
     in do {
       s \<leftarrow> supervisor;
       if \<not> s then exception vecPrivilegeViolation
       else do {
         val \<leftarrow> read sizeWord;
         setSR (ucast val);
         addCycles (12 + eaBase);
         whenM (sizeWord = sizeLong) (addCycles eaLong) } })"

definition opMOVEtoUSP :: "'b opFunc" where
  "opMOVEtoUSP = do {
     s \<leftarrow> supervisor;
     if \<not> s then exception vecPrivilegeViolation
     else do {
       i \<leftarrow> gets ir;
       let an = i AND 7;
       av \<leftarrow> getA (unat an);
       putUSP av;
       addCycles 4 } }"

definition opMOVEfromUSP :: "'b opFunc" where
  "opMOVEfromUSP = do {
     s \<leftarrow> supervisor;
     if \<not> s then exception vecPrivilegeViolation
     else do {
       i \<leftarrow> gets ir;
       let an = i AND 7;
       u \<leftarrow> getUSP;
       putA (unat an) u;
       addCycles 4 } }"

definition registerMoveToFromSR :: "'b stores" where
  "registerMoveToFromSR =
     [(0x40C0 OR push_bit 3 mode OR rg, makeMOVEfromSR mode rg).
        mode \<leftarrow> range16 0 8, mode \<noteq> 1, rg \<leftarrow> range16 0 8, \<not> (mode = 7 \<and> rg > 1)] @
     [(0x44C0 OR push_bit 3 mode OR rg, makeMOVEtoCCR mode rg).
        mode \<leftarrow> range16 0 8, mode \<noteq> 1, rg \<leftarrow> range16 0 8, \<not> (mode = 7 \<and> rg > 4)] @
     [(0x46C0 OR push_bit 3 mode OR rg, makeMOVEtoSR mode rg).
        mode \<leftarrow> range16 0 8, mode \<noteq> 1, rg \<leftarrow> range16 0 8, \<not> (mode = 7 \<and> rg > 4)] @
     concat [[(0x4E60 OR an, opMOVEtoUSP), (0x4E68 OR an, opMOVEfromUSP)]. an \<leftarrow> range16 0 8]"

subsection \<open>ANDI, ORI and EORI to CCR and SR\<close>

definition opANDItoCCR :: "'b opFunc" where
  "opANDItoCCR = do {
     imm \<leftarrow> fetchPC;
     sr \<leftarrow> getSR;
     setCCR (ucast sr AND ucast imm);
     addCycles 20 }"

definition opANDItoSR :: "'b opFunc" where
  "opANDItoSR = do {
     s \<leftarrow> supervisor;
     if \<not> s then exception vecPrivilegeViolation
     else do {
       imm \<leftarrow> fetchPC;
       sr \<leftarrow> getSR;
       setSR (sr AND imm);
       addCycles 20 } }"

definition opORItoCCR :: "'b opFunc" where
  "opORItoCCR = do {
     imm \<leftarrow> fetchPC;
     sr \<leftarrow> getSR;
     setCCR (ucast sr OR ucast imm);
     addCycles 20 }"

definition opORItoSR :: "'b opFunc" where
  "opORItoSR = do {
     s \<leftarrow> supervisor;
     if \<not> s then exception vecPrivilegeViolation
     else do {
       imm \<leftarrow> fetchPC;
       sr \<leftarrow> getSR;
       setSR (sr OR imm);
       addCycles 20 } }"

definition opEORItoCCR :: "'b opFunc" where
  "opEORItoCCR = do {
     imm \<leftarrow> fetchPC;
     sr \<leftarrow> getSR;
     setCCR (ucast sr XOR ucast imm);
     addCycles 20 }"

definition opEORItoSR :: "'b opFunc" where
  "opEORItoSR = do {
     s \<leftarrow> supervisor;
     if \<not> s then exception vecPrivilegeViolation
     else do {
       imm \<leftarrow> fetchPC;
       sr \<leftarrow> getSR;
       setSR (sr XOR imm);
       addCycles 20 } }"

definition registerAndiOriEoriSRCCR :: "'b stores" where
  "registerAndiOriEoriSRCCR =
     [(0x023C, opANDItoCCR), (0x027C, opANDItoSR), (0x003C, opORItoCCR), (0x007C, opORItoSR),
      (0x0A3C, opEORItoCCR), (0x0A7C, opEORItoSR)]"

definition init_ctrl :: "'b stores" where
  "init_ctrl = registerNOP @ registerSTOP @ registerRESET @ registerTRAP @ registerTRAPV @
     registerLINK @ registerUNLK @ registerMoveToFromSR @ registerAndiOriEoriSRCCR"

subsection \<open>The handlers respect the CPU contract\<close>

text \<open>The privileged handlers of this file; that they respect a relation is shown apart.\<close>

definition privileged :: "'b opFunc set" where
  "privileged = {opSTOP, opRESET, opMOVEtoUSP, opMOVEfromUSP, opANDItoSR, opORItoSR, opEORItoSR} \<union>
     {makeMOVEtoSR mode rg |mode rg. srcEA mode rg}"

context cpu_frame
begin

lemma io_opNOP [io]: "state_io_rel R (opNOP)"
  unfolding opNOP_def Let_def split_def by (intro io; simp add: fields)

lemma io_opLINK [io]: "state_io_rel R (opLINK)"
  unfolding opLINK_def Let_def split_def by (intro io; simp add: fields)

lemma io_opUNLK [io]: "state_io_rel R (opUNLK)"
  unfolding opUNLK_def Let_def split_def by (intro io; simp add: fields)

lemma io_opANDItoCCR [io]: "state_io_rel R (opANDItoCCR)"
  unfolding opANDItoCCR_def Let_def split_def by (intro io; simp add: fields)

lemma io_opORItoCCR [io]: "state_io_rel R (opORItoCCR)"
  unfolding opORItoCCR_def Let_def split_def by (intro io; simp add: fields)

lemma io_opEORItoCCR [io]: "state_io_rel R (opEORItoCCR)"
  unfolding opEORItoCCR_def Let_def split_def by (intro io; simp add: fields)

lemma io_makeMOVEfromSR [io]: "altEA mode rg \<Longrightarrow> state_io_rel R (makeMOVEfromSR mode rg)"
  unfolding makeMOVEfromSR_def Let_def split_def by (intro io; simp add: fields)

lemma io_makeMOVEtoCCR [io]: "srcEA mode rg \<Longrightarrow> state_io_rel R (makeMOVEtoCCR mode rg)"
  unfolding makeMOVEtoCCR_def Let_def split_def by (intro io; simp add: fields)

end

context cpu_frame_sys
begin

lemma io_opSTOP [io]: "state_io_rel R (opSTOP)"
  unfolding opSTOP_def Let_def split_def by (intro io; simp add: fields)

lemma io_opRESET [io]: "state_io_rel R (opRESET)"
  unfolding opRESET_def Let_def split_def by (intro io; simp add: fields)

lemma io_opMOVEtoUSP [io]: "state_io_rel R (opMOVEtoUSP)"
  unfolding opMOVEtoUSP_def Let_def split_def by (intro io; simp add: fields)

lemma io_opMOVEfromUSP [io]: "state_io_rel R (opMOVEfromUSP)"
  unfolding opMOVEfromUSP_def Let_def split_def by (intro io; simp add: fields)

lemma io_opANDItoSR [io]: "state_io_rel R (opANDItoSR)"
  unfolding opANDItoSR_def Let_def split_def by (intro io; simp add: fields)

lemma io_opORItoSR [io]: "state_io_rel R (opORItoSR)"
  unfolding opORItoSR_def Let_def split_def by (intro io; simp add: fields)

lemma io_opEORItoSR [io]: "state_io_rel R (opEORItoSR)"
  unfolding opEORItoSR_def Let_def split_def by (intro io; simp add: fields)

lemma io_makeMOVEtoSR [io]: "srcEA mode rg \<Longrightarrow> state_io_rel R (makeMOVEtoSR mode rg)"
  unfolding makeMOVEtoSR_def Let_def split_def by (intro io; simp add: fields)

lemma io_privileged: "m \<in> privileged \<Longrightarrow> state_io_rel R m"
  by (auto simp: privileged_def intro: io)

end

context cpu_frame
begin

lemma handles_registerNOP: "handles R registerNOP"
  by (rule handlesI) (auto simp: registerNOP_def split: if_splits intro!: io rangeIs)

lemma handles_registerLINK: "handles R registerLINK"
  by (rule handlesI) (auto simp: registerLINK_def split: if_splits intro!: io rangeIs)

lemma handles_registerUNLK: "handles R registerUNLK"
  by (rule handlesI) (auto simp: registerUNLK_def split: if_splits intro!: io rangeIs)

lemmas handles_ctrl = handles_registerNOP handles_registerLINK handles_registerUNLK

end

context cpu_frame_trap
begin

lemma trap_opTRAP: "state_io_rel R' opTRAP"
proof -
  have "unat (i AND 15 :: u16) + 32 \<in> trapVectors" for i
    using word_and_le1 [of i 15] by (simp add: trapVectors_def word_le_nat_alt)
  then show ?thesis
    unfolding opTRAP_def Let_def by (intro trap_bind trap_exception io_gets) simp
qed

lemma trap_opTRAPV: "state_io_rel R' opTRAPV"
  unfolding opTRAPV_def
  by (intro trap_bind io_ifI; (rule trap_exception trap_weaken)?; (intro io)?; simp add: trapVectors_def)

lemma handles_traps: "handles R' registerTRAP" "handles R' registerTRAPV"
  by (rule handlesI; auto simp: registerTRAP_def registerTRAPV_def intro: trap_opTRAP trap_opTRAPV)+

text \<open>The privileged handlers need only respect the weaker relation.\<close>

lemma handles_init_ctrl:
  assumes priv: "\<And>m. m \<in> privileged \<Longrightarrow> state_io_rel R' m"
  shows "handles R' init_ctrl"
proof -
  have ops: "altEA mode rg \<Longrightarrow> state_io_rel R' (makeMOVEfromSR mode rg)"
    "srcEA mode rg \<Longrightarrow> state_io_rel R' (makeMOVEtoCCR mode rg)"
    "srcEA mode rg \<Longrightarrow> state_io_rel R' (makeMOVEtoSR mode rg)"
    "state_io_rel R' opMOVEtoUSP" "state_io_rel R' opMOVEfromUSP"
    "state_io_rel R' opANDItoCCR" "state_io_rel R' opORItoCCR" "state_io_rel R' opEORItoCCR"
    "state_io_rel R' opANDItoSR" "state_io_rel R' opORItoSR" "state_io_rel R' opEORItoSR"
    "state_io_rel R' opSTOP" "state_io_rel R' opRESET" for mode rg
    by ((rule trap_weaken, (rule io; assumption?)) | (rule priv, auto simp: privileged_def))+
  have "handles R' registerSTOP" "handles R' registerRESET" "handles R' registerAndiOriEoriSRCCR"
    by (rule handlesI; auto simp: registerSTOP_def registerRESET_def registerAndiOriEoriSRCCR_def
      intro: ops)+
  moreover have "handles R' registerMoveToFromSR"
    by (rule handlesI)
      (auto simp: registerMoveToFromSR_def split: if_splits intro!: ops rangeIs)
  ultimately show ?thesis
    by (simp add: init_ctrl_def handles_traps handles_ctrl [THEN handles_weaken] weaker)
qed

end

end
