(* ===== verification/Ops_Logic.thy ===== *)
theory Ops_Logic
  imports M68k_Ops
begin

text \<open>
  The logical instructions and the shifts and rotates of \<open>ops_logic.go\<close>: AND, ANDI, OR, ORI,
  EOR, EORI, NOT, TST, TAS, and ASL, ASR, LSL, LSR, ROL, ROR, ROXL, ROXR.
\<close>

subsection \<open>AND and ANDI\<close>

definition makeANDtoReg :: "u16 \<Rightarrow> u16 \<Rightarrow> u16 \<Rightarrow> 'b opFunc" where
  "makeANDtoReg dn mode rg =
    (let read = makeEARead mode rg;
         (eaBase, eaLong) = eaFetchConst mode rg;
         isMem = (mode \<ge> 2 \<and> \<not> (mode = 7 \<and> rg = 4))
     in do {
       i \<leftarrow> gets ir;
       let sz = sizeEncoding (drop_bit 6 i AND 3);
       s \<leftarrow> read sz;
       dv \<leftarrow> getD (unat dn);
       let result = s AND (dv AND Mask sz);
       setFlagsLogical result sz;
       storeD (unat dn) sz result;
       (if sz \<noteq> sizeLong then addCycles (4 + eaBase)
        else if isMem then addCycles (6 + eaBase + eaLong)
        else addCycles (8 + eaBase + eaLong)) })"

definition makeANDtoEA :: "u16 \<Rightarrow> u16 \<Rightarrow> u16 \<Rightarrow> 'b opFunc" where
  "makeANDtoEA dn mode rg =
    (let addr = makeEAMemAddr mode rg;
         (eaBase, eaLong) = eaFetchConst mode rg
     in do {
       i \<leftarrow> gets ir;
       let sz = sizeEncoding ((drop_bit 6 i AND 7) - 4);
       a \<leftarrow> addr sz;
       v \<leftarrow> readBus sz a;
       dv \<leftarrow> getD (unat dn);
       let result = v AND (dv AND Mask sz);
       setFlagsLogical result sz;
       writeBus sz a result;
       (if sz = sizeLong then addCycles (12 + eaBase + eaLong) else addCycles (8 + eaBase)) })"

definition registerAND :: "'b stores" where
  "registerAND = concat
     [[(0xC000 OR push_bit 9 dn OR push_bit 6 szBits OR push_bit 3 mode OR rg,
        makeANDtoReg dn mode rg).
         mode \<leftarrow> range16 0 8, mode \<noteq> 1, rg \<leftarrow> range16 0 8, \<not> (mode = 7 \<and> rg > 4)] @
      [(0xC000 OR push_bit 9 dn OR push_bit 6 (szBits + 4) OR push_bit 3 mode OR rg,
        makeANDtoEA dn mode rg).
         mode \<leftarrow> range16 2 8, rg \<leftarrow> range16 0 8, \<not> (mode = 7 \<and> rg > 1)].
      dn \<leftarrow> range16 0 8, szBits \<leftarrow> range16 0 3]"

definition makeANDI :: "u16 \<Rightarrow> u16 \<Rightarrow> 'b opFunc" where
  "makeANDI mode rg =
    (if mode = 0 then do {
       i \<leftarrow> gets ir;
       let sz = sizeEncoding (drop_bit 6 i AND 3);
       imm \<leftarrow> fetchImm sz;
       dv \<leftarrow> getD (unat rg);
       let result = (dv AND Mask sz) AND imm;
       setFlagsLogical result sz;
       storeD (unat rg) sz result;
       (if sz = sizeLong then addCycles 16 else addCycles 8) }
     else
       (let addr = makeEAMemAddr mode rg;
            (eaBase, eaLong) = eaFetchConst mode rg
        in do {
          i \<leftarrow> gets ir;
          let sz = sizeEncoding (drop_bit 6 i AND 3);
          imm \<leftarrow> fetchImm sz;
          a \<leftarrow> addr sz;
          v \<leftarrow> readBus sz a;
          let result = v AND imm;
          setFlagsLogical result sz;
          writeBus sz a result;
          (if sz = sizeLong then addCycles (20 + eaBase + eaLong) else addCycles (12 + eaBase)) }))"

definition registerANDI :: "'b stores" where
  "registerANDI =
     [(0x0200 OR push_bit 6 szBits OR push_bit 3 mode OR rg, makeANDI mode rg).
        szBits \<leftarrow> range16 0 3, mode \<leftarrow> range16 0 8, mode \<noteq> 1, rg \<leftarrow> range16 0 8,
        \<not> (mode = 7 \<and> rg > 1)]"

subsection \<open>OR and ORI\<close>

definition makeORtoReg :: "u16 \<Rightarrow> u16 \<Rightarrow> u16 \<Rightarrow> 'b opFunc" where
  "makeORtoReg dn mode rg =
    (let read = makeEARead mode rg;
         (eaBase, eaLong) = eaFetchConst mode rg;
         isMem = (mode \<ge> 2 \<and> \<not> (mode = 7 \<and> rg = 4))
     in do {
       i \<leftarrow> gets ir;
       let sz = sizeEncoding (drop_bit 6 i AND 3);
       s \<leftarrow> read sz;
       dv \<leftarrow> getD (unat dn);
       let result = s OR (dv AND Mask sz);
       setFlagsLogical result sz;
       storeD (unat dn) sz result;
       (if sz \<noteq> sizeLong then addCycles (4 + eaBase)
        else if isMem then addCycles (6 + eaBase + eaLong)
        else addCycles (8 + eaBase + eaLong)) })"

definition makeORtoEA :: "u16 \<Rightarrow> u16 \<Rightarrow> u16 \<Rightarrow> 'b opFunc" where
  "makeORtoEA dn mode rg =
    (let addr = makeEAMemAddr mode rg;
         (eaBase, eaLong) = eaFetchConst mode rg
     in do {
       i \<leftarrow> gets ir;
       let sz = sizeEncoding ((drop_bit 6 i AND 7) - 4);
       a \<leftarrow> addr sz;
       v \<leftarrow> readBus sz a;
       dv \<leftarrow> getD (unat dn);
       let result = v OR (dv AND Mask sz);
       setFlagsLogical result sz;
       writeBus sz a result;
       (if sz = sizeLong then addCycles (12 + eaBase + eaLong) else addCycles (8 + eaBase)) })"

definition registerOR :: "'b stores" where
  "registerOR = concat
     [[(0x8000 OR push_bit 9 dn OR push_bit 6 szBits OR push_bit 3 mode OR rg,
        makeORtoReg dn mode rg).
         mode \<leftarrow> range16 0 8, mode \<noteq> 1, rg \<leftarrow> range16 0 8, \<not> (mode = 7 \<and> rg > 4)] @
      [(0x8000 OR push_bit 9 dn OR push_bit 6 (szBits + 4) OR push_bit 3 mode OR rg,
        makeORtoEA dn mode rg).
         mode \<leftarrow> range16 2 8, rg \<leftarrow> range16 0 8, \<not> (mode = 7 \<and> rg > 1)].
      dn \<leftarrow> range16 0 8, szBits \<leftarrow> range16 0 3]"

definition makeORI :: "u16 \<Rightarrow> u16 \<Rightarrow> 'b opFunc" where
  "makeORI mode rg =
    (if mode = 0 then do {
       i \<leftarrow> gets ir;
       let sz = sizeEncoding (drop_bit 6 i AND 3);
       imm \<leftarrow> fetchImm sz;
       dv \<leftarrow> getD (unat rg);
       let result = (dv AND Mask sz) OR imm;
       setFlagsLogical result sz;
       storeD (unat rg) sz result;
       (if sz = sizeLong then addCycles 16 else addCycles 8) }
     else
       (let addr = makeEAMemAddr mode rg;
            (eaBase, eaLong) = eaFetchConst mode rg
        in do {
          i \<leftarrow> gets ir;
          let sz = sizeEncoding (drop_bit 6 i AND 3);
          imm \<leftarrow> fetchImm sz;
          a \<leftarrow> addr sz;
          v \<leftarrow> readBus sz a;
          let result = v OR imm;
          setFlagsLogical result sz;
          writeBus sz a result;
          (if sz = sizeLong then addCycles (20 + eaBase + eaLong) else addCycles (12 + eaBase)) }))"

definition registerORI :: "'b stores" where
  "registerORI =
     [(0x0000 OR push_bit 6 szBits OR push_bit 3 mode OR rg, makeORI mode rg).
        szBits \<leftarrow> range16 0 3, mode \<leftarrow> range16 0 8, mode \<noteq> 1, rg \<leftarrow> range16 0 8,
        \<not> (mode = 7 \<and> rg > 1)]"

subsection \<open>EOR and EORI\<close>

definition makeEOR :: "u16 \<Rightarrow> u16 \<Rightarrow> u16 \<Rightarrow> 'b opFunc" where
  "makeEOR dn mode rg =
    (if mode = 0 then do {
       i \<leftarrow> gets ir;
       let sz = sizeEncoding ((drop_bit 6 i AND 7) - 4);
       rv \<leftarrow> getD (unat rg);
       dv \<leftarrow> getD (unat dn);
       let result = (rv AND Mask sz) XOR (dv AND Mask sz);
       setFlagsLogical result sz;
       storeD (unat rg) sz result;
       (if sz = sizeLong then addCycles 8 else addCycles 4) }
     else
       (let addr = makeEAMemAddr mode rg;
            (eaBase, eaLong) = eaFetchConst mode rg
        in do {
          i \<leftarrow> gets ir;
          let sz = sizeEncoding ((drop_bit 6 i AND 7) - 4);
          a \<leftarrow> addr sz;
          v \<leftarrow> readBus sz a;
          dv \<leftarrow> getD (unat dn);
          let result = v XOR (dv AND Mask sz);
          setFlagsLogical result sz;
          writeBus sz a result;
          (if sz = sizeLong then addCycles (12 + eaBase + eaLong) else addCycles (8 + eaBase)) }))"

definition registerEOR :: "'b stores" where
  "registerEOR =
     [(0xB000 OR push_bit 9 dn OR push_bit 6 (szBits + 4) OR push_bit 3 mode OR rg,
       makeEOR dn mode rg).
        dn \<leftarrow> range16 0 8, szBits \<leftarrow> range16 0 3, mode \<leftarrow> range16 0 8, mode \<noteq> 1,
        rg \<leftarrow> range16 0 8, \<not> (mode = 7 \<and> rg > 1)]"

definition makeEORI :: "u16 \<Rightarrow> u16 \<Rightarrow> 'b opFunc" where
  "makeEORI mode rg =
    (if mode = 0 then do {
       i \<leftarrow> gets ir;
       let sz = sizeEncoding (drop_bit 6 i AND 3);
       imm \<leftarrow> fetchImm sz;
       dv \<leftarrow> getD (unat rg);
       let result = (dv AND Mask sz) XOR imm;
       setFlagsLogical result sz;
       storeD (unat rg) sz result;
       (if sz = sizeLong then addCycles 16 else addCycles 8) }
     else
       (let addr = makeEAMemAddr mode rg;
            (eaBase, eaLong) = eaFetchConst mode rg
        in do {
          i \<leftarrow> gets ir;
          let sz = sizeEncoding (drop_bit 6 i AND 3);
          imm \<leftarrow> fetchImm sz;
          a \<leftarrow> addr sz;
          v \<leftarrow> readBus sz a;
          let result = v XOR imm;
          setFlagsLogical result sz;
          writeBus sz a result;
          (if sz = sizeLong then addCycles (20 + eaBase + eaLong) else addCycles (12 + eaBase)) }))"

definition registerEORI :: "'b stores" where
  "registerEORI =
     [(0x0A00 OR push_bit 6 szBits OR push_bit 3 mode OR rg, makeEORI mode rg).
        szBits \<leftarrow> range16 0 3, mode \<leftarrow> range16 0 8, mode \<noteq> 1, rg \<leftarrow> range16 0 8,
        \<not> (mode = 7 \<and> rg > 1)]"

subsection \<open>NOT, TST and TAS\<close>

definition makeNOT :: "u16 \<Rightarrow> u16 \<Rightarrow> 'b opFunc" where
  "makeNOT mode rg =
    (if mode = 0 then do {
       i \<leftarrow> gets ir;
       let sz = sizeEncoding (drop_bit 6 i AND 3);
       dv \<leftarrow> getD (unat rg);
       let result = NOT dv AND Mask sz;
       setFlagsLogical result sz;
       storeD (unat rg) sz result;
       (if sz = sizeLong then addCycles 6 else addCycles 4) }
     else
       (let addr = makeEAMemAddr mode rg;
            (eaBase, eaLong) = eaFetchConst mode rg
        in do {
          i \<leftarrow> gets ir;
          let sz = sizeEncoding (drop_bit 6 i AND 3);
          a \<leftarrow> addr sz;
          v \<leftarrow> readBus sz a;
          let result = NOT v AND Mask sz;
          setFlagsLogical result sz;
          writeBus sz a result;
          (if sz = sizeLong then addCycles (12 + eaBase + eaLong) else addCycles (8 + eaBase)) }))"

definition registerNOT :: "'b stores" where
  "registerNOT =
     [(0x4600 OR push_bit 6 szBits OR push_bit 3 mode OR rg, makeNOT mode rg).
        szBits \<leftarrow> range16 0 3, mode \<leftarrow> range16 0 8, mode \<noteq> 1, rg \<leftarrow> range16 0 8,
        \<not> (mode = 7 \<and> rg > 1)]"

definition makeTST :: "u16 \<Rightarrow> u16 \<Rightarrow> 'b opFunc" where
  "makeTST mode rg =
    (if mode = 0 then do {
       i \<leftarrow> gets ir;
       let sz = sizeEncoding (drop_bit 6 i AND 3);
       dv \<leftarrow> getD (unat rg);
       setFlagsLogical (dv AND Mask sz) sz;
       addCycles 4 }
     else
       (let read = makeEARead mode rg;
            (eaBase, eaLong) = eaFetchConst mode rg
        in do {
          i \<leftarrow> gets ir;
          let sz = sizeEncoding (drop_bit 6 i AND 3);
          val \<leftarrow> read sz;
          setFlagsLogical val sz;
          addCycles (4 + eaBase);
          whenM (sz = sizeLong) (addCycles eaLong) }))"

definition registerTST :: "'b stores" where
  "registerTST =
     [(0x4A00 OR push_bit 6 szBits OR push_bit 3 mode OR rg, makeTST mode rg).
        szBits \<leftarrow> range16 0 3, mode \<leftarrow> range16 0 8, mode \<noteq> 1, rg \<leftarrow> range16 0 8,
        \<not> (mode = 7 \<and> rg > 1)]"

definition makeTAS :: "u16 \<Rightarrow> u16 \<Rightarrow> 'b opFunc" where
  "makeTAS mode rg =
    (if mode = 0 then do {
       dv \<leftarrow> getD (unat rg);
       let val = dv AND 0xFF;
       setFlagsLogical val sizeByte;
       putD (unat rg) ((dv AND 0xFFFFFF00) OR (val OR 0x80));
       addCycles 4 }
     else
       (let addr = makeEAMemAddr mode rg;
            (eaBase, _) = eaFetchConst mode rg
        in do {
          a \<leftarrow> addr sizeByte;
          val \<leftarrow> readBus sizeByte a;
          setFlagsLogical val sizeByte;
          writeBus sizeByte a (val OR 0x80);
          addCycles (10 + eaBase) }))"

definition registerTAS :: "'b stores" where
  "registerTAS =
     [(0x4AC0 OR push_bit 3 mode OR rg, makeTAS mode rg).
        mode \<leftarrow> range16 0 8, mode \<noteq> 1, rg \<leftarrow> range16 0 8, \<not> (mode = 7 \<and> rg > 1)]"

subsection \<open>Shifts and rotates\<close>

text \<open>
  One iteration of each loop of \<open>doShift\<close>; the loops run \<open>count\<close> times. A Go shift by an
  amount of 32 or more, also one that comes from a wrapped subtraction, gives 0, as
  \<open>push_bit\<close> and \<open>drop_bit\<close> do.
\<close>

definition aslStep :: "msize \<Rightarrow> u32 \<Rightarrow> ('b, u32) cpuM" where
  "aslStep sz result = do {
     let msbit = result AND MSB sz;
     let result = push_bit 1 result AND Mask sz;
     whenM (result AND MSB sz \<noteq> msbit) (srSet flagV);
     return result }"

definition roxlStep :: "msize \<Rightarrow> u32 \<Rightarrow> ('b, u32) cpuM" where
  "roxlStep sz result = do {
     x \<leftarrow> extendFlag;
     (if result AND MSB sz \<noteq> 0 then srSet (flagX OR flagC) else srClr (flagX OR flagC));
     return ((push_bit 1 result OR x) AND Mask sz) }"

definition roxrStep :: "msize \<Rightarrow> u32 \<Rightarrow> ('b, u32) cpuM" where
  "roxrStep sz result = do {
     x \<leftarrow> extendFlag;
     (if result AND 1 \<noteq> 0 then srSet (flagX OR flagC) else srClr (flagX OR flagC));
     return (drop_bit 1 result OR push_bit (unat (Bits sz - 1)) x) }"

definition setCX :: "bool \<Rightarrow> ('b, unit) cpuM" where
  "setCX b = (if b then srSet (flagC OR flagX) else srClr (flagC OR flagX))"

definition doShift :: "u32 \<Rightarrow> u32 \<Rightarrow> u16 \<Rightarrow> u16 \<Rightarrow> msize \<Rightarrow> ('b, u32) cpuM" where
  "doShift val count dir typ sz =
    (let msb = MSB sz; mask = Mask sz in
     if count = 0 then do {
       setFlagsLogical val sz;
       whenM (typ = 2) (do {
         sr \<leftarrow> getSR;
         whenM (sr AND flagX \<noteq> 0) (srSet flagC) });
       return val }
     else do {
       result \<leftarrow>
         (if typ = 0 then
            (if dir = 1 then do {
               srClr flagV;
               result \<leftarrow> foldM (\<lambda>_ r. aslStep sz r) [0..<unat count] val;
               let lastOut = drop_bit (unat (Bits sz - count)) val AND 1;
               setCX (lastOut \<noteq> 0);
               return result }
             else do {
               let sign = val AND msb;
               let result = ((\<lambda>r. drop_bit 1 r OR sign) ^^ unat count) val AND mask;
               let lastOut = (if count \<ge> Bits sz then drop_bit (unat (Bits sz - 1)) val AND 1
                              else drop_bit (unat (count - 1)) val AND 1);
               setCX (lastOut \<noteq> 0);
               srClr flagV;
               return result })
          else if typ = 1 then do {
            result \<leftarrow>
              (if dir = 1 then do {
                 let lastOut = drop_bit (unat (Bits sz - count)) val AND 1;
                 setCX (lastOut \<noteq> 0);
                 return (push_bit (unat count) val AND mask) }
               else do {
                 let lastOut = drop_bit (unat (count - 1)) val AND 1;
                 setCX (lastOut \<noteq> 0);
                 return (drop_bit (unat count) (val AND mask)) });
            srClr flagV;
            return result }
          else if typ = 2 then do {
            result \<leftarrow>
              (if dir = 1 then foldM (\<lambda>_ r. roxlStep sz r) [0..<unat count] val
               else do {
                 result \<leftarrow> foldM (\<lambda>_ r. roxrStep sz r) [0..<unat count] val;
                 return (result AND mask) });
            srClr flagV;
            return result }
          else if typ = 3 then do {
            shift \<leftarrow> (if Bits sz = 0 then goPanic 0 else return (count mod Bits sz));
            let result = (if dir = 1
              then (push_bit (unat shift) val OR drop_bit (unat (Bits sz - shift)) val) AND mask
              else (drop_bit (unat shift) val OR push_bit (unat (Bits sz - shift)) val) AND mask);
            (if dir = 1 then (if result AND 1 \<noteq> 0 then srSet flagC else srClr flagC)
             else (if result AND msb \<noteq> 0 then srSet flagC else srClr flagC));
            srClr flagV;
            return result }
          else return 0);
       srClr (flagN OR flagZ);
       whenM (result AND msb \<noteq> 0) (srSet flagN);
       whenM (result AND mask = 0) (srSet flagZ);
       return result })"

definition opShiftReg :: "'b opFunc" where
  "opShiftReg = do {
     i \<leftarrow> gets ir;
     let cnt = drop_bit 9 i AND 7;
     let dir = drop_bit 8 i AND 1;
     let sz = sizeEncoding (drop_bit 6 i AND 3);
     let irb = drop_bit 5 i AND 1;
     let typ = drop_bit 3 i AND 3;
     let dreg = i AND 7;
     count \<leftarrow> (if irb \<noteq> 0 then do { cv \<leftarrow> getD (unat cnt); return (cv AND 63) }
               else return (if (ucast cnt :: u32) = 0 then 8 else ucast cnt));
     dv \<leftarrow> getD (unat dreg);
     let val = dv AND Mask sz;
     result \<leftarrow> doShift val count dir typ sz;
     storeD (unat dreg) sz result;
     addCycles (6 + 2 * ucast count);
     whenM (sz = sizeLong) (addCycles 2) }"

definition makeShiftMem :: "u16 \<Rightarrow> u16 \<Rightarrow> 'b opFunc" where
  "makeShiftMem mode rg =
    (let addr = makeEAMemAddr mode rg;
         (eaBase, _) = eaFetchConst mode rg
     in do {
       i \<leftarrow> gets ir;
       let dir = drop_bit 8 i AND 1;
       let typ = drop_bit 9 i AND 3;
       a \<leftarrow> addr sizeWord;
       val \<leftarrow> readBus sizeWord a;
       result \<leftarrow> doShift val 1 dir typ sizeWord;
       writeBus sizeWord a result;
       addCycles (8 + eaBase) })"

definition registerShifts :: "'b stores" where
  "registerShifts =
     [(0xE000 OR push_bit 9 cnt OR push_bit 8 dir OR push_bit 6 szBits OR push_bit 5 irb OR
       push_bit 3 typ OR dreg, opShiftReg).
        cnt \<leftarrow> range16 0 8, dir \<leftarrow> range16 0 2, szBits \<leftarrow> range16 0 3, irb \<leftarrow> range16 0 2,
        typ \<leftarrow> range16 0 4, dreg \<leftarrow> range16 0 8] @
     [(0xE0C0 OR push_bit 9 typ OR push_bit 8 dir OR push_bit 3 mode OR rg, makeShiftMem mode rg).
        dir \<leftarrow> range16 0 2, typ \<leftarrow> range16 0 4, mode \<leftarrow> range16 2 8, rg \<leftarrow> range16 0 8,
        \<not> (mode = 7 \<and> rg > 1)]"

definition init_logic :: "'b stores" where
  "init_logic = registerAND @ registerANDI @ registerOR @ registerORI @ registerEOR @
     registerEORI @ registerNOT @ registerTST @ registerTAS @ registerShifts"

subsection \<open>The handlers respect the CPU contract\<close>

lemma shift_size:
  fixes cnt dir szBits irb ty dr :: u16
  assumes "cnt < 8" "dir < 2" "szBits < 3" "irb < 2" "ty < 4" "dr < 8"
  shows "sizeEncoding (drop_bit 6 (0xE000 OR push_bit 9 cnt OR push_bit 8 dir OR
    push_bit 6 szBits OR push_bit 5 irb OR push_bit 3 ty OR dr) AND 3) \<noteq> sizeZero"
  using assms by (auto simp: sizeEncoding_def bits16 dest!: lessDs)

context cpu_frame
begin

lemma io_makeANDtoReg [io]: "dn < 8 \<Longrightarrow> srcEA mode rg \<Longrightarrow> state_io_rel R (makeANDtoReg dn mode rg)"
  unfolding makeANDtoReg_def Let_def split_def by (intro io; simp add: fields)

lemma io_makeANDtoEA [io]: "dn < 8 \<Longrightarrow> memEA mode rg \<Longrightarrow> state_io_rel R (makeANDtoEA dn mode rg)"
  unfolding makeANDtoEA_def Let_def split_def by (intro io; simp add: fields)

lemma io_makeORtoReg [io]: "dn < 8 \<Longrightarrow> srcEA mode rg \<Longrightarrow> state_io_rel R (makeORtoReg dn mode rg)"
  unfolding makeORtoReg_def Let_def split_def by (intro io; simp add: fields)

lemma io_makeORtoEA [io]: "dn < 8 \<Longrightarrow> memEA mode rg \<Longrightarrow> state_io_rel R (makeORtoEA dn mode rg)"
  unfolding makeORtoEA_def Let_def split_def by (intro io; simp add: fields)

lemma io_makeEOR [io]: "dn < 8 \<Longrightarrow> altEA mode rg \<Longrightarrow> state_io_rel R (makeEOR dn mode rg)"
  unfolding makeEOR_def Let_def split_def by (intro io; simp add: fields)

lemma io_makeANDI [io]: "altEA mode rg \<Longrightarrow> state_io_rel R (makeANDI mode rg)"
  unfolding makeANDI_def Let_def split_def by (intro io; simp add: fields)

lemma io_makeORI [io]: "altEA mode rg \<Longrightarrow> state_io_rel R (makeORI mode rg)"
  unfolding makeORI_def Let_def split_def by (intro io; simp add: fields)

lemma io_makeEORI [io]: "altEA mode rg \<Longrightarrow> state_io_rel R (makeEORI mode rg)"
  unfolding makeEORI_def Let_def split_def by (intro io; simp add: fields)

lemma io_makeNOT [io]: "altEA mode rg \<Longrightarrow> state_io_rel R (makeNOT mode rg)"
  unfolding makeNOT_def Let_def split_def by (intro io; simp add: fields)

lemma io_makeTAS [io]: "altEA mode rg \<Longrightarrow> state_io_rel R (makeTAS mode rg)"
  unfolding makeTAS_def Let_def split_def by (intro io; simp add: fields)

lemma io_makeTST [io]: "srcEA mode rg \<Longrightarrow> state_io_rel R (makeTST mode rg)"
  unfolding makeTST_def Let_def split_def by (intro io; simp add: fields)

lemma io_aslStep [io]: "state_io_rel R (aslStep sz r)"
  unfolding aslStep_def Let_def split_def by (intro io; simp add: fields)

lemma io_roxlStep [io]: "state_io_rel R (roxlStep sz r)"
  unfolding roxlStep_def Let_def split_def by (intro io; simp add: fields)

lemma io_roxrStep [io]: "state_io_rel R (roxrStep sz r)"
  unfolding roxrStep_def Let_def split_def by (intro io; simp add: fields)

lemma io_setCX [io]: "state_io_rel R (setCX b)"
  unfolding setCX_def Let_def split_def by (intro io; simp add: fields)

lemma io_doShift [io]: "sz \<noteq> sizeZero \<Longrightarrow> state_io_rel R (doShift val count dir typ sz)"
  unfolding doShift_def Let_def by (intro io; simp add: Bits_eq_0)

lemma io_makeShiftMem [io]: "memEA mode rg \<Longrightarrow> state_io_rel R (makeShiftMem mode rg)"
  unfolding makeShiftMem_def Let_def split_def by (intro io; simp add: fields)

text \<open>
  The size field of a register shift is never 3, so the rotation count is not reduced
  modulo 0.
\<close>

lemma opShiftReg_at:
  assumes "sizeEncoding (drop_bit 6 (ir c) AND 3) \<noteq> sizeZero"
  shows "R c (snd (run_state opShiftReg c))"
proof -
  define rest where "rest = (\<lambda>i. do {
     let cnt = drop_bit 9 i AND 7;
     let dir = drop_bit 8 i AND 1;
     let sz = sizeEncoding (drop_bit 6 i AND 3);
     let irb = drop_bit 5 i AND 1;
     let typ = drop_bit 3 i AND 3;
     let dreg = i AND 7;
     count \<leftarrow> (if irb \<noteq> 0 then do { cv \<leftarrow> getD (unat cnt); return (cv AND 63) }
               else return (if (ucast cnt :: u32) = 0 then 8 else ucast cnt));
     dv \<leftarrow> getD (unat dreg);
     let val = dv AND Mask sz;
     result \<leftarrow> doShift val count dir typ sz;
     storeD (unat dreg) sz result;
     addCycles (6 + 2 * ucast count);
     whenM (sz = sizeLong) (addCycles 2) } :: ('b, unit) cpuM)"
  have "state_io_rel R (rest (ir c))"
    unfolding rest_def Let_def by (intro io; simp add: assms)
  moreover have "run_state opShiftReg c = run_state (rest (ir c)) c"
    unfolding opShiftReg_def rest_def by simp
  ultimately show ?thesis
    by (simp only: state_io_rel_def)
qed

lemma handles_registerShifts: "handles R registerShifts"
proof -
  have reg: "R c (snd (run_state opShiftReg c))"
    if "ir c = 0xE000 OR push_bit 9 cnt OR push_bit 8 dir OR push_bit 6 szBits OR push_bit 5 irb OR
        push_bit 3 ty OR dr"
      and "cnt < 8" "dir < 2" "szBits < 3" "irb < 2" "ty < 4" "dr < 8"
    for c cnt dir szBits irb ty dr
    by (rule opShiftReg_at) (unfold that(1), rule shift_size, fact+)
  show ?thesis
    unfolding registerShifts_def handles_append
  proof (rule conjI)
    show "handles R [(0xE000 OR push_bit 9 cnt OR push_bit 8 dir OR push_bit 6 szBits OR
        push_bit 5 irb OR push_bit 3 typ OR dreg, opShiftReg).
        cnt \<leftarrow> range16 0 8, dir \<leftarrow> range16 0 2, szBits \<leftarrow> range16 0 3, irb \<leftarrow> range16 0 2,
        typ \<leftarrow> range16 0 4, dreg \<leftarrow> range16 0 8]"
      unfolding handles_def by (auto intro: reg)
  next
    show "handles R [(0xE0C0 OR push_bit 9 typ OR push_bit 8 dir OR push_bit 3 mode OR rg,
        makeShiftMem mode rg).
        dir \<leftarrow> range16 0 2, typ \<leftarrow> range16 0 4, mode \<leftarrow> range16 2 8, rg \<leftarrow> range16 0 8,
        \<not> (mode = 7 \<and> rg > 1)]"
      by (rule handlesI) (auto split: if_splits intro!: io rangeIs)
  qed
qed

lemma handles_registerAND: "handles R registerAND"
  by (rule handlesI) (auto simp: registerAND_def split: if_splits intro!: io rangeIs)

lemma handles_registerANDI: "handles R registerANDI"
  by (rule handlesI) (auto simp: registerANDI_def split: if_splits intro!: io rangeIs)

lemma handles_registerOR: "handles R registerOR"
  by (rule handlesI) (auto simp: registerOR_def split: if_splits intro!: io rangeIs)

lemma handles_registerORI: "handles R registerORI"
  by (rule handlesI) (auto simp: registerORI_def split: if_splits intro!: io rangeIs)

lemma handles_registerEOR: "handles R registerEOR"
  by (rule handlesI) (auto simp: registerEOR_def split: if_splits intro!: io rangeIs)

lemma handles_registerEORI: "handles R registerEORI"
  by (rule handlesI) (auto simp: registerEORI_def split: if_splits intro!: io rangeIs)

lemma handles_registerNOT: "handles R registerNOT"
  by (rule handlesI) (auto simp: registerNOT_def split: if_splits intro!: io rangeIs)

lemma handles_registerTST: "handles R registerTST"
  by (rule handlesI) (auto simp: registerTST_def split: if_splits intro!: io rangeIs)

lemma handles_registerTAS: "handles R registerTAS"
  by (rule handlesI) (auto simp: registerTAS_def split: if_splits intro!: io rangeIs)

lemma handles_init_logic: "handles R init_logic"
  by (simp add: init_logic_def handles_registerAND handles_registerANDI handles_registerOR handles_registerORI handles_registerEOR handles_registerEORI handles_registerNOT handles_registerTST handles_registerTAS handles_registerShifts)

end

end
