(* ===== verification/Ops_Move.thy ===== *)
theory Ops_Move
  imports M68k_Ops
begin

text \<open>
  Data movement (\<open>ops_move.go\<close>): MOVE, MOVEA, MOVEQ, LEA, PEA, MOVEM, EXG, SWAP and MOVEP.
\<close>

subsection \<open>MOVE, MOVEA and MOVEQ\<close>

definition moveSizeMap :: "msize list" where
  "moveSizeMap = [sizeZero, sizeByte, sizeLong, sizeWord]"

lemma moveSizeMap_index [simp]: "unat (i AND 3 :: u16) < length moveSizeMap"
  using word_and_le1 [of i 3] by (simp add: moveSizeMap_def word_le_nat_alt)

definition makeMOVE :: "u16 \<Rightarrow> u16 \<Rightarrow> u16 \<Rightarrow> u16 \<Rightarrow> 'b opFunc" where
  "makeMOVE srcMode srcReg dstMode dstReg =
    (let read = makeEARead srcMode srcReg;
         (srcBase, srcLong) = eaFetchConst srcMode srcReg;
         (dstBase, dstLong) = eaWriteConst dstMode dstReg
     in if dstMode = 0 then do {
       i \<leftarrow> gets ir;
       sz \<leftarrow> goIndex sizeZero moveSizeMap (unat (drop_bit 12 i AND 3));
       val \<leftarrow> read sz;
       storeD (unat dstReg) sz val;
       setFlagsLogical val sz;
       addCycles (4 + srcBase + dstBase);
       whenM (sz = sizeLong) (addCycles (srcLong + dstLong)) }
     else
       (let dstAddr = makeEAMemAddr dstMode dstReg
        in do {
          i \<leftarrow> gets ir;
          sz \<leftarrow> goIndex sizeZero moveSizeMap (unat (drop_bit 12 i AND 3));
          val \<leftarrow> read sz;
          a \<leftarrow> dstAddr sz;
          writeBus sz a val;
          setFlagsLogical val sz;
          addCycles (4 + srcBase + dstBase);
          whenM (sz = sizeLong) (addCycles (srcLong + dstLong)) }))"

definition registerMOVE :: "'b stores" where
  "registerMOVE =
     [(szBits OR push_bit 9 dstReg OR push_bit 6 dstMode OR push_bit 3 srcMode OR srcReg,
       makeMOVE srcMode srcReg dstMode dstReg).
        szBits \<leftarrow> [0x1000, 0x2000, 0x3000], dstMode \<leftarrow> range16 0 8, dstMode \<noteq> 1,
        dstReg \<leftarrow> range16 0 8, \<not> (dstMode = 7 \<and> dstReg > 1),
        srcMode \<leftarrow> range16 0 8, srcReg \<leftarrow> range16 0 8, \<not> (srcMode = 7 \<and> srcReg > 4)]"

definition makeMOVEA :: "u16 \<Rightarrow> u16 \<Rightarrow> u16 \<Rightarrow> 'b opFunc" where
  "makeMOVEA an srcMode srcReg =
    (let read = makeEARead srcMode srcReg;
         (eaBase, eaLong) = eaFetchConst srcMode srcReg
     in do {
       i \<leftarrow> gets ir;
       sz \<leftarrow> goIndex sizeZero moveSizeMap (unat (drop_bit 12 i AND 3));
       val \<leftarrow> read sz;
       let val = (if sz = sizeWord then scast (ucast val :: u16) else val);
       putA (unat an) val;
       addCycles (4 + eaBase);
       whenM (sz = sizeLong) (addCycles eaLong) })"

definition registerMOVEA :: "'b stores" where
  "registerMOVEA =
     [(szBits OR push_bit 9 dstReg OR push_bit 6 1 OR push_bit 3 srcMode OR srcReg,
       makeMOVEA dstReg srcMode srcReg).
        szBits \<leftarrow> [0x2000, 0x3000], dstReg \<leftarrow> range16 0 8,
        srcMode \<leftarrow> range16 0 8, srcReg \<leftarrow> range16 0 8, \<not> (srcMode = 7 \<and> srcReg > 4)]"

definition opMOVEQ :: "'b opFunc" where
  "opMOVEQ = do {
     i \<leftarrow> gets ir;
     let dn = drop_bit 9 i AND 7;
     let dat = (ucast (i AND 0xFF) :: u8);
     putD (unat dn) (scast dat);
     dv \<leftarrow> getD (unat dn);
     setFlagsLogical dv sizeLong;
     addCycles 4 }"

definition registerMOVEQ :: "'b stores" where
  "registerMOVEQ =
     [(0x7000 OR push_bit 9 dn OR dat, opMOVEQ). dn \<leftarrow> range16 0 8, dat \<leftarrow> range16 0 256]"

subsection \<open>LEA and PEA\<close>

definition makeLEA :: "u16 \<Rightarrow> u16 \<Rightarrow> u16 \<Rightarrow> 'b opFunc" where
  "makeLEA an srcMode srcReg =
    (let addr = makeEAMemAddr srcMode srcReg;
         cyc = (if srcMode = 2 then 4 else if srcMode = 5 then 8 else if srcMode = 6 then 12
                else if srcMode = 7 then
                  (if srcReg = 0 \<or> srcReg = 2 then 8
                   else if srcReg = 1 \<or> srcReg = 3 then 12 else 0)
                else 0)
     in do {
       a \<leftarrow> addr sizeLong;
       putA (unat an) a;
       addCycles cyc })"

definition registerLEA :: "'b stores" where
  "registerLEA =
     [(0x41C0 OR push_bit 9 an OR push_bit 3 srcMode OR srcReg, makeLEA an srcMode srcReg).
        an \<leftarrow> range16 0 8, srcMode \<leftarrow> range16 2 8, \<not> (srcMode = 3 \<or> srcMode = 4),
        srcReg \<leftarrow> range16 0 8, \<not> (srcMode = 7 \<and> srcReg > 3)]"

definition makePEA :: "u16 \<Rightarrow> u16 \<Rightarrow> 'b opFunc" where
  "makePEA srcMode srcReg =
    (let addr = makeEAMemAddr srcMode srcReg;
         cyc = (if srcMode = 2 then 12 else if srcMode = 5 then 16 else if srcMode = 6 then 20
                else if srcMode = 7 then
                  (if srcReg = 0 \<or> srcReg = 2 then 16
                   else if srcReg = 1 \<or> srcReg = 3 then 20 else 0)
                else 0)
     in do {
       a \<leftarrow> addr sizeLong;
       pushLong a;
       addCycles cyc })"

definition registerPEA :: "'b stores" where
  "registerPEA =
     [(0x4840 OR push_bit 3 srcMode OR srcReg, makePEA srcMode srcReg).
        srcMode \<leftarrow> range16 2 8, \<not> (srcMode = 3 \<or> srcMode = 4),
        srcReg \<leftarrow> range16 0 8, \<not> (srcMode = 7 \<and> srcReg > 3)]"

subsection \<open>MOVEM\<close>

text \<open>
  The loops over the register list. \<open>getReg i\<close> and \<open>putReg i\<close> address the registers as the
  mask does: 0 to 7 are D0 to D7, 8 to 15 are A0 to A7.
\<close>

definition getReg :: "nat \<Rightarrow> ('b, u32) cpuM" where
  "getReg i = (if i < 8 then getD i else getA (i - 8))"

definition putReg :: "nat \<Rightarrow> u32 \<Rightarrow> ('b, unit) cpuM" where
  "putReg i v = (if i < 8 then putD i v else putA (i - 8) v)"

definition movemStorePre :: "u16 \<Rightarrow> msize \<Rightarrow> nat \<Rightarrow> u32 \<Rightarrow> ('b, u32) cpuM" where
  "movemStorePre rmask sz i addr =
    (if rmask AND push_bit i 1 \<noteq> 0 then do {
       let addr = addr - sizeU32 sz;
       let ri = 15 - i;
       v \<leftarrow> getReg ri;
       writeBus sz addr v;
       return addr }
     else return addr)"

definition movemStore :: "u16 \<Rightarrow> msize \<Rightarrow> nat \<Rightarrow> u32 \<Rightarrow> ('b, u32) cpuM" where
  "movemStore rmask sz i addr =
    (if rmask AND push_bit i 1 \<noteq> 0 then do {
       v \<leftarrow> getReg i;
       writeBus sz addr v;
       return (addr + sizeU32 sz) }
     else return addr)"

definition movemLoad :: "u16 \<Rightarrow> msize \<Rightarrow> nat \<Rightarrow> u32 \<Rightarrow> ('b, u32) cpuM" where
  "movemLoad rmask sz i addr =
    (if rmask AND push_bit i 1 \<noteq> 0 then do {
       val \<leftarrow> readBus sz addr;
       let val = (if sz = sizeWord then scast (ucast val :: u16) else val);
       putReg i val;
       return (addr + sizeU32 sz) }
     else return addr)"

definition OnesCount16 :: "u16 \<Rightarrow> nat" where
  "OnesCount16 x = length (filter (\<lambda>i. bit x i) [0..<16])"

definition movemBase :: "u16 \<Rightarrow> u8 \<Rightarrow> u8 \<Rightarrow> u64" where
  "movemBase dir mode rg =
    (if dir = 0 then
       (if mode = 2 \<or> mode = 4 then 8 else if mode = 5 then 12 else if mode = 6 then 14
        else if mode = 7 then (if rg = 0 then 12 else if rg = 1 then 16 else 0)
        else 0)
     else
       (if mode = 2 \<or> mode = 3 then 12 else if mode = 5 then 16 else if mode = 6 then 18
        else if mode = 7 then
          (if rg = 0 then 16 else if rg = 1 then 20 else if rg = 2 then 16
           else if rg = 3 then 18 else 0)
        else 0))"

definition opMOVEM :: "'b opFunc" where
  "opMOVEM = do {
     i \<leftarrow> gets ir;
     let dir = drop_bit 10 i AND 1;
     let szBit = drop_bit 6 i AND 1;
     let mode = (ucast (drop_bit 3 i AND 7) :: u8);
     let rg = (ucast (i AND 7) :: u8);
     let sz = (if szBit \<noteq> 0 then sizeLong else sizeWord);
     rmask \<leftarrow> fetchPC;
     (if dir = 0 then
        (if mode = 4 then do {
           addr \<leftarrow> getA (unat rg);
           addr \<leftarrow> foldM (movemStorePre rmask sz) [0..<16] addr;
           putA (unat rg) addr }
         else do {
           src \<leftarrow> resolveEA mode rg sz;
           _ \<leftarrow> foldM (movemStore rmask sz) [0..<16] (ea_address src);
           return () })
      else
        (if mode = 3 then do {
           addr \<leftarrow> getA (unat rg);
           addr \<leftarrow> foldM (movemLoad rmask sz) [0..<16] addr;
           putA (unat rg) addr }
         else do {
           src \<leftarrow> resolveEA mode rg sz;
           _ \<leftarrow> foldM (movemLoad rmask sz) [0..<16] (ea_address src);
           return () }));
     let n = of_nat (OnesCount16 rmask);
     let perReg = (if sz = sizeLong then 8 else 4);
     addCycles (movemBase dir mode rg + n * perReg) }"

definition registerMOVEM :: "'b stores" where
  "registerMOVEM =
     [(0x4880 OR push_bit 10 dir OR push_bit 6 szBit OR push_bit 3 mode OR rg, opMOVEM).
        dir \<leftarrow> range16 0 2, szBit \<leftarrow> range16 0 2, mode \<leftarrow> range16 2 8,
        \<not> (dir = 0 \<and> mode = 3), \<not> (dir = 1 \<and> mode = 4), mode \<noteq> 1,
        rg \<leftarrow> range16 0 8,
        \<not> (mode = 7 \<and> dir = 0 \<and> rg > 1), \<not> (mode = 7 \<and> dir = 1 \<and> rg > 3)]"

subsection \<open>EXG, SWAP and MOVEP\<close>

definition opEXG :: "'b opFunc" where
  "opEXG = do {
     i \<leftarrow> gets ir;
     let rx = drop_bit 9 i AND 7;
     let ry = i AND 7;
     let opmode = drop_bit 3 i AND 0x1F;
     (if opmode = 0x08 then do {
        y \<leftarrow> getD (unat ry);
        x \<leftarrow> getD (unat rx);
        putD (unat rx) y;
        putD (unat ry) x }
      else if opmode = 0x09 then do {
        y \<leftarrow> getA (unat ry);
        x \<leftarrow> getA (unat rx);
        putA (unat rx) y;
        putA (unat ry) x }
      else if opmode = 0x11 then do {
        y \<leftarrow> getA (unat ry);
        x \<leftarrow> getD (unat rx);
        putD (unat rx) y;
        putA (unat ry) x }
      else return ());
     addCycles 6 }"

definition registerEXG :: "'b stores" where
  "registerEXG = concat
     [[(0xC100 OR push_bit 9 rx OR 0x40 OR ry, opEXG),
       (0xC100 OR push_bit 9 rx OR 0x48 OR ry, opEXG),
       (0xC100 OR push_bit 9 rx OR 0x88 OR ry, opEXG)].
      rx \<leftarrow> range16 0 8, ry \<leftarrow> range16 0 8]"

definition opSWAP :: "'b opFunc" where
  "opSWAP = do {
     i \<leftarrow> gets ir;
     let dn = i AND 7;
     val \<leftarrow> getD (unat dn);
     putD (unat dn) ((drop_bit 16 val AND 0xFFFF) OR push_bit 16 (val AND 0xFFFF));
     dv \<leftarrow> getD (unat dn);
     setFlagsLogical dv sizeLong;
     addCycles 4 }"

definition registerSWAP :: "'b stores" where
  "registerSWAP = [(0x4840 OR dn, opSWAP). dn \<leftarrow> range16 0 8]"

definition opMOVEP :: "'b opFunc" where
  "opMOVEP = do {
     i \<leftarrow> gets ir;
     let dn = drop_bit 9 i AND 7;
     let an = i AND 7;
     let opmode = drop_bit 6 i AND 7;
     disp \<leftarrow> fetchPC;
     av \<leftarrow> getA (unat an);
     let addr = av + scast disp;
     if opmode = 4 then do {
       b0 \<leftarrow> readBus sizeByte addr;
       b1 \<leftarrow> readBus sizeByte (addr + 2);
       let val = push_bit 8 b0 OR b1;
       dv \<leftarrow> getD (unat dn);
       putD (unat dn) ((dv AND 0xFFFF0000) OR (val AND 0xFFFF));
       addCycles 16 }
     else if opmode = 5 then do {
       b0 \<leftarrow> readBus sizeByte addr;
       b1 \<leftarrow> readBus sizeByte (addr + 2);
       b2 \<leftarrow> readBus sizeByte (addr + 4);
       b3 \<leftarrow> readBus sizeByte (addr + 6);
       putD (unat dn) (push_bit 24 b0 OR push_bit 16 b1 OR push_bit 8 b2 OR b3);
       addCycles 24 }
     else if opmode = 6 then do {
       val \<leftarrow> getD (unat dn);
       writeBus sizeByte addr (drop_bit 8 val AND 0xFF);
       writeBus sizeByte (addr + 2) (val AND 0xFF);
       addCycles 16 }
     else if opmode = 7 then do {
       val \<leftarrow> getD (unat dn);
       writeBus sizeByte addr (drop_bit 24 val AND 0xFF);
       writeBus sizeByte (addr + 2) (drop_bit 16 val AND 0xFF);
       writeBus sizeByte (addr + 4) (drop_bit 8 val AND 0xFF);
       writeBus sizeByte (addr + 6) (val AND 0xFF);
       addCycles 24 }
     else return () }"

definition registerMOVEP :: "'b stores" where
  "registerMOVEP = concat
     [[(0x0108 OR push_bit 9 dn OR an, opMOVEP), (0x0148 OR push_bit 9 dn OR an, opMOVEP),
       (0x0188 OR push_bit 9 dn OR an, opMOVEP), (0x01C8 OR push_bit 9 dn OR an, opMOVEP)].
      dn \<leftarrow> range16 0 8, an \<leftarrow> range16 0 8]"

definition init_move :: "'b stores" where
  "init_move = registerMOVE @ registerMOVEA @ registerMOVEQ @ registerMOVEP @ registerLEA @
     registerPEA @ registerMOVEM @ registerEXG @ registerSWAP"

subsection \<open>The handlers respect the CPU contract\<close>

text \<open>The operands that MOVEM is registered with never reach the illegal case of \<open>resolveEA\<close>.\<close>

definition movemEA :: "u8 \<Rightarrow> u8 \<Rightarrow> bool" where
  "movemEA mode rg \<longleftrightarrow> mode \<in> {2, 3, 4, 5, 6} \<or> mode = 7 \<and> rg \<in> {0, 1, 2, 3}"

lemma movemEA_opcode:
  assumes "dir < 2" "szBit < 2" "2 \<le> mode" "mode < 8" "rg < 8"
    "\<not> (mode = 7 \<and> dir = 0 \<and> rg > 1)" "\<not> (mode = 7 \<and> dir = 1 \<and> rg > 3)"
    and "(op :: u16) = 0x4880 OR push_bit 10 dir OR push_bit 6 szBit OR push_bit 3 mode OR rg"
  shows "movemEA (ucast (drop_bit 3 op AND 7)) (ucast (op AND 7))"
proof -
  have "drop_bit 3 op AND 7 = mode \<and> op AND 7 = rg"
    unfolding assms(8) using assms(1,2,4,5) by (safe dest!: less_2D less_8D; simp add: bits16)
  then have f: "drop_bit 3 op AND 7 = mode" "op AND 7 = rg" by blast+
  have "dir = 0 \<or> dir = 1"
    using assms(1) by (auto simp: word_less_nat_alt less_2_cases_iff word_unat_eq_iff)
  then have "mode \<in> {2, 3, 4, 5, 6, 7}" "rg \<in> {0, 1, 2, 3} \<or> mode \<noteq> 7"
    using less_8_cases [OF assms(4)] less_8_cases [OF assms(5)] assms(3,6,7)
    by (auto simp: word_le_nat_alt word_less_nat_alt)
  then show ?thesis unfolding f movemEA_def by auto
qed

context cpu_frame
begin

lemma io_makeMOVE [io]: "srcEA srcMode srcReg \<Longrightarrow> altEA dstMode dstReg \<Longrightarrow> state_io_rel R (makeMOVE srcMode srcReg dstMode dstReg)"
  unfolding makeMOVE_def Let_def split_def by (intro io; simp add: fields)

lemma io_makeMOVEA [io]: "an < 8 \<Longrightarrow> srcEA srcMode srcReg \<Longrightarrow> state_io_rel R (makeMOVEA an srcMode srcReg)"
  unfolding makeMOVEA_def Let_def split_def by (intro io; simp add: fields)

lemma io_opMOVEQ [io]: "state_io_rel R (opMOVEQ)"
  unfolding opMOVEQ_def Let_def split_def by (intro io; simp add: fields)

lemma io_makeLEA [io]: "an < 8 \<Longrightarrow> memEA srcMode srcReg \<Longrightarrow> state_io_rel R (makeLEA an srcMode srcReg)"
  unfolding makeLEA_def Let_def split_def by (intro io; simp add: fields)

lemma io_makePEA [io]: "memEA srcMode srcReg \<Longrightarrow> state_io_rel R (makePEA srcMode srcReg)"
  unfolding makePEA_def Let_def split_def by (intro io; simp add: fields)

lemma io_getReg [io]: "i < 16 \<Longrightarrow> state_io_rel R (getReg i)"
  unfolding getReg_def Let_def split_def by (intro io; simp add: fields)

lemma io_putReg [io]: "i < 16 \<Longrightarrow> state_io_rel R (putReg i v)"
  unfolding putReg_def Let_def split_def by (intro io; simp add: fields)

lemma io_movemStorePre [io]: "i < 16 \<Longrightarrow> state_io_rel R (movemStorePre rmask sz i addr)"
  unfolding movemStorePre_def Let_def split_def by (intro io; simp add: fields)

lemma io_movemStore [io]: "i < 16 \<Longrightarrow> state_io_rel R (movemStore rmask sz i addr)"
  unfolding movemStore_def Let_def split_def by (intro io; simp add: fields)

lemma io_movemLoad [io]: "i < 16 \<Longrightarrow> state_io_rel R (movemLoad rmask sz i addr)"
  unfolding movemLoad_def Let_def split_def by (intro io; simp add: fields)

lemma io_opEXG [io]: "state_io_rel R (opEXG)"
  unfolding opEXG_def Let_def split_def by (intro io; simp add: fields)

lemma io_opSWAP [io]: "state_io_rel R (opSWAP)"
  unfolding opSWAP_def Let_def split_def by (intro io; simp add: fields)

lemma io_opMOVEP [io]: "state_io_rel R (opMOVEP)"
  unfolding opMOVEP_def Let_def split_def by (intro io; simp add: fields)

lemma handles_registerMOVE: "handles R registerMOVE"
  by (rule handlesI) (auto simp: registerMOVE_def split: if_splits intro!: io rangeIs)

lemma handles_registerMOVEA: "handles R registerMOVEA"
  by (rule handlesI) (auto simp: registerMOVEA_def split: if_splits intro!: io rangeIs)

lemma handles_registerMOVEQ: "handles R registerMOVEQ"
  by (rule handlesI) (auto simp: registerMOVEQ_def split: if_splits intro!: io rangeIs)

lemma handles_registerMOVEP: "handles R registerMOVEP"
  by (rule handlesI) (auto simp: registerMOVEP_def split: if_splits intro!: io rangeIs)

lemma handles_registerLEA: "handles R registerLEA"
  by (rule handlesI) (auto simp: registerLEA_def split: if_splits intro!: io rangeIs)

lemma handles_registerPEA: "handles R registerPEA"
  by (rule handlesI) (auto simp: registerPEA_def split: if_splits intro!: io rangeIs)

lemma io_opMOVEM:
  assumes "ir c = op" and "movemEA (ucast (drop_bit 3 op AND 7)) (ucast (op AND 7))"
  shows "R c (snd (run_state opMOVEM c))"
  unfolding opMOVEM_def Let_def
  by (rule io_at_ir [OF assms(1)]) (intro io; use assms(2) in \<open>auto simp: fields movemEA_def\<close>)

lemma handles_registerMOVEM: "handles R registerMOVEM"
  unfolding handles_def
proof (safe)
  fix h :: "'b opFunc" and c :: "'b CPU"
  assume "(ir c, h) \<in> set registerMOVEM"
  then obtain dir szBit mode rg where "dir < 2" "szBit < 2" "2 \<le> mode" "mode < 8" "rg < 8"
    "\<not> (mode = 7 \<and> dir = 0 \<and> rg > 1)" "\<not> (mode = 7 \<and> dir = 1 \<and> rg > 3)"
    "ir c = 0x4880 OR push_bit 10 dir OR push_bit 6 szBit OR push_bit 3 mode OR rg"
    and h: "h = opMOVEM"
    unfolding registerMOVEM_def by clarsimp
  then show "R c (snd (run_state h c))"
    unfolding h by (intro io_opMOVEM [OF refl] movemEA_opcode)
qed

lemma handles_registerEXG: "handles R registerEXG"
  by (rule handlesI) (auto simp: registerEXG_def split: if_splits intro!: io rangeIs)

lemma handles_registerSWAP: "handles R registerSWAP"
  by (rule handlesI) (auto simp: registerSWAP_def split: if_splits intro!: io rangeIs)

lemma handles_init_move: "handles R init_move"
  by (simp add: init_move_def handles_registerMOVE handles_registerMOVEA handles_registerMOVEQ handles_registerMOVEP handles_registerLEA handles_registerPEA handles_registerMOVEM handles_registerEXG handles_registerSWAP)

end

end
