(* ===== verification/M68k_Decode.thy ===== *)
theory M68k_Decode
  imports Ops_Arith Ops_Bcd Ops_Bit Ops_Branch Ops_Ctrl Ops_Logic Ops_Move
begin

text \<open>
  The opcode table of \<open>decode.go\<close>. Each \<open>ops_*.go\<close> file fills it in its \<open>init\<close> function; Go
  runs these functions in the order of the file names. A later store to the same entry
  replaces an earlier one, hence the reversal.
\<close>

definition all_stores :: "'b stores" where
  "all_stores = init_arith @ init_bcd @ init_bit @ init_branch @ init_ctrl @ init_logic @ init_move"

definition opcodeTable :: "u16 \<Rightarrow> 'b opFunc option" where
  "opcodeTable op = map_of (rev all_stores) op"

lemma opcodeTable_SomeD: "opcodeTable op = Some h \<Longrightarrow> (op, h) \<in> set all_stores"
  unfolding opcodeTable_def by (drule map_of_SomeD) simp

subsection \<open>Every entry of the table respects the CPU contract\<close>

text \<open>Privileged handlers need only respect a weaker relation \<open>R'\<close>.\<close>

locale cpu_frame_table = cpu_frame_trap R R' for R R' :: "'b CPU \<Rightarrow> 'b CPU \<Rightarrow> bool" +
  assumes io_priv: "m \<in> insert opRTE privileged \<Longrightarrow> state_io_rel R' m"
begin

lemmas handles_inits = handles_init_bcd handles_init_bit handles_init_logic handles_init_move

lemma handles_all_stores: "handles R' all_stores"
  using weaker io_priv
  by (simp add: all_stores_def handles_inits [THEN handles_weaken] handles_init_arith handles_init_branch
    handles_init_ctrl)

lemma handler_respects: "opcodeTable (ir c) = Some h \<Longrightarrow> R' c (snd (run_state h c))"
  by (rule handlesD [OF handles_all_stores opcodeTable_SomeD refl])

end

sublocale cpu_frame_sys \<subseteq> cpu_frame_table R R
  by unfold_locales (auto intro: io_opRTE io_privileged)

end
