(* ===== verification/M68k_Step.thy ===== *)
theory M68k_Step
  imports M68k_Decode
begin

text \<open>
  Instruction execution (\<open>Step\<close> and \<open>StepCycles\<close> of \<open>cpu.go\<close>). A Go \<open>int\<close> has 64 bits; it is an
  integer here, brought back into range by \<open>wrap64\<close> where the source computes with values the
  caller chooses.
\<close>

definition wrap64 :: "int \<Rightarrow> int" where
  "wrap64 k = signed_take_bit 63 k"

definition Step :: "('b, int) cpuM" where
  "Step = do {
     h \<leftarrow> gets halted;
     if h then return 0
     else do {
       before \<leftarrow> gets cycles;
       st \<leftarrow> gets stopped;
       if st then do {
         addCycles 4;
         checkInterrupt;
         cyc \<leftarrow> gets cycles;
         return (sint (cyc - before)) }
       else do {
         checkInterrupt;
         pc \<leftarrow> getPC;
         if pc AND 1 \<noteq> 0 then do { setHalted; return 0 }
         else do {
           modify (\<lambda>c. c\<lparr>prevPC := regPC (reg c)\<rparr>);
           op \<leftarrow> fetchPC;
           modify (\<lambda>c. c\<lparr>ir := op\<rparr>);
           modify (\<lambda>c. c\<lparr>reg := (reg c)\<lparr>regIR := ir c\<rparr>\<rparr>);
           i \<leftarrow> gets ir;
           (case opcodeTable i of
              None \<Rightarrow>
                (if drop_bit 12 i = 0xA then exception vecLineA
                 else if drop_bit 12 i = 0xF then exception vecLineF
                 else exception vecIllegalInstruction)
            | Some handler \<Rightarrow> handler);
           h \<leftarrow> gets halted;
           pc \<leftarrow> getPC;
           whenM (\<not> h \<and> pc AND 1 \<noteq> 0) setHalted;
           cyc \<leftarrow> gets cycles;
           return (sint (cyc - before)) } } } }"

definition StepCycles :: "int \<Rightarrow> ('b, int) cpuM" where
  "StepCycles budget = do {
     h \<leftarrow> gets halted;
     if h then return 0
     else do {
       def \<leftarrow> gets deficit;
       if def > 0 then
         (if budget \<ge> def then do {
            modify (\<lambda>c. c\<lparr>deficit := 0\<rparr>);
            return def }
          else do {
            modify (\<lambda>c. c\<lparr>deficit := wrap64 (deficit c - budget)\<rparr>);
            return budget })
       else do {
         cost \<leftarrow> Step;
         if cost \<le> budget then return cost
         else do {
           modify (\<lambda>c. c\<lparr>deficit := wrap64 (cost - budget)\<rparr>);
           return budget } } } }"

text \<open>The state after one step.\<close>

definition step :: "'b CPU \<Rightarrow> 'b CPU" where
  "step c = snd (run_state Step c)"

subsection \<open>The phases of a step\<close>

text \<open>
  \<open>dispatch\<close> runs the handler of an opcode and \<open>execute\<close> one whole instruction; \<open>run_Step\<close> splits
  \<open>Step\<close> into the interrupt check and the execution of an instruction.
\<close>

definition dispatch :: "u16 \<Rightarrow> 'b opFunc" where
  "dispatch i = (case opcodeTable i of
      None \<Rightarrow>
        (if drop_bit 12 i = 0xA then exception vecLineA
         else if drop_bit 12 i = 0xF then exception vecLineF
         else exception vecIllegalInstruction)
    | Some handler \<Rightarrow> handler)"

definition execute :: "'b opFunc" where
  "execute = do {
     modify (\<lambda>c. c\<lparr>prevPC := regPC (reg c)\<rparr>);
     op \<leftarrow> fetchPC;
     modify (\<lambda>c. c\<lparr>ir := op, reg := (reg c)\<lparr>regIR := op\<rparr>\<rparr>);
     dispatch op;
     h \<leftarrow> gets halted;
     pc \<leftarrow> getPC;
     whenM (\<not> h \<and> pc AND 1 \<noteq> 0) setHalted }"

text \<open>The check after an instruction: an odd program counter halts the CPU.\<close>

definition checkPC :: "'b CPU \<Rightarrow> 'b CPU" where
  "checkPC c = (if \<not> halted c \<and> regPC (reg c) AND 1 \<noteq> 0 then c\<lparr>halted := True\<rparr> else c)"

lemma run_Step:
  "run_state Step c =
    (if halted c then (0, c)
     else if stopped c then
       (let c' = snd (run_state checkInterrupt (c\<lparr>cycles := cycles c + 4\<rparr>))
        in (sint (cycles c' - cycles c), c'))
     else
       (let c1 = snd (run_state checkInterrupt c)
        in if regPC (reg c1) AND 1 \<noteq> 0 then (0, c1\<lparr>halted := True\<rparr>)
           else (let c2 = snd (run_state execute c1) in (sint (cycles c2 - cycles c), c2))))"
  unfolding Step_def dispatch_def [symmetric] execute_def
  by (simp add: addCycles_def setHalted_def getPC_def split_def Let_def)

lemma run_Step_snd:
  "snd (run_state Step c) =
    (if halted c then c
     else if stopped c then snd (run_state checkInterrupt (c\<lparr>cycles := cycles c + 4\<rparr>))
     else
       (let c1 = snd (run_state checkInterrupt c)
        in if regPC (reg c1) AND 1 \<noteq> 0 then c1\<lparr>halted := True\<rparr> else snd (run_state execute c1)))"
  by (simp add: run_Step Let_def)

lemma run_checkInterrupt:
  "run_state checkInterrupt c =
    (if pendingIPL c \<noteq> 0 \<and>
        (pendingIPL c > ucast (drop_bit 8 (regSR (reg c)) AND 7) \<or> pendingIPL c = 7)
     then run_state processInterrupt c else ((), c))"
  by (simp add: checkInterrupt_def getSR_def Let_def)

subsection \<open>Execution respects the CPU contract\<close>

text \<open>
  \<open>cpu_frame_step\<close> adds to the contract what \<open>Step\<close> itself does between instructions; then the
  whole of \<open>Step\<close> respects the relation.
\<close>

locale cpu_frame_step = cpu_frame_table R R for R :: "'b CPU \<Rightarrow> 'b CPU \<Rightarrow> bool" +
  assumes io_prevPC [io]: "state_io_rel R (modify (\<lambda>c. c\<lparr>prevPC := regPC (reg c)\<rparr>))"
    and io_ir [io]: "state_io_rel R (modify (\<lambda>c. c\<lparr>ir := op\<rparr>))"
    and io_regIR [io]: "state_io_rel R (modify (\<lambda>c. c\<lparr>reg := (reg c)\<lparr>regIR := ir c\<rparr>\<rparr>))"
    and io_processInterrupt [io]: "state_io_rel R processInterrupt"
begin

lemma io_checkInterrupt [io]: "state_io_rel R checkInterrupt"
  unfolding checkInterrupt_def Let_def by (intro io)

lemma io_dispatch:
  fixes k :: "unit \<Rightarrow> ('b, 'r) cpuM"
  assumes k: "\<And>x. state_io_rel R (k x)" and f: "\<And>i. state_io_rel R (f i)"
  shows "state_io_rel R (do { i \<leftarrow> gets ir;
    x \<leftarrow> (case opcodeTable i of None \<Rightarrow> f i | Some handler \<Rightarrow> handler); k x })"
proof -
  define d where "d = (\<lambda>i. case opcodeTable i of None \<Rightarrow> f i | Some handler \<Rightarrow> handler)"
  have d: "R c (snd (run_state (d (ir c)) c))" for c
    using f handler_respects by (auto simp: d_def state_io_rel_def split: option.split)
  have "R c (snd (run_state (gets ir \<bind> (\<lambda>i. d i \<bind> k)) c))" for c
  proof -
    obtain x c' where r: "run_state (d (ir c)) c = (x, c')" by (rule prod.exhaust)
    with d [of c] have "R c c'" by simp
    moreover have "R c' (snd (run_state (k x) c'))"
      using k by (simp add: state_io_rel_def)
    ultimately show ?thesis
      using r trans_R by (simp add: transpD [of R c c'])
  qed
  then show ?thesis by (simp add: state_io_rel_def d_def)
qed

lemma io_Step [io]: "state_io_rel R Step"
  unfolding Step_def
  by ((rule io_dispatch | rule io | rule trap_exception | (simp add: trapVectors_def; fail))+)

end

locale cpu_frame_api = cpu_frame_step R for R :: "'b CPU \<Rightarrow> 'b CPU \<Rightarrow> bool" +
  assumes io_deficit [io]: "state_io_rel R (modify (\<lambda>c. c\<lparr>deficit := f c\<rparr>))"
begin

lemma io_StepCycles [io]: "state_io_rel R (StepCycles budget)"
  unfolding StepCycles_def by (intro io)

end

text \<open>The same for relations that do not care about the status register.\<close>

locale cpu_frame_api_any = cpu_frame_any R for R :: "'b CPU \<Rightarrow> 'b CPU \<Rightarrow> bool" +
  assumes any_prevPC: "state_io_rel R (modify (\<lambda>c. c\<lparr>prevPC := regPC (reg c)\<rparr>))"
    and any_ir: "state_io_rel R (modify (\<lambda>c. c\<lparr>ir := op\<rparr>))"
    and any_regIR: "state_io_rel R (modify (\<lambda>c. c\<lparr>reg := (reg c)\<lparr>regIR := ir c\<rparr>\<rparr>))"
    and any_deficit: "state_io_rel R (modify (\<lambda>c. c\<lparr>deficit := f c\<rparr>))"
    and any_acknowledge [io]: "state_io_rel R (modify (\<lambda>c. c\<lparr>pendingIPL := 0, pendingVec := None\<rparr>))"
    and any_resume [io]: "state_io_rel R (modify (\<lambda>c. c\<lparr>stopped := False\<rparr>))"
begin

lemma any_processInterrupt: "state_io_rel R processInterrupt"
  unfolding processInterrupt_def Let_def by (intro io; simp)

end

sublocale cpu_frame_api_any \<subseteq> cpu_frame_api
  by unfold_locales (fact any_prevPC any_ir any_regIR any_deficit any_processInterrupt)+

end
