(* ===== verification/M68k_Safety.thy ===== *)
theory M68k_Safety
  imports M68k_Step
begin

text \<open>
  Safety of the whole instruction set, each property obtained by interpreting the contract of
  the CPU core on one relation:

  \<^item> \<open>wf_cpu\<close>: the register files keep their eight entries and nothing panics;
  \<^item> \<open>sr_valid\<close>: the unimplemented bits of the status register stay clear.
\<close>

subsection \<open>Well-formed states do not panic\<close>

definition wf_cpu :: "'b CPU \<Rightarrow> bool" where
  "wf_cpu c \<longleftrightarrow> length (regD (reg c)) = 8 \<and> length (regA (reg c)) = 8 \<and> \<not> panicked c"

definition keeps_wf :: "'b CPU \<Rightarrow> 'b CPU \<Rightarrow> bool" where
  "keeps_wf c c' \<longleftrightarrow> (wf_cpu c \<longrightarrow> wf_cpu c')"

lemmas primitive_defs = getD_def putD_def getA_def putA_def getPC_def putPC_def getSR_def putSR_def
  getUSP_def putUSP_def getSSP_def putSSP_def srSet_def srClr_def addCycles_def setHalted_def
  busRead8_def busRead16_def busRead32_def busWrite8_def busWrite16_def busWrite32_def
  busReset_def readBus_def writeBus_def

interpretation keeps_wf: cpu_frame_api_any keeps_wf
  by unfold_locales
    (auto simp: reflp_def transp_def state_io_rel_def keeps_wf_def wf_cpu_def primitive_defs Let_def
      split: msize.splits prod.splits)

subsection \<open>Unimplemented status bits stay clear\<close>

definition sr_ok :: "u16 \<Rightarrow> bool" where
  "sr_ok sr \<longleftrightarrow> sr AND NOT 0xA71F = 0"

definition sr_valid :: "'b CPU \<Rightarrow> bool" where
  "sr_valid c \<longleftrightarrow> sr_ok (regSR (reg c)) \<and> pendingIPL c \<le> 7"

definition keeps_sr :: "'b CPU \<Rightarrow> 'b CPU \<Rightarrow> bool" where
  "keeps_sr c c' \<longleftrightarrow> (sr_valid c \<longrightarrow> sr_valid c')"

lemma sr_ok_ccr_step: "ccr_step sr sr' \<Longrightarrow> sr_ok sr \<Longrightarrow> sr_ok sr'"
  by (auto simp: sr_ok_def ccr_step_def bits16)

lemma sr_ok_setSR: "sr_ok (sr AND 0xA71F)"
  by (simp add: sr_ok_def bits16)

lemma sr_ok_supervisor: "sr_ok sr \<Longrightarrow> sr_ok ((sr OR flagS) AND NOT flagT)"
  by (simp add: sr_ok_def bits16)

lemma le_7_mask: "(l :: u8) \<le> 7 \<Longrightarrow> l = l AND 7"
  by (simp add: and_7_eq_take_bit word_unat_eq_iff word_le_nat_alt unsigned_take_bit_eq take_bit_nat_eq_self)

lemma sr_ok_level:
  assumes "sr_ok sr" and "(level :: u8) \<le> 7"
  shows "sr_ok ((sr AND 0xF8FF) OR push_bit 8 (ucast level))"
  by (subst le_7_mask [OF assms(2)]) (use assms(1) in \<open>simp add: sr_ok_def bits16\<close>)

interpretation keeps_sr: cpu_frame keeps_sr
proof unfold_locales
  fix f :: "u16 \<Rightarrow> u16"
  assume "\<And>sr. ccr_step sr (f sr)"
  then show "state_io_rel keeps_sr (modify (\<lambda>c. c\<lparr>reg := reg c\<lparr>regSR := f (regSR (reg c))\<rparr>\<rparr>))"
    by (auto simp: state_io_rel_def keeps_sr_def sr_valid_def dest: sr_ok_ccr_step)
qed (auto simp: reflp_def transp_def state_io_rel_def keeps_sr_def sr_valid_def goPanic_def
      primitive_defs Let_def split: msize.splits prod.splits)

text \<open>The value read from the status register or from the pending level may be assumed valid.\<close>

lemma keeps_sr_bind_getSR:
  assumes "\<And>sr. sr_ok sr \<Longrightarrow> state_io_rel keeps_sr (f sr)"
  shows "state_io_rel keeps_sr (getSR \<bind> f)"
  using assms by (auto simp: state_io_rel_def keeps_sr_def sr_valid_def getSR_def)

lemma keeps_sr_bind_pendingIPL:
  assumes "\<And>l. l \<le> 7 \<Longrightarrow> state_io_rel keeps_sr (f l)"
  shows "state_io_rel keeps_sr (gets pendingIPL \<bind> f)"
  using assms by (auto simp: state_io_rel_def keeps_sr_def sr_valid_def)

lemma keeps_sr_putSR: "sr_ok sr \<Longrightarrow> state_io_rel keeps_sr (putSR sr)"
  by (simp add: state_io_rel_def keeps_sr_def sr_valid_def putSR_def)

lemma keeps_sr_put_other:
  "state_io_rel keeps_sr (putUSP u)" "state_io_rel keeps_sr (putSSP s)"
  "state_io_rel keeps_sr (modify (\<lambda>c. c\<lparr>stopped := b\<rparr>))"
  "state_io_rel keeps_sr busReset"
  "state_io_rel keeps_sr (modify (\<lambda>c. c\<lparr>pendingIPL := 0, pendingVec := None\<rparr>))"
  "state_io_rel keeps_sr (modify (\<lambda>c. c\<lparr>prevPC := regPC (reg c)\<rparr>))"
  "state_io_rel keeps_sr (modify (\<lambda>c. c\<lparr>ir := op\<rparr>))"
  "state_io_rel keeps_sr (modify (\<lambda>c. c\<lparr>reg := (reg c)\<lparr>regIR := ir c\<rparr>\<rparr>))"
  "state_io_rel keeps_sr (modify (\<lambda>c. c\<lparr>deficit := d c\<rparr>))"
  by (auto simp: state_io_rel_def keeps_sr_def sr_valid_def putUSP_def putSSP_def busReset_def)

lemmas keeps_sr_intros = keeps_sr_bind_getSR keeps_sr_bind_pendingIPL keeps_sr_putSR
  keeps_sr_put_other sr_ok_supervisor sr_ok_level sr_ok_setSR io

interpretation keeps_sr: cpu_frame_sys keeps_sr
proof unfold_locales
  show "state_io_rel keeps_sr (exception v)" for v
    unfolding exception_def Let_def
    by ((rule keeps_sr_intros | assumption | (simp; fail))+)
  show "state_io_rel keeps_sr (setSR sr)" for sr
    unfolding setSR_def Let_def
    by ((rule keeps_sr_intros | assumption | (simp; fail))+)
qed (rule keeps_sr_put_other)+

interpretation keeps_sr: cpu_frame_api keeps_sr
proof unfold_locales
  show "state_io_rel keeps_sr processInterrupt"
    unfolding processInterrupt_def Let_def
    by ((rule keeps_sr_intros | assumption | (simp; fail))+)
qed (rule keeps_sr_put_other)+

subsection \<open>Bus accesses are 24-bit and aligned\<close>

text \<open>
  A predicate on bus states that every well-formed access keeps: the address is below
  \<open>2 ^ 24\<close>, and even for words and long words.
\<close>

definition bus_closed :: "'b Bus \<Rightarrow> ('b \<Rightarrow> bool) \<Rightarrow> bool" where
  "bus_closed B P \<longleftrightarrow> (\<forall>s. P s \<longrightarrow> P (BusReset B s) \<and>
     (\<forall>a < 0x1000000. P (snd (Read8 B s a)) \<and> (\<forall>v. P (Write8 B s a v)) \<and>
       (a AND 1 = 0 \<longrightarrow> P (snd (Read16 B s a)) \<and> P (snd (Read32 B s a)) \<and>
         (\<forall>v. P (Write16 B s a v)) \<and> (\<forall>v. P (Write32 B s a v)))))"

definition keeps_bus :: "'b Bus \<Rightarrow> ('b \<Rightarrow> bool) \<Rightarrow> 'b CPU \<Rightarrow> 'b CPU \<Rightarrow> bool" where
  "keeps_bus B P c c' \<longleftrightarrow> (bus c = B \<and> P (busState c) \<longrightarrow> bus c' = B \<and> P (busState c'))"

lemma and_24_less: "(a :: u32) AND 0xFFFFFF < 0x1000000"
proof -
  have "a AND 0xFFFFFF = take_bit 24 a"
    by (simp add: take_bit_eq_mask mask_eq_exp_minus_1)
  moreover have "unat (take_bit 24 a) < 2 ^ 24"
    using take_bit_nat_less_exp [of 24 "unat a"] by (simp add: unsigned_take_bit_eq)
  ultimately show ?thesis
    by (simp add: word_less_nat_alt)
qed

lemma and_24_even: "(a :: u32) AND 1 = 0 \<Longrightarrow> (a AND 0xFFFFFF) AND 1 = 0"
  by (simp add: bits32)

locale bus_client =
  fixes B :: "'b Bus" and P :: "'b \<Rightarrow> bool"
  assumes closed: "bus_closed B P"
begin

lemma closed_reset: "P s \<Longrightarrow> P (BusReset B s)"
  using closed by (simp add: bus_closed_def)

lemma closed_access:
  assumes "P s"
  shows "P (snd (Read8 B s (a AND 0xFFFFFF)))" "P (Write8 B s (a AND 0xFFFFFF) v8)"
    "a AND 1 = 0 \<Longrightarrow> P (snd (Read16 B s (a AND 0xFFFFFF)))"
    "a AND 1 = 0 \<Longrightarrow> P (snd (Read32 B s (a AND 0xFFFFFF)))"
    "a AND 1 = 0 \<Longrightarrow> P (Write16 B s (a AND 0xFFFFFF) v16)"
    "a AND 1 = 0 \<Longrightarrow> P (Write32 B s (a AND 0xFFFFFF) v32)"
  using closed assms and_24_less [of a] and_24_even [of a] unfolding bus_closed_def by blast+

lemma keeps_readBus: "state_io_rel (keeps_bus B P) (readBus sz a)"
proof (cases "sz = sizeByte \<or> a AND 1 = 0")
  case True
  then show ?thesis
    using closed_access(1,3,4) [of _ a]
    by (cases sz) (auto simp: state_io_rel_def keeps_bus_def primitive_defs Let_def split_def)
qed (auto simp: state_io_rel_def keeps_bus_def readBus_def setHalted_def)

lemma keeps_writeBus: "state_io_rel (keeps_bus B P) (writeBus sz a v)"
proof (cases "sz = sizeByte \<or> a AND 1 = 0")
  case True
  then show ?thesis
    using closed_access(2,5,6) [of _ a]
    by (cases sz) (auto simp: state_io_rel_def keeps_bus_def primitive_defs Let_def)
qed (auto simp: state_io_rel_def keeps_bus_def writeBus_def setHalted_def)

end

sublocale bus_client \<subseteq> cpu_frame_api_any "keeps_bus B P"
  by (unfold_locales; (rule keeps_readBus keeps_writeBus)?;
      auto simp: reflp_def transp_def state_io_rel_def keeps_bus_def goPanic_def getD_def putD_def
        getA_def putA_def putPC_def putSR_def putUSP_def putSSP_def addCycles_def setHalted_def
        busReset_def closed_reset)

context bus_client
begin

lemma keeps_bus_Step:
  "keeps_bus B P c (snd (run_state Step c))" "keeps_bus B P c (snd (run_state (StepCycles n) c))"
  using io_Step io_StepCycles by (simp_all add: state_io_rel_def)

end

text \<open>
  Any bus can be wrapped so that it records the accesses it receives. The wrapped bus is a
  client of the contract for the predicate that all recorded accesses are well-formed, so the
  log of a run shows which accesses the CPU makes.
\<close>

datatype access = Rd msize u32 | Wr msize u32 u32

fun access_ok :: "access \<Rightarrow> bool" where
  "access_ok (Rd sz a) \<longleftrightarrow> a < 0x1000000 \<and> (sz = sizeByte \<or> a AND 1 = 0)"
| "access_ok (Wr sz a v) \<longleftrightarrow> a < 0x1000000 \<and> (sz = sizeByte \<or> a AND 1 = 0)"

definition loggedBus :: "'b Bus \<Rightarrow> ('b \<times> access list) Bus" where
  "loggedBus B = \<lparr>
     Read8 = (\<lambda>(s, l) a. case Read8 B s a of (v, s') \<Rightarrow> (v, (s', Rd sizeByte a # l))),
     Read16 = (\<lambda>(s, l) a. case Read16 B s a of (v, s') \<Rightarrow> (v, (s', Rd sizeWord a # l))),
     Read32 = (\<lambda>(s, l) a. case Read32 B s a of (v, s') \<Rightarrow> (v, (s', Rd sizeLong a # l))),
     Write8 = (\<lambda>(s, l) a v. (Write8 B s a v, Wr sizeByte a (ucast v) # l)),
     Write16 = (\<lambda>(s, l) a v. (Write16 B s a v, Wr sizeWord a (ucast v) # l)),
     Write32 = (\<lambda>(s, l) a v. (Write32 B s a v, Wr sizeLong a v # l)),
     BusReset = (\<lambda>(s, l). (BusReset B s, l))\<rparr>"

definition log_ok :: "'b \<times> access list \<Rightarrow> bool" where
  "log_ok s \<longleftrightarrow> list_all access_ok (snd s)"

lemma bus_closed_logged: "bus_closed (loggedBus B) log_ok"
  by (auto simp: bus_closed_def loggedBus_def log_ok_def split_def)

interpretation logged: bus_client "loggedBus B" log_ok
  by unfold_locales (rule bus_closed_logged)

end
