(* ===== verification/M68k_TestBus.thy ===== *)
theory M68k_TestBus
  imports M68k_Cpu
begin

text \<open>
  The flat-memory bus of \<open>testutil_test.go\<close>, the one implementation of the interface \<open>Bus\<close> in the
  repository. Its 16 MB array is a function from addresses to bytes, and its operations, as
  functions of the interface, are total. The Go code panics where an access runs past the array;
  the checked operations at the end say where this is, and that they are the total ones elsewhere.
\<close>

type_synonym testMem = "u32 \<Rightarrow> u8"

definition tb_Read8 :: "testMem \<Rightarrow> u32 \<Rightarrow> u8 \<times> testMem" where
  "tb_Read8 m addr = (let addr = addr AND 0xFFFFFF in (m addr, m))"

definition tb_Read16 :: "testMem \<Rightarrow> u32 \<Rightarrow> u16 \<times> testMem" where
  "tb_Read16 m addr = (let addr = addr AND 0xFFFFFF in
     (push_bit 8 (ucast (m addr)) OR ucast (m (addr + 1)), m))"

definition tb_Read32 :: "testMem \<Rightarrow> u32 \<Rightarrow> u32 \<times> testMem" where
  "tb_Read32 m addr = (let addr = addr AND 0xFFFFFF in
     (push_bit 24 (ucast (m addr)) OR push_bit 16 (ucast (m (addr + 1))) OR
      push_bit 8 (ucast (m (addr + 2))) OR ucast (m (addr + 3)), m))"

definition tb_Write8 :: "testMem \<Rightarrow> u32 \<Rightarrow> u8 \<Rightarrow> testMem" where
  "tb_Write8 m addr val = (let addr = addr AND 0xFFFFFF in m(addr := val))"

definition tb_Write16 :: "testMem \<Rightarrow> u32 \<Rightarrow> u16 \<Rightarrow> testMem" where
  "tb_Write16 m addr val = (let addr = addr AND 0xFFFFFF in
     m(addr := ucast (drop_bit 8 val), addr + 1 := ucast val))"

definition tb_Write32 :: "testMem \<Rightarrow> u32 \<Rightarrow> u32 \<Rightarrow> testMem" where
  "tb_Write32 m addr val = (let addr = addr AND 0xFFFFFF in
     m(addr := ucast (drop_bit 24 val), addr + 1 := ucast (drop_bit 16 val),
       addr + 2 := ucast (drop_bit 8 val), addr + 3 := ucast val))"

definition tb_Reset :: "testMem \<Rightarrow> testMem" where
  "tb_Reset m = m"

definition testBus :: "testMem Bus" where
  "testBus = \<lparr>Read8 = tb_Read8, Read16 = tb_Read16, Read32 = tb_Read32, Write8 = tb_Write8,
     Write16 = tb_Write16, Write32 = tb_Write32, BusReset = tb_Reset\<rparr>"

subsection \<open>Accesses past the array\<close>

definition memIndex :: "testMem \<Rightarrow> u32 \<Rightarrow> u8 option" where
  "memIndex m i = (if i \<le> 0xFFFFFF then Some (m i) else None)"

definition memAssign :: "u32 \<Rightarrow> u8 \<Rightarrow> testMem \<Rightarrow> testMem option" where
  "memAssign i v m = (if i \<le> 0xFFFFFF then Some (m(i := v)) else None)"

definition go_Read8 :: "testMem \<Rightarrow> u32 \<Rightarrow> u8 option" where
  "go_Read8 m addr = (let addr = addr AND 0xFFFFFF in memIndex m addr)"

definition go_Read16 :: "testMem \<Rightarrow> u32 \<Rightarrow> u16 option" where
  "go_Read16 m addr = (let addr = addr AND 0xFFFFFF in do {
     b0 \<leftarrow> memIndex m addr;
     b1 \<leftarrow> memIndex m (addr + 1);
     Some (push_bit 8 (ucast b0) OR ucast b1) })"

definition go_Read32 :: "testMem \<Rightarrow> u32 \<Rightarrow> u32 option" where
  "go_Read32 m addr = (let addr = addr AND 0xFFFFFF in do {
     b0 \<leftarrow> memIndex m addr;
     b1 \<leftarrow> memIndex m (addr + 1);
     b2 \<leftarrow> memIndex m (addr + 2);
     b3 \<leftarrow> memIndex m (addr + 3);
     Some (push_bit 24 (ucast b0) OR push_bit 16 (ucast b1) OR push_bit 8 (ucast b2) OR ucast b3) })"

definition go_Write8 :: "testMem \<Rightarrow> u32 \<Rightarrow> u8 \<Rightarrow> testMem option" where
  "go_Write8 m addr val = (let addr = addr AND 0xFFFFFF in memAssign addr val m)"

definition go_Write16 :: "testMem \<Rightarrow> u32 \<Rightarrow> u16 \<Rightarrow> testMem option" where
  "go_Write16 m addr val = (let addr = addr AND 0xFFFFFF in do {
     m \<leftarrow> memAssign addr (ucast (drop_bit 8 val)) m;
     memAssign (addr + 1) (ucast val) m })"

definition go_Write32 :: "testMem \<Rightarrow> u32 \<Rightarrow> u32 \<Rightarrow> testMem option" where
  "go_Write32 m addr val = (let addr = addr AND 0xFFFFFF in do {
     m \<leftarrow> memAssign addr (ucast (drop_bit 24 val)) m;
     m \<leftarrow> memAssign (addr + 1) (ucast (drop_bit 16 val)) m;
     m \<leftarrow> memAssign (addr + 2) (ucast (drop_bit 8 val)) m;
     memAssign (addr + 3) (ucast val) m })"

text \<open>The last byte of the access decides.\<close>

lemma in_array:
  fixes addr :: u32
  defines "a \<equiv> addr AND 0xFFFFFF"
  shows "a \<le> 0xFFFFFF" "a + 1 \<le> 0xFFFFFF \<longleftrightarrow> a \<le> 0xFFFFFE" "a + 2 \<le> 0xFFFFFF \<longleftrightarrow> a \<le> 0xFFFFFD" "a + 3 \<le> 0xFFFFFF \<longleftrightarrow> a \<le> 0xFFFFFC"
proof -
  have "a = take_bit 24 addr" unfolding a_def by (simp add: take_bit_eq_mask mask_eq_exp_minus_1)
  then have "unat a < 2 ^ 24" using take_bit_nat_less_exp [of 24 "unat addr"] by (simp add: unsigned_take_bit_eq)
  then have u: "unat a < 0x1000000" "unat (a + 1) = unat a + 1" "unat (a + 2) = unat a + 2" "unat (a + 3) = unat a + 3"
    by (simp_all add: unat_word_ariths)
  show "a \<le> 0xFFFFFF" "a + 1 \<le> 0xFFFFFF \<longleftrightarrow> a \<le> 0xFFFFFE" "a + 2 \<le> 0xFFFFFF \<longleftrightarrow> a \<le> 0xFFFFFD" "a + 3 \<le> 0xFFFFFF \<longleftrightarrow> a \<le> 0xFFFFFC"
    using u by (auto simp: word_le_nat_alt)
qed

lemma go_reads:
  "go_Read8 m addr = Some (fst (tb_Read8 m addr))"
  "go_Read16 m addr = (if addr AND 0xFFFFFF \<le> 0xFFFFFE then Some (fst (tb_Read16 m addr)) else None)"
  "go_Read32 m addr = (if addr AND 0xFFFFFF \<le> 0xFFFFFC then Some (fst (tb_Read32 m addr)) else None)"
  by (auto simp: go_Read8_def go_Read16_def go_Read32_def tb_Read8_def tb_Read16_def tb_Read32_def Let_def memIndex_def
      in_array bind_eq_None_conv split: if_splits) (simp_all add: word_le_nat_alt)

lemma go_writes:
  "go_Write8 m addr v8 = Some (tb_Write8 m addr v8)"
  "go_Write16 m addr v16 = (if addr AND 0xFFFFFF \<le> 0xFFFFFE then Some (tb_Write16 m addr v16) else None)"
  "go_Write32 m addr v32 = (if addr AND 0xFFFFFF \<le> 0xFFFFFC then Some (tb_Write32 m addr v32) else None)"
  by (auto simp: go_Write8_def go_Write16_def go_Write32_def tb_Write8_def tb_Write16_def tb_Write32_def Let_def memAssign_def
      in_array bind_eq_None_conv split: if_splits) (simp_all add: word_le_nat_alt)

end
