(* ===== verification/M68k_Privilege.thy ===== *)
theory M68k_Privilege
  imports M68k_Safety M68k_TestBus
begin

text \<open>
  Supervisor and user mode. A privileged instruction executed in user mode raises exception 8
  and does nothing else; every other instruction leaves the system byte of the status register,
  the inactive stack pointers and the stopped flag alone, unless its last act is to raise an
  exception.
\<close>

definition user :: "'b CPU \<Rightarrow> bool" where
  "user c \<longleftrightarrow> regSR (reg c) AND flagS = 0"

text \<open>
  What user code can do to the system state: the supervisor stack pointer, the interrupt mask
  and the stopped flag are unchanged, tracing is not switched on, and if the CPU is in user
  mode afterwards then it was before, with the same system byte and user stack pointer field.
\<close>

definition confined :: "'b CPU \<Rightarrow> 'b CPU \<Rightarrow> bool" where
  "confined c c' \<longleftrightarrow>
     regSSP (reg c') = regSSP (reg c) \<and> stopped c' = stopped c \<and>
     regSR (reg c') AND 0x0700 = regSR (reg c) AND 0x0700 \<and>
     (regSR (reg c) AND flagT = 0 \<longrightarrow> regSR (reg c') AND flagT = 0) \<and>
     (user c' \<longrightarrow> user c \<and> regUSP (reg c') = regUSP (reg c) \<and>
        regSR (reg c') AND 0xFF00 = regSR (reg c) AND 0xFF00)"

lemma system_byte:
  assumes "sr' AND 0xFF00 = (sr :: u16) AND 0xFF00"
  shows "sr' AND 0x0700 = sr AND 0x0700" "sr' AND flagT = sr AND flagT" "sr' AND flagS = sr AND flagS"
  using assms by (simp_all add: bits16)

lemma confined_system_byte:
  assumes "regSR (reg c') AND 0xFF00 = regSR (reg c) AND 0xFF00"
    and "regSSP (reg c') = regSSP (reg c)" "stopped c' = stopped c" "regUSP (reg c') = regUSP (reg c)"
  shows "confined c c'"
  using assms(2-4) system_byte [OF assms(1)] assms(1) by (simp add: confined_def user_def)

lemma confined_same_SR:
  assumes "regSR (reg c') = regSR (reg c)"
    and "regSSP (reg c') = regSSP (reg c)" "stopped c' = stopped c" "regUSP (reg c') = regUSP (reg c)"
  shows "confined c c'"
  by (rule confined_system_byte) (simp_all add: assms)

interpretation confined: cpu_frame confined
proof unfold_locales
  show "reflp confined"
    by (rule reflpI) (rule confined_same_SR; simp)
  show "transp confined"
    by (rule transpI) (auto simp: confined_def)
  fix f :: "u16 \<Rightarrow> u16"
  assume "\<And>sr. ccr_step sr (f sr)"
  then show "state_io_rel confined (modify (\<lambda>c. c\<lparr>reg := reg c\<lparr>regSR := f (regSR (reg c))\<rparr>\<rparr>))"
    by (auto simp: state_io_rel_def ccr_step_def intro: confined_system_byte)
qed (auto simp: state_io_rel_def goPanic_def primitive_defs Let_def
      intro!: confined_same_SR split: msize.splits prod.splits)

lemma user_after_entry: "((sr OR flagS) AND NOT flagT) AND flagS \<noteq> 0"
  by (simp add: bits16)

lemma confined_enterSupervisor [io]: "state_io_rel confined enterSupervisor"
  unfolding enterSupervisor_def
  by (rule state_io_relI)
    (auto simp: confined_def user_def primitive_defs goPanic_def bits16 split: if_splits prod.splits)

lemma confined_exception: "state_io_rel confined (exception v)"
  unfolding exception_enterSupervisor Let_def by (intro io)

lemma privileged_traps:
  "user c \<Longrightarrow> run_state (supervisor \<bind> (\<lambda>s. if \<not> s then exception vecPrivilegeViolation else m)) c =
     run_state (exception vecPrivilegeViolation) c"
  by (simp add: user_def supervisor_def getSR_def)

subsection \<open>How user code enters supervisor mode\<close>

text \<open>
  Code that stays in user mode leaves the system state, the address of the current instruction
  and the interrupt request alone. An instruction executed in user mode either does that, or does
  it and then ends by raising an exception.
\<close>

definition sys_frame :: "'b CPU \<Rightarrow> 'b CPU \<Rightarrow> bool" where
  "sys_frame c c' \<longleftrightarrow> regSR (reg c') AND 0xFF00 = regSR (reg c) AND 0xFF00 \<and>
     regSSP (reg c') = regSSP (reg c) \<and> regUSP (reg c') = regUSP (reg c) \<and> stopped c' = stopped c \<and>
     prevPC c' = prevPC c \<and> pendingIPL c' = pendingIPL c \<and> bus c' = bus c"

definition traps :: "'b CPU \<Rightarrow> 'b CPU \<Rightarrow> bool" where
  "traps c c' \<longleftrightarrow> (\<exists>v \<in> trapVectors. \<exists>c1. sys_frame c c1 \<and> c' = snd (run_state (exception v) c1))"

definition stays_or_traps :: "'b CPU \<Rightarrow> 'b CPU \<Rightarrow> bool" where
  "stays_or_traps c c' \<longleftrightarrow> (user c \<longrightarrow> sys_frame c c' \<or> traps c c')"

lemma sys_frame_user: "sys_frame c c' \<Longrightarrow> user c' \<longleftrightarrow> user c"
  using system_byte(3) [of "regSR (reg c')" "regSR (reg c)"] by (simp add: sys_frame_def user_def)

lemma sys_frame_confined: "sys_frame c c' \<Longrightarrow> confined c c'"
  by (auto simp: sys_frame_def intro: confined_system_byte)

lemma sys_frame_trans: "sys_frame c c1 \<Longrightarrow> sys_frame c1 c2 \<Longrightarrow> sys_frame c c2"
  by (simp add: sys_frame_def)

lemma traps_confined:
  assumes "traps c c'"
  shows "confined c c'"
proof -
  obtain v c1 where c1: "sys_frame c c1" and c': "c' = snd (run_state (exception v) c1)"
    using assms by (auto simp: traps_def)
  have "confined c1 c'"
    unfolding c' by (rule confined_exception [unfolded state_io_rel_def, rule_format])
  then show ?thesis by (rule transpD [OF confined.trans_R sys_frame_confined [OF c1]])
qed

interpretation sys_frame: cpu_frame sys_frame
proof unfold_locales
  fix f :: "u16 \<Rightarrow> u16"
  assume "\<And>sr. ccr_step sr (f sr)"
  then show "state_io_rel sys_frame (modify (\<lambda>c. c\<lparr>reg := reg c\<lparr>regSR := f (regSR (reg c))\<rparr>\<rparr>))"
    by (auto simp: state_io_rel_def ccr_step_def sys_frame_def)
qed (auto simp: reflp_def transp_def state_io_rel_def sys_frame_def goPanic_def primitive_defs Let_def
      split: msize.splits prod.splits)

lemma traps_exception: "v \<in> trapVectors \<Longrightarrow> traps c (snd (run_state (exception v) c))"
  using reflpD [OF sys_frame.refl_R] by (auto simp: traps_def)

interpretation sys_frame: cpu_frame_table sys_frame stays_or_traps
proof unfold_locales
  show "sys_frame \<le> stays_or_traps"
    by (auto simp: stays_or_traps_def)
  show "sys_frame c c1 \<Longrightarrow> stays_or_traps c1 c2 \<Longrightarrow> stays_or_traps c c2" for c c1 c2 :: "'a CPU"
    using sys_frame_user [of c c1] sys_frame_trans [of c c1] unfolding stays_or_traps_def traps_def by blast
  show "v \<in> trapVectors \<Longrightarrow> state_io_rel stays_or_traps (exception v :: 'a opFunc)" for v
    using traps_exception by (auto simp: state_io_rel_def stays_or_traps_def)
  show "state_io_rel stays_or_traps m" if "m \<in> insert opRTE privileged" for m :: "'a opFunc"
  proof -
    have "run_state m c = run_state (exception vecPrivilegeViolation) c" if "user c" for c
      using that \<open>m \<in> insert opRTE privileged\<close> privileged_traps [OF that]
      by (auto simp: privileged_def opRTE_def opSTOP_def opRESET_def opMOVEtoUSP_def
        opMOVEfromUSP_def opANDItoSR_def opORItoSR_def opEORItoSR_def makeMOVEtoSR_def Let_def split_def)
    then show ?thesis
      by (simp add: state_io_rel_def stays_or_traps_def traps_exception trapVectors_def)
  qed
qed

text \<open>A user-mode instruction, from the fetch to the alignment check of the new program counter.\<close>

lemma dispatch_stays_or_traps:
  "user c \<Longrightarrow> ir c = op \<Longrightarrow> sys_frame c (snd (run_state (dispatch op) c)) \<or> traps c (snd (run_state (dispatch op) c))"
  using sys_frame.handler_respects [of c] traps_exception
  by (auto simp: dispatch_def stays_or_traps_def trapVectors_def split: option.split)

lemma execute_stays_or_traps:
  assumes "user c"
  obtains c1 c2 where "sys_frame (c\<lparr>prevPC := regPC (reg c)\<rparr>) c1"
    and "sys_frame c1 c2 \<or> traps c1 c2" "snd (run_state execute c) = checkPC c2"
proof -
  let ?c0 = "c\<lparr>prevPC := regPC (reg c)\<rparr>"
  obtain op b h where f: "run_state fetchPC ?c0 =
      (op, ?c0\<lparr>reg := (reg ?c0)\<lparr>regPC := regPC (reg ?c0) + 2\<rparr>, busState := b, halted := h\<rparr>)"
    using run_fetchPC [of ?c0] by blast
  define c1 where "c1 = (snd (run_state fetchPC ?c0))\<lparr>ir := op,
      reg := (reg (snd (run_state fetchPC ?c0)))\<lparr>regIR := op\<rparr>\<rparr>"
  have "user c1" "ir c1 = op"
    using assms by (simp_all add: c1_def f user_def)
  then have "sys_frame c1 (snd (run_state (dispatch op) c1)) \<or> traps c1 (snd (run_state (dispatch op) c1))"
    by (rule dispatch_stays_or_traps)
  moreover have "sys_frame ?c0 c1"
    by (simp add: c1_def f sys_frame_def)
  moreover have "snd (run_state execute c) = checkPC (snd (run_state (dispatch op) c1))"
    by (simp add: execute_def f c1_def getPC_def setHalted_def split_def checkPC_def)
  ultimately show thesis using that by blast
qed

lemma checkPC_simps [simp]: "reg (checkPC c) = reg c" "stopped (checkPC c) = stopped c"
  by (simp_all add: checkPC_def)

lemma confined_checkPC [simp]: "confined c (checkPC c') \<longleftrightarrow> confined c c'" "user (checkPC c) \<longleftrightarrow> user c"
  by (simp_all add: confined_def user_def)

lemma confined_execute:
  fixes c :: "'b CPU"
  assumes "user c"
  defines "c' \<equiv> snd (run_state execute c)"
  shows "confined c c'" and "user c' \<or> (\<exists>v \<in> trapVectors. \<exists>c1. confined c c1 \<and> user c1 \<and>
    prevPC c1 = regPC (reg c) \<and> c' = checkPC (snd (run_state (exception v) c1)))"
proof -
  let ?c0 = "c\<lparr>prevPC := regPC (reg c)\<rparr>"
  obtain c1 c2 where c1: "sys_frame ?c0 c1" and c2: "sys_frame c1 c2 \<or> traps c1 c2" and c': "c' = checkPC c2"
    unfolding c'_def using execute_stays_or_traps [OF assms(1)] by blast
  have c0: "confined c d" if "sys_frame ?c0 d" for d
    using sys_frame_confined [OF that] by (simp add: confined_def user_def)
  have "confined c1 c2" using c2 sys_frame_confined traps_confined by blast
  then show "confined c c'"
    unfolding c' using transpD [OF confined.trans_R c0 [OF c1]] by simp
  have u: "user d \<and> prevPC d = regPC (reg c)" if "sys_frame ?c0 d" for d
    using sys_frame_user [OF that] that assms(1) by (simp add: user_def sys_frame_def)
  show "user c' \<or> (\<exists>v \<in> trapVectors. \<exists>c1. confined c c1 \<and> user c1 \<and>
      prevPC c1 = regPC (reg c) \<and> c' = checkPC (snd (run_state (exception v) c1)))"
    using c2
  proof
    assume "sys_frame c1 c2"
    then show ?thesis using u [OF c1] sys_frame_user [of c1 c2] c' by simp
  next
    assume "traps c1 c2"
    then obtain v d where "v \<in> trapVectors" "sys_frame c1 d" "c2 = snd (run_state (exception v) d)"
      by (auto simp: traps_def)
    then show ?thesis using c0 u sys_frame_trans [OF c1] c' by blast
  qed
qed

subsection \<open>Properties\<close>

text \<open>
  C3. User code is confined, and enters supervisor mode only through an exception. A step of a CPU
  in user mode with no interrupt pending leaves the supervisor stack pointer, the interrupt mask and
  the stopped flag unchanged and does not switch tracing on. If the CPU is still in user mode
  afterwards, the whole system byte of the status register and the user stack pointer field are
  unchanged. If it is not, then the step ended with \<open>exception\<close>, for the vector of an illegal or
  unassigned opcode, a division by zero, CHK, TRAPV, TRAP or a privilege violation, called while the CPU
  was still in user mode with that same system state and with \<open>prevPC\<close> at the instruction; all that
  follows is the check that the handler's address is even.
\<close>

theorem user_step_confined:
  assumes "user c" and "pendingIPL c = 0" and "c' = snd (run_state Step c)"
  shows "confined c c' \<and>
    (user c' \<or> (\<exists>v \<in> trapVectors. \<exists>c1. confined c c1 \<and> user c1 \<and> prevPC c1 = regPC (reg c) \<and>
       c' = checkPC (snd (run_state (exception v) c1))))"
proof -
  have "confined c c" and "confined c (c\<lparr>cycles := k\<rparr>)" and "confined c (c\<lparr>halted := True\<rparr>)"
    and "user (c\<lparr>cycles := k\<rparr>)" and "user (c\<lparr>halted := True\<rparr>)" for k
    using assms(1) by (auto intro: confined_same_SR simp: user_def)
  then show ?thesis
    using assms confined_execute [OF assms(1)] by (simp add: run_Step_snd run_checkInterrupt Let_def)
qed

text \<open>TRAP \<open>#1\<close> in user mode, with the handler at \<open>0x1500\<close>.\<close>

definition userTrapCPU :: "testMem CPU" where
  "userTrapCPU = (zeroCPU testBus ((\<lambda>_. 0)(0x400 := 0x4E, 0x401 := 0x41, 0x86 := 0x15)))
     \<lparr>reg := zeroRegisters \<lparr>regSR := 0x0300, regSSP := 0x1000, regPC := 0x400\<rparr>\<rparr>"

theorem user_step_confined_witness:
  "let c = userTrapCPU; c' = snd (run_state Step c)
   in user c \<and> pendingIPL c = 0 \<and> confined c c' \<and>
     (user c' \<or> (\<exists>v \<in> trapVectors. \<exists>c1. confined c c1 \<and> user c1 \<and> prevPC c1 = regPC (reg c) \<and>
        c' = checkPC (snd (run_state (exception v) c1))))"
proof -
  have "user userTrapCPU" "pendingIPL userTrapCPU = 0"
    by (simp_all add: user_def zeroCPU_def userTrapCPU_def)
  then show ?thesis
    using user_step_confined [of userTrapCPU] by (simp add: Let_def)
qed

end
