(* ===== verification/M68k_Serialize.thy ===== *)
theory M68k_Serialize
  imports M68k_TestBus
begin

text \<open>
  Saving and restoring the CPU state (\<open>serialize.go\<close>). A byte slice is a list of bytes; the
  functions of \<open>encoding/binary\<close> that the source uses, big-endian stores and loads at an offset,
  are modelled on it. Every access of a slice checks its bounds: one that Go would answer with a panic
  is \<open>None\<close>. Both methods return an error value or the new contents; a panic is the error value
  \<open>IndexPanic\<close>. The register files are arrays of fixed length in the source, and the loops over them run
  over exactly that length.
\<close>

datatype serError = BufferTooSmall | UnsupportedVersion | IndexPanic

abbreviation (input) cpuSerializeVersion :: u8 where "cpuSerializeVersion \<equiv> 1"
abbreviation (input) SerializeSize :: nat where "SerializeSize \<equiv> 104"

definition PutUint16 :: "nat \<Rightarrow> u16 \<Rightarrow> u8 list \<Rightarrow> u8 list" where
  "PutUint16 off v buf = buf[off := ucast (drop_bit 8 v), off + 1 := ucast v]"

definition PutUint32 :: "nat \<Rightarrow> u32 \<Rightarrow> u8 list \<Rightarrow> u8 list" where
  "PutUint32 off v buf = buf[off := ucast (drop_bit 24 v), off + 1 := ucast (drop_bit 16 v),
     off + 2 := ucast (drop_bit 8 v), off + 3 := ucast v]"

definition PutUint64 :: "nat \<Rightarrow> u64 \<Rightarrow> u8 list \<Rightarrow> u8 list" where
  "PutUint64 off v buf = buf[off := ucast (drop_bit 56 v), off + 1 := ucast (drop_bit 48 v),
     off + 2 := ucast (drop_bit 40 v), off + 3 := ucast (drop_bit 32 v),
     off + 4 := ucast (drop_bit 24 v), off + 5 := ucast (drop_bit 16 v),
     off + 6 := ucast (drop_bit 8 v), off + 7 := ucast v]"

definition Uint16 :: "nat \<Rightarrow> u8 list \<Rightarrow> u16" where
  "Uint16 off buf = ucast (buf ! (off + 1)) OR push_bit 8 (ucast (buf ! off))"

definition Uint32 :: "nat \<Rightarrow> u8 list \<Rightarrow> u32" where
  "Uint32 off buf = ucast (buf ! (off + 3)) OR push_bit 8 (ucast (buf ! (off + 2))) OR
     push_bit 16 (ucast (buf ! (off + 1))) OR push_bit 24 (ucast (buf ! off))"

definition Uint64 :: "nat \<Rightarrow> u8 list \<Rightarrow> u64" where
  "Uint64 off buf = ucast (buf ! (off + 7)) OR push_bit 8 (ucast (buf ! (off + 6))) OR
     push_bit 16 (ucast (buf ! (off + 5))) OR push_bit 24 (ucast (buf ! (off + 4))) OR
     push_bit 32 (ucast (buf ! (off + 3))) OR push_bit 40 (ucast (buf ! (off + 2))) OR
     push_bit 48 (ucast (buf ! (off + 1))) OR push_bit 56 (ucast (buf ! off))"

text \<open>
  The accesses as the source writes them: \<open>buf[off] = v\<close> and \<open>buf[off]\<close>, and a store or a load on the
  slice \<open>buf[off:]\<close>, which must have as many bytes as the number.
\<close>

definition setByte :: "nat \<Rightarrow> u8 \<Rightarrow> u8 list \<Rightarrow> u8 list option" where
  "setByte off v buf = (if off < length buf then Some (buf[off := v]) else None)"

definition getByte :: "nat \<Rightarrow> u8 list \<Rightarrow> u8 option" where
  "getByte off buf = (if off < length buf then Some (buf ! off) else None)"

definition bePut16 :: "nat \<Rightarrow> u16 \<Rightarrow> u8 list \<Rightarrow> u8 list option" where
  "bePut16 off v buf = (if off + 2 \<le> length buf then Some (PutUint16 off v buf) else None)"

definition bePut32 :: "nat \<Rightarrow> u32 \<Rightarrow> u8 list \<Rightarrow> u8 list option" where
  "bePut32 off v buf = (if off + 4 \<le> length buf then Some (PutUint32 off v buf) else None)"

definition bePut64 :: "nat \<Rightarrow> u64 \<Rightarrow> u8 list \<Rightarrow> u8 list option" where
  "bePut64 off v buf = (if off + 8 \<le> length buf then Some (PutUint64 off v buf) else None)"

definition beGet16 :: "nat \<Rightarrow> u8 list \<Rightarrow> u16 option" where
  "beGet16 off buf = (if off + 2 \<le> length buf then Some (Uint16 off buf) else None)"

definition beGet32 :: "nat \<Rightarrow> u8 list \<Rightarrow> u32 option" where
  "beGet32 off buf = (if off + 4 \<le> length buf then Some (Uint32 off buf) else None)"

definition beGet64 :: "nat \<Rightarrow> u8 list \<Rightarrow> u64 option" where
  "beGet64 off buf = (if off + 8 \<le> length buf then Some (Uint64 off buf) else None)"

definition orPanic :: "(serError + 'a) option \<Rightarrow> serError + 'a" where
  "orPanic r = (case r of None \<Rightarrow> Inl IndexPanic | Some x \<Rightarrow> x)"

definition boolByte :: "bool \<Rightarrow> u8" where
  "boolByte b = (if b then 1 else 0)"

text \<open>The loop \<open>for i := 0; i < 8; i++ { be.PutUint32(buf[off:], xs[i]); off += 4 }\<close>.\<close>

definition putArray :: "u32 list \<Rightarrow> u8 list \<times> nat \<Rightarrow> (u8 list \<times> nat) option" where
  "putArray xs s = fold (\<lambda>i s. do {
       (buf, off) \<leftarrow> s;
       buf \<leftarrow> bePut32 off (xs ! i) buf;
       Some (buf, off + 4) }) [0..<8] (Some s)"

definition Serialize :: "'b CPU \<Rightarrow> u8 list \<Rightarrow> serError + u8 list" where
  "Serialize c buf =
    (if length buf < SerializeSize then Inl BufferTooSmall
     else orPanic (do {
       buf \<leftarrow> setByte 0 cpuSerializeVersion buf;
       let off = 1;
       (buf, off) \<leftarrow> putArray (regD (reg c)) (buf, off);
       (buf, off) \<leftarrow> putArray (regA (reg c)) (buf, off);
       buf \<leftarrow> bePut32 off (regPC (reg c)) buf; let off = off + 4;
       buf \<leftarrow> bePut16 off (regSR (reg c)) buf; let off = off + 2;
       buf \<leftarrow> bePut32 off (regUSP (reg c)) buf; let off = off + 4;
       buf \<leftarrow> bePut32 off (regSSP (reg c)) buf; let off = off + 4;
       buf \<leftarrow> bePut16 off (regIR (reg c)) buf; let off = off + 2;
       buf \<leftarrow> bePut64 off (cycles c) buf; let off = off + 8;
       buf \<leftarrow> bePut16 off (ir c) buf; let off = off + 2;
       buf \<leftarrow> setByte off (boolByte (stopped c)) buf; let off = off + 1;
       buf \<leftarrow> setByte off (boolByte (halted c)) buf; let off = off + 1;
       buf \<leftarrow> bePut32 off (prevPC c) buf; let off = off + 4;
       buf \<leftarrow> setByte off (pendingIPL c) buf; let off = off + 1;
       buf \<leftarrow> (case pendingVec c of
                  Some v \<Rightarrow> do { buf \<leftarrow> setByte off 1 buf; setByte (off + 1) v buf }
                | None \<Rightarrow> do { buf \<leftarrow> setByte off 0 buf; setByte (off + 1) 0 buf });
       let off = off + 2;
       buf \<leftarrow> bePut32 off (word_of_int (deficit c)) buf;
       Some (Inr buf) }))"

text \<open>The loop \<open>for i := 0; i < 8; i++ { xs[i] = be.Uint32(buf[off:]); off += 4 }\<close>.\<close>

definition getArray :: "u8 list \<Rightarrow> u32 list \<times> nat \<Rightarrow> (u32 list \<times> nat) option" where
  "getArray buf s = fold (\<lambda>i s. do {
       (xs, off) \<leftarrow> s;
       v \<leftarrow> beGet32 off buf;
       Some (xs[i := v], off + 4) }) [0..<8] (Some s)"

definition Deserialize :: "u8 list \<Rightarrow> 'b CPU \<Rightarrow> serError + 'b CPU" where
  "Deserialize buf c =
    (if length buf < SerializeSize then Inl BufferTooSmall
     else orPanic (do {
       version \<leftarrow> getByte 0 buf;
       if version \<noteq> cpuSerializeVersion then Some (Inl UnsupportedVersion)
       else do {
         let off = 1;
         (ds, off) \<leftarrow> getArray buf (regD (reg c), off);
         (as, off) \<leftarrow> getArray buf (regA (reg c), off);
         pc \<leftarrow> beGet32 off buf; let off = off + 4;
         sr \<leftarrow> beGet16 off buf; let off = off + 2;
         usp \<leftarrow> beGet32 off buf; let off = off + 4;
         ssp \<leftarrow> beGet32 off buf; let off = off + 4;
         rir \<leftarrow> beGet16 off buf; let off = off + 2;
         cyc \<leftarrow> beGet64 off buf; let off = off + 8;
         i \<leftarrow> beGet16 off buf; let off = off + 2;
         st \<leftarrow> getByte off buf; let off = off + 1;
         h \<leftarrow> getByte off buf; let off = off + 1;
         pp \<leftarrow> beGet32 off buf; let off = off + 4;
         ipl \<leftarrow> getByte off buf; let off = off + 1;
         hasVec \<leftarrow> getByte off buf;
         vec \<leftarrow> (if hasVec \<noteq> 0 then do { v \<leftarrow> getByte (off + 1) buf; Some (Some v) } else Some None);
         let off = off + 2;
         def \<leftarrow> beGet32 off buf;
         Some (Inr (c\<lparr>reg := (reg c)\<lparr>regD := ds, regA := as, regPC := pc, regSR := sr, regUSP := usp,
                   regSSP := ssp, regIR := rir\<rparr>,
                 cycles := cyc, ir := i, stopped := (st \<noteq> 0), halted := (h \<noteq> 0), prevPC := pp,
                 pendingIPL := ipl, pendingVec := vec, deficit := sint def\<rparr>)) } }))"

text \<open>
  The states a saved image can hold: eight registers of each kind, and a deficit that fits the
  32-bit field of the layout.
\<close>

definition serializable :: "'b CPU \<Rightarrow> bool" where
  "serializable c \<longleftrightarrow> length (regD (reg c)) = 8 \<and> length (regA (reg c)) = 8 \<and>
     - (2 ^ 31) \<le> deficit c \<and> deficit c < 2 ^ 31"

subsection \<open>Loads and stores at an offset\<close>

lemma length_Put [simp]:
  "length (PutUint16 off v16 buf) = length buf" "length (PutUint32 off v32 buf) = length buf"
  "length (PutUint64 off v64 buf) = length buf"
  by (simp_all add: PutUint16_def PutUint32_def PutUint64_def)

lemma join16: "ucast (ucast v :: u8) OR push_bit 8 (ucast (ucast (drop_bit 8 v) :: u8)) = (v :: u16)"
  by (simp add: bits16)

lemma join32: "ucast (ucast v :: u8) OR push_bit 8 (ucast (ucast (drop_bit 8 v) :: u8)) OR
   push_bit 16 (ucast (ucast (drop_bit 16 v) :: u8)) OR push_bit 24 (ucast (ucast (drop_bit 24 v) :: u8)) = (v :: u32)"
  by (simp add: bits32)

lemma join64: "ucast (ucast v :: u8) OR push_bit 8 (ucast (ucast (drop_bit 8 v) :: u8)) OR
   push_bit 16 (ucast (ucast (drop_bit 16 v) :: u8)) OR push_bit 24 (ucast (ucast (drop_bit 24 v) :: u8)) OR
   push_bit 32 (ucast (ucast (drop_bit 32 v) :: u8)) OR push_bit 40 (ucast (ucast (drop_bit 40 v) :: u8)) OR
   push_bit 48 (ucast (ucast (drop_bit 48 v) :: u8)) OR push_bit 56 (ucast (ucast (drop_bit 56 v) :: u8)) = (v :: u64)"
  by (simp add: bits64)

lemma Uint_Put_same [simp]:
  "off + 1 < length buf \<Longrightarrow> Uint16 off (PutUint16 off v16 buf) = v16"
  "off + 3 < length buf \<Longrightarrow> Uint32 off (PutUint32 off v32 buf) = v32"
  "off + 7 < length buf \<Longrightarrow> Uint64 off (PutUint64 off v64 buf) = v64"
  by (simp_all add: Uint16_def PutUint16_def Uint32_def PutUint32_def Uint64_def PutUint64_def
    join16 join32 join64)

lemma nth_Put [simp]:
  "i < off \<or> off + 2 \<le> i \<Longrightarrow> PutUint16 off v16 buf ! i = buf ! i"
  "i < off \<or> off + 4 \<le> i \<Longrightarrow> PutUint32 off v32 buf ! i = buf ! i"
  "i < off \<or> off + 8 \<le> i \<Longrightarrow> PutUint64 off v64 buf ! i = buf ! i"
  by (auto simp: PutUint16_def PutUint32_def PutUint64_def)

lemma Uint16_other [simp]:
  "i + 2 \<le> off \<or> off + 2 \<le> i \<Longrightarrow> Uint16 i (PutUint16 off v16 buf) = Uint16 i buf"
  "i + 2 \<le> off \<or> off + 4 \<le> i \<Longrightarrow> Uint16 i (PutUint32 off v32 buf) = Uint16 i buf"
  "i + 2 \<le> off \<or> off + 8 \<le> i \<Longrightarrow> Uint16 i (PutUint64 off v64 buf) = Uint16 i buf"
  "i + 2 \<le> off \<or> off + 1 \<le> i \<Longrightarrow> Uint16 i (buf[off := v8]) = Uint16 i buf"
  by (auto simp: Uint16_def)

lemma Uint32_other [simp]:
  "i + 4 \<le> off \<or> off + 2 \<le> i \<Longrightarrow> Uint32 i (PutUint16 off v16 buf) = Uint32 i buf"
  "i + 4 \<le> off \<or> off + 4 \<le> i \<Longrightarrow> Uint32 i (PutUint32 off v32 buf) = Uint32 i buf"
  "i + 4 \<le> off \<or> off + 8 \<le> i \<Longrightarrow> Uint32 i (PutUint64 off v64 buf) = Uint32 i buf"
  "i + 4 \<le> off \<or> off + 1 \<le> i \<Longrightarrow> Uint32 i (buf[off := v8]) = Uint32 i buf"
  by (auto simp: Uint32_def)

lemma Uint64_other [simp]:
  "i + 8 \<le> off \<or> off + 2 \<le> i \<Longrightarrow> Uint64 i (PutUint16 off v16 buf) = Uint64 i buf"
  "i + 8 \<le> off \<or> off + 4 \<le> i \<Longrightarrow> Uint64 i (PutUint32 off v32 buf) = Uint64 i buf"
  "i + 8 \<le> off \<or> off + 1 \<le> i \<Longrightarrow> Uint64 i (buf[off := v8]) = Uint64 i buf"
  by (auto simp: Uint64_def)

text \<open>The loops over the register arrays, unrolled.\<close>

lemma upt_8: "[0..<8] = [0, 1, 2, 3, 4, 5, 6, 7 :: nat]"
  by (simp add: upt_rec)

text \<open>Accesses within the slice.\<close>

lemma slice_access:
  "off < length buf \<Longrightarrow> setByte off v8 buf = Some (buf[off := v8])"
  "off < length buf \<Longrightarrow> getByte off buf = Some (buf ! off)"
  "off + 2 \<le> length buf \<Longrightarrow> bePut16 off v16 buf = Some (PutUint16 off v16 buf)"
  "off + 4 \<le> length buf \<Longrightarrow> bePut32 off v32 buf = Some (PutUint32 off v32 buf)"
  "off + 8 \<le> length buf \<Longrightarrow> bePut64 off v64 buf = Some (PutUint64 off v64 buf)"
  "off + 2 \<le> length buf \<Longrightarrow> beGet16 off buf = Some (Uint16 off buf)"
  "off + 4 \<le> length buf \<Longrightarrow> beGet32 off buf = Some (Uint32 off buf)"
  "off + 8 \<le> length buf \<Longrightarrow> beGet64 off buf = Some (Uint64 off buf)"
  by (simp_all add: setByte_def getByte_def bePut16_def bePut32_def bePut64_def beGet16_def beGet32_def
    beGet64_def)

definition storedArray :: "u32 list \<Rightarrow> nat \<Rightarrow> u8 list \<Rightarrow> u8 list" where
  "storedArray xs off buf =
     PutUint32 (off + 28) (xs ! 7) (PutUint32 (off + 24) (xs ! 6) (PutUint32 (off + 20) (xs ! 5)
      (PutUint32 (off + 16) (xs ! 4) (PutUint32 (off + 12) (xs ! 3) (PutUint32 (off + 8) (xs ! 2)
      (PutUint32 (off + 4) (xs ! 1) (PutUint32 off (xs ! 0) buf)))))))"

lemma length_storedArray [simp]: "length (storedArray xs off buf) = length buf"
  by (simp add: storedArray_def)

lemma putArray_unroll:
  assumes "off + 32 \<le> length buf"
  shows "putArray xs (buf, off) = Some (storedArray xs off buf, off + 32)"
  using assms by (simp add: putArray_def upt_8 add.assoc slice_access storedArray_def)

lemma getArray_unroll:
  assumes "length xs = 8" "off + 32 \<le> length buf"
  shows "getArray buf (xs, off) = Some
     ([Uint32 off buf, Uint32 (off + 4) buf, Uint32 (off + 8) buf, Uint32 (off + 12) buf,
       Uint32 (off + 16) buf, Uint32 (off + 20) buf, Uint32 (off + 24) buf, Uint32 (off + 28) buf],
      off + 32)"
proof -
  obtain x0 x1 x2 x3 x4 x5 x6 x7 where "xs = [x0, x1, x2, x3, x4, x5, x6, x7]"
    using assms(1) by (auto simp: numeral_eq_Suc length_Suc_conv)
  then show ?thesis using assms(2) by (simp add: getArray_def upt_8 add.assoc slice_access)
qed

lemma getArray_some:
  assumes "off + 32 \<le> length buf"
  shows "\<exists>ys. getArray buf (xs, off) = Some (ys, off + 32)"
  using assms by (simp add: getArray_def upt_8 add.assoc slice_access)

lemma list_8: "length xs = 8 \<Longrightarrow> [xs ! 0, xs ! Suc 0, xs ! 2, xs ! 3, xs ! 4, xs ! 5, xs ! 6, xs ! 7] = xs"
  by (auto simp: numeral_eq_Suc length_Suc_conv)

subsection \<open>The layout\<close>

text \<open>Both methods with the offsets worked out.\<close>

lemma Deserialize_layout:
  assumes "SerializeSize \<le> length buf" "buf ! 0 = cpuSerializeVersion"
    and "length (regD (reg c)) = 8" "length (regA (reg c)) = 8"
  shows "Deserialize buf c = Inr (c\<lparr>
    reg := (reg c)\<lparr>
      regD := [Uint32 1 buf, Uint32 5 buf, Uint32 9 buf, Uint32 13 buf,
        Uint32 17 buf, Uint32 21 buf, Uint32 25 buf, Uint32 29 buf],
      regA := [Uint32 33 buf, Uint32 37 buf, Uint32 41 buf, Uint32 45 buf,
        Uint32 49 buf, Uint32 53 buf, Uint32 57 buf, Uint32 61 buf],
      regPC := Uint32 65 buf, regSR := Uint16 69 buf, regUSP := Uint32 71 buf,
      regSSP := Uint32 75 buf, regIR := Uint16 79 buf\<rparr>,
    cycles := Uint64 81 buf, ir := Uint16 89 buf, stopped := (buf ! 91 \<noteq> 0), halted := (buf ! 92 \<noteq> 0),
    prevPC := Uint32 93 buf, pendingIPL := buf ! 97,
    pendingVec := (if buf ! 98 \<noteq> 0 then Some (buf ! 99) else None), deficit := sint (Uint32 100 buf)\<rparr>)"
proof -
  have "0 < length buf" using assms(1) by linarith
  then show ?thesis
    using assms by (simp add: Deserialize_def getArray_unroll slice_access orPanic_def)
qed

lemma Serialize_layout:
  assumes "SerializeSize \<le> length buf"
  shows "Serialize c buf = Inr (
    PutUint32 100 (word_of_int (deficit c))
    ((case pendingVec c of Some v \<Rightarrow> (\<lambda>b. b[98 := 1, 99 := v]) | None \<Rightarrow> (\<lambda>b. b[98 := 0, 99 := 0]))
    ((PutUint32 93 (prevPC c)
     ((PutUint16 89 (ir c) (PutUint64 81 (cycles c) (PutUint16 79 (regIR (reg c))
      (PutUint32 75 (regSSP (reg c)) (PutUint32 71 (regUSP (reg c)) (PutUint16 69 (regSR (reg c))
      (PutUint32 65 (regPC (reg c)) (storedArray (regA (reg c)) 33 (storedArray (regD (reg c)) 1
      (buf[0 := cpuSerializeVersion])))))))))) [91 := boolByte (stopped c), 92 := boolByte (halted c)]))
     [97 := pendingIPL c])))"
proof -
  have "0 < length buf" using assms by linarith
  then show ?thesis
    using assms by (simp add: Serialize_def putArray_unroll slice_access orPanic_def split: option.split)
qed

lemma sint_int32: "- (2 ^ 31) \<le> k \<Longrightarrow> k < 2 ^ 31 \<Longrightarrow> sint (word_of_int k :: u32) = k"
  by (simp add: sint_sbintrunc' signed_take_bit_int_eq_self)

lemma boolByte_neq_0 [simp]: "boolByte b \<noteq> 0 \<longleftrightarrow> b"
  by (simp add: boolByte_def)

lemma Serialize_Deserialize_errors:
  "Serialize c buf = Inl e \<longleftrightarrow> length buf < SerializeSize \<and> e = BufferTooSmall"
  "Deserialize buf c = Inl e \<longleftrightarrow>
     (if length buf < SerializeSize then e = BufferTooSmall
      else buf ! 0 \<noteq> cpuSerializeVersion \<and> e = UnsupportedVersion)"
proof -
  have "\<exists>buf'. Serialize c buf = Inr buf'" if "SerializeSize \<le> length buf"
    using Serialize_layout [OF that] by blast
  moreover have "Serialize c buf = Inl BufferTooSmall" if "length buf < SerializeSize"
    using that by (simp add: Serialize_def)
  ultimately show "Serialize c buf = Inl e \<longleftrightarrow> length buf < SerializeSize \<and> e = BufferTooSmall"
    by (cases "length buf < SerializeSize") auto
  show "Deserialize buf c = Inl e \<longleftrightarrow>
     (if length buf < SerializeSize then e = BufferTooSmall
      else buf ! 0 \<noteq> cpuSerializeVersion \<and> e = UnsupportedVersion)"
  proof (cases "length buf < SerializeSize")
    case False
    then have l: "SerializeSize \<le> length buf" "0 < length buf" by linarith+
    obtain ds as where "getArray buf (regD (reg c), 1) = Some (ds, 33)"
      "getArray buf (regA (reg c), 33) = Some (as, 65)"
      using getArray_some [of 1 buf] getArray_some [of 33 buf] l(1) by fastforce
    with l show ?thesis by (auto simp: Deserialize_def slice_access orPanic_def)
  qed (auto simp: Deserialize_def)
qed

text \<open>
  Saving and restoring: for a CPU whose deficit fits in 32 bits and a buffer of at least
  \<open>SerializeSize\<close> bytes, \<open>Serialize\<close> succeeds, and \<open>Deserialize\<close> of what it wrote into any
  other CPU succeeds and gives that CPU exactly the saved state, except for its bus.
\<close>

lemma Deserialize_Serialize:
  assumes "serializable c" and "SerializeSize \<le> length buf"
    and "length (regD (reg d)) = 8" "length (regA (reg d)) = 8"
  shows "\<exists>buf'. Serialize c buf = Inr buf' \<and>
    Deserialize buf' d = Inr (c\<lparr>bus := bus d, busState := busState d, panicked := panicked d\<rparr>)"
proof -
  have "buf \<noteq> []" using assms(2) by auto
  then show ?thesis
    using assms unfolding serializable_def
    by (cases "pendingVec c"; cases c; cases "reg c"; cases d)
      (simp_all add: Serialize_layout storedArray_def Deserialize_layout list_8 sint_int32)
qed

subsection \<open>Properties\<close>

text \<open>
  C7. \<open>Serialize\<close> fails exactly on buffers shorter than \<open>SerializeSize\<close>, with its error and never by
  indexing outside the buffer. Otherwise it keeps the length of the buffer and leaves everything after
  the first \<open>SerializeSize\<close> bytes alone.
\<close>

theorem Serialize_frame:
  "case Serialize c buf of
     Inl e \<Rightarrow> length buf < SerializeSize \<and> e = BufferTooSmall
   | Inr buf' \<Rightarrow> SerializeSize \<le> length buf \<and> length buf' = length buf \<and>
       drop SerializeSize buf' = drop SerializeSize buf"
proof (cases "length buf < SerializeSize")
  case True
  then show ?thesis by (simp add: Serialize_def)
next
  case False
  then show ?thesis
    by (cases "pendingVec c")
      (simp_all add: Serialize_layout storedArray_def PutUint16_def PutUint32_def PutUint64_def)
qed

end
