(* ===== verification/M68k_Api.thy ===== *)
theory M68k_Api
  imports M68k_Privilege M68k_Serialize M68k_TestBus
begin

text \<open>
  The life of a CPU seen from its client: construction by \<open>New\<close> and any sequence of calls of
  the exported methods. \<open>apply_op\<close> is one call, with what it leaves in the CPU (a panic of any of
  them sets \<open>panicked\<close>); \<open>reachable B I G\<close> are the states after such sequences,
  for a bus \<open>B\<close> whose initial state satisfies \<open>I\<close> and calls that satisfy \<open>G\<close>.
\<close>

datatype api_op =
    OpStep
  | OpStepCycles int
  | OpReset
  | OpAddCycles u64
  | OpRequestInterrupt u8 "u8 option"
  | OpSetIPL u8 "u8 option"
  | OpSetState Registers
  | OpSerialize "u8 list"
  | OpDeserialize "u8 list"

fun apply_op :: "api_op \<Rightarrow> 'b CPU \<Rightarrow> 'b CPU" where
  "apply_op OpStep c = snd (run_state Step c)"
| "apply_op (OpStepCycles n) c = snd (run_state (StepCycles n) c)"
| "apply_op OpReset c = snd (run_state Reset c)"
| "apply_op (OpAddCycles n) c = snd (run_state (AddCycles n) c)"
| "apply_op (OpRequestInterrupt l v) c = snd (run_state (RequestInterrupt l v) c)"
| "apply_op (OpSetIPL l v) c = snd (run_state (SetIPL l v) c)"
| "apply_op (OpSetState r) c = snd (run_state (SetState r) c)"
| "apply_op (OpSerialize buf) c =
     (if Serialize c buf = Inl IndexPanic then c\<lparr>panicked := True\<rparr> else c)"
| "apply_op (OpDeserialize buf) c =
     (case Deserialize buf c of
        Inl e \<Rightarrow> if e = IndexPanic then c\<lparr>panicked := True\<rparr> else c
      | Inr c' \<Rightarrow> c')"

inductive reachable :: "'b Bus \<Rightarrow> ('b \<Rightarrow> bool) \<Rightarrow> (api_op \<Rightarrow> bool) \<Rightarrow> 'b CPU \<Rightarrow> bool" for B I G where
  reachable_New: "I s \<Longrightarrow> reachable B I G (New B s)"
| reachable_op: "reachable B I G c \<Longrightarrow> G oper \<Longrightarrow> reachable B I G (apply_op oper c)"

text \<open>
  The conditions: the register arrays passed to \<open>SetState\<close> have eight entries, as their Go type
  says; interrupt levels are at most 7 and status registers loaded from outside are valid.
\<close>

fun typed_op :: "api_op \<Rightarrow> bool" where
  "typed_op (OpSetState r) \<longleftrightarrow> length (regD r) = 8 \<and> length (regA r) = 8"
| "typed_op _ \<longleftrightarrow> True"

fun sr_op :: "api_op \<Rightarrow> bool" where
  "sr_op (OpRequestInterrupt l v) \<longleftrightarrow> l \<le> 7"
| "sr_op (OpSetIPL l v) \<longleftrightarrow> l \<le> 7"
| "sr_op (OpSetState r) \<longleftrightarrow> sr_ok (regSR r)"
| "sr_op (OpDeserialize buf) \<longleftrightarrow>
     (length buf < SerializeSize \<or> buf ! 0 \<noteq> cpuSerializeVersion \<or>
      sr_ok (Uint16 69 buf) \<and> buf ! 97 \<le> 7)"
| "sr_op _ \<longleftrightarrow> True"

subsection \<open>The methods keep the invariants\<close>

text \<open>
  What \<open>New\<close>, \<open>Reset\<close> and \<open>Deserialize\<close> leave in the fields the invariants speak about.
\<close>

lemma Reset_fields:
  fixes c :: "'b CPU"
  defines "c' \<equiv> snd (run_state Reset c)"
  shows "length (regD (reg c')) = 8" "length (regA (reg c')) = 8" "regSR (reg c') = 0x2700"
    "pendingIPL c' = 0" "bus c' = bus c" "panicked c' = panicked c"
    "busState c' = snd (Read32 (bus c) (snd (Read32 (bus c) (busState c) 0)) 4)"
  unfolding c'_def Reset_def
  by (simp_all add: zeroRegisters_def busRead32_def split_def)

lemma New_fields:
  "length (regD (reg (New B s))) = 8" "length (regA (reg (New B s))) = 8"
  "regSR (reg (New B s)) = 0x2700" "pendingIPL (New B s) = 0" "bus (New B s) = B"
  "\<not> panicked (New B s)" "busState (New B s) = snd (Read32 B (snd (Read32 B s 0)) 4)"
  unfolding New_def Reset_fields by (simp_all add: zeroCPU_def)

lemma SetState_fields:
  fixes c :: "'b CPU" and r :: Registers
  assumes "length (regA (reg c)) = 8" "length (regA r) = 8"
  defines "c' \<equiv> snd (run_state (SetState r) c)"
  shows "regD (reg c') = regD r" "length (regA (reg c')) = 8" "regSR (reg c') = regSR r"
    "pendingIPL c' = 0" "bus c' = bus c" "panicked c' = panicked c" "busState c' = busState c"
  unfolding c'_def SetState_def using assms(1,2)
  by (simp_all add: upt_rec)

lemma Deserialize_fields:
  assumes "Deserialize buf c = Inr c'" "length (regD (reg c)) = 8" "length (regA (reg c)) = 8"
  shows "length (regD (reg c')) = 8" "length (regA (reg c')) = 8" "regSR (reg c') = Uint16 69 buf"
    "pendingIPL c' = buf ! 97" "bus c' = bus c" "panicked c' = panicked c" "busState c' = busState c"
    "SerializeSize \<le> length buf" "buf ! 0 = cpuSerializeVersion"
proof -
  have "\<nexists>e. Deserialize buf c = Inl e" using assms(1) by simp
  then show ok: "SerializeSize \<le> length buf" "buf ! 0 = cpuSerializeVersion"
    unfolding Serialize_Deserialize_errors(2) by (auto split: if_splits)
  show "length (regD (reg c')) = 8" "length (regA (reg c')) = 8" "regSR (reg c') = Uint16 69 buf"
    "pendingIPL c' = buf ! 97" "bus c' = bus c" "panicked c' = panicked c" "busState c' = busState c"
    using assms(1) by (simp_all add: Deserialize_layout [OF ok assms(2,3)]) auto
qed

lemma serialize_no_panic: "Serialize c buf \<noteq> Inl IndexPanic" "Deserialize buf c \<noteq> Inl IndexPanic"
  by (simp_all add: Serialize_Deserialize_errors)

lemma apply_serialize: "apply_op (OpSerialize buf) c = c"
  "apply_op (OpDeserialize buf) c = (case Deserialize buf c of Inl _ \<Rightarrow> c | Inr c' \<Rightarrow> c')"
  using serialize_no_panic by (auto split: sum.split)

text \<open>One case per method; the executing methods come from the interpretations.\<close>

lemma wf_Step: "wf_cpu c \<Longrightarrow> wf_cpu (snd (run_state Step c))"
  "wf_cpu c \<Longrightarrow> wf_cpu (snd (run_state (StepCycles n) c))"
  using keeps_wf.io_Step [unfolded state_io_rel_def keeps_wf_def]
    keeps_wf.io_StepCycles [unfolded state_io_rel_def keeps_wf_def] by blast+

lemma sr_valid_Step: "sr_valid c \<Longrightarrow> sr_valid (snd (run_state Step c))"
  "sr_valid c \<Longrightarrow> sr_valid (snd (run_state (StepCycles n) c))"
  using keeps_sr.io_Step [unfolded state_io_rel_def keeps_sr_def]
    keeps_sr.io_StepCycles [unfolded state_io_rel_def keeps_sr_def] by blast+

lemma wf_apply_op:
  assumes "wf_cpu c" and "typed_op oper"
  shows "wf_cpu (apply_op oper c)"
proof (cases oper)
  case (OpDeserialize buf)
  then show ?thesis
    using assms(1) Deserialize_fields [of buf c] by (auto simp: apply_serialize wf_cpu_def simp del: apply_op.simps split: sum.split)
qed (use assms wf_Step in \<open>simp_all add: wf_cpu_def Reset_fields SetState_fields AddCycles_def
      RequestInterrupt_def SetIPL_def serialize_no_panic\<close>)

lemma sr_valid_apply_op:
  assumes "sr_valid c" and "wf_cpu c" and "typed_op oper" and "sr_op oper"
  shows "sr_valid (apply_op oper c)"
proof (cases oper)
  case (OpDeserialize buf)
  then show ?thesis
    using assms Deserialize_fields [of buf c] by (auto simp: apply_serialize sr_valid_def wf_cpu_def simp del: apply_op.simps split: sum.split)
qed (use assms sr_valid_Step in \<open>simp_all add: sr_valid_def wf_cpu_def sr_ok_def Reset_fields
      SetState_fields AddCycles_def RequestInterrupt_def SetIPL_def
      serialize_no_panic\<close>)

lemma bus_apply_op:
  assumes "bus_closed B P" and "bus c = B" and "P (busState c)" and "wf_cpu c" and "typed_op oper"
  shows "bus (apply_op oper c) = B \<and> P (busState (apply_op oper c))"
proof -
  have B: "bus_client B P" using assms(1) by (rule bus_client.intro)
  have aligned: "P (snd (Read32 B s 0))" "P (snd (Read32 B s 4))" if "P s" for s
    using bus_client.closed_access(4) [OF B that, of 0] bus_client.closed_access(4) [OF B that, of 4]
    by simp_all
  have step: "keeps_bus B P c (snd (run_state Step c))"
      "keeps_bus B P c (snd (run_state (StepCycles n) c))" for n
    by (rule bus_client.keeps_bus_Step [OF B])+
  show ?thesis
  proof (cases oper)
    case (OpDeserialize buf)
    then show ?thesis
      using assms Deserialize_fields [of buf c] by (auto simp: apply_serialize wf_cpu_def simp del: apply_op.simps split: sum.split)
  qed (use assms step aligned in \<open>simp_all add: keeps_bus_def wf_cpu_def Reset_fields
      SetState_fields AddCycles_def RequestInterrupt_def SetIPL_def
      serialize_no_panic\<close>)
qed

lemma reachable_wf: "reachable B I G c \<Longrightarrow> (\<And>oper. G oper \<Longrightarrow> typed_op oper) \<Longrightarrow> wf_cpu c"
proof (induction rule: reachable.induct)
  case (reachable_New s)
  then show ?case by (simp add: wf_cpu_def New_fields)
qed (simp add: wf_apply_op)

lemma reachable_bus:
  assumes "reachable B I G c" and "\<And>oper. G oper \<Longrightarrow> typed_op oper"
    and "bus_closed B P" and "\<And>s. I s \<Longrightarrow> P s"
  shows "bus c = B \<and> P (busState c)"
  using assms(1)
proof (induction rule: reachable.induct)
  case (reachable_New s)
  then have "P s" by (rule assms(4))
  then show ?case
    using bus_client.closed_access(4) [OF bus_client.intro [OF assms(3)], of _ 0]
      bus_client.closed_access(4) [OF bus_client.intro [OF assms(3)], of _ 4]
    by (simp add: New_fields)
next
  case (reachable_op c oper)
  then show ?case
    using bus_apply_op assms(2,3) reachable_wf [OF reachable_op(1) assms(2)] by blast
qed

subsection \<open>Properties\<close>

text \<open>
  C1. The emulator never panics. In every state reachable from \<open>New\<close> by any sequence of calls of
  the exported methods, on any bus, any memory contents and with buffers of any length and contents,
  the register files have eight entries and \<open>panicked\<close> is not set: no register, table or buffer index
  was out of range (\<open>getD\<close>, \<open>goIndex\<close>, the slice accesses of \<open>Serialize\<close> and \<open>Deserialize\<close>), no operand closure
  that does not exist was called, and nothing was divided by zero (\<open>goDivide\<close>, the rotation of
  \<open>doShift\<close>).
\<close>

theorem reachable_no_panic:
  assumes "reachable B I typed_op c"
  shows "wf_cpu c"
  using assms by (rule reachable_wf)

theorem reachable_no_panic_witness:
  "wf_cpu (apply_op OpStep (apply_op (OpSetIPL 7 None) (New testBus (\<lambda>_. 0))))"
  by (rule reachable_no_panic [where B = testBus and I = "\<lambda>_. True"])
    (intro reachable_op reachable_New; simp)

text \<open>
  C2. Every bus access is well-formed. On a bus that records its accesses, every access of every
  run of the exported methods has an address below \<open>2 ^ 24\<close>, and an even one if it is a word or
  a long word.
\<close>

theorem reachable_accesses_ok:
  assumes "reachable (loggedBus B) (\<lambda>(s, l). l = []) typed_op c" and "a \<in> set (snd (busState c))"
  shows "access_ok a"
proof -
  have "log_ok (busState c)"
    using reachable_bus [OF assms(1) _ bus_closed_logged] by (auto simp: log_ok_def)
  with assms(2) show ?thesis
    by (auto simp: log_ok_def list_all_iff)
qed

theorem reachable_accesses_ok_witness:
  "let c = New (loggedBus testBus) (\<lambda>_. 0, []) in
     Rd sizeLong 4 \<in> set (snd (busState c)) \<and> access_ok (Rd sizeLong 4)"
proof -
  have "reachable (loggedBus testBus) (\<lambda>(s, l). l = []) typed_op (New (loggedBus testBus) (\<lambda>_. 0, []))"
    by (rule reachable_New) simp
  moreover have "Rd sizeLong 4 \<in> set (snd (busState (New (loggedBus testBus) (\<lambda>_. 0, []))))"
    by (simp add: New_fields loggedBus_def testBus_def split_def)
  ultimately show ?thesis
    using reachable_accesses_ok by (auto simp: Let_def)
qed

text \<open>
  C5. Unimplemented bits of the status register read as zero. If interrupt levels are at most 7
  and the status registers loaded through \<open>SetState\<close> and \<open>Deserialize\<close> are valid, then in
  every reachable state only the bits T, S, I2-I0, X, N, Z, V, C of the status register are set.
\<close>

theorem reachable_sr_valid:
  assumes "reachable B I (\<lambda>oper. typed_op oper \<and> sr_op oper) c"
  shows "regSR (reg c) AND NOT 0xA71F = 0 \<and> pendingIPL c \<le> 7"
proof -
  have "sr_valid c"
    using assms
  proof (induction rule: reachable.induct)
    case (reachable_New s)
    then show ?case by (simp add: sr_valid_def sr_ok_def New_fields)
  next
    case (reachable_op c oper)
    then show ?case
      using reachable_wf [OF reachable_op(1)] by (simp add: sr_valid_apply_op)
  qed
  then show ?thesis by (simp add: sr_valid_def sr_ok_def)
qed

theorem reachable_sr_valid_witness:
  "let c = apply_op OpStep (apply_op (OpRequestInterrupt 7 (Some 64)) (New testBus (\<lambda>_. 0))) in
     regSR (reg c) AND NOT 0xA71F = 0 \<and> pendingIPL c \<le> 7"
  unfolding Let_def
  by (rule reachable_sr_valid [where B = testBus and I = "\<lambda>_. True"])
    (intro reachable_op reachable_New; simp)

end
