(* ===== verification/M68k_Opcode.thy ===== *)
theory M68k_Opcode
  imports M68k_Decode
begin

text \<open>
  A reference decoder. \<open>decode\<close> reads the fields of an opcode top down, line by line, the way the
  opcode map of the processor manual is laid out, and the theorem at the end says that the table
  built by the 68 registration functions is exactly this function: every loop stores what the map
  says, no two loops store different handlers at the same opcode, and nothing is left out.
\<close>

subsection \<open>Fields of an opcode\<close>

definition line :: "u16 \<Rightarrow> u16" where "line op = drop_bit 12 op AND 15"
definition f9 :: "u16 \<Rightarrow> u16" where "f9 op = drop_bit 9 op AND 7"
definition f8 :: "u16 \<Rightarrow> u16" where "f8 op = drop_bit 8 op AND 1"
definition f6 :: "u16 \<Rightarrow> u16" where "f6 op = drop_bit 6 op AND 3"
definition f3 :: "u16 \<Rightarrow> u16" where "f3 op = drop_bit 3 op AND 7"
definition f0 :: "u16 \<Rightarrow> u16" where "f0 op = op AND 7"

definition pack :: "u16 \<Rightarrow> u16 \<Rightarrow> u16 \<Rightarrow> u16 \<Rightarrow> u16 \<Rightarrow> u16 \<Rightarrow> u16" where
  "pack l a b s m r = push_bit 12 l OR push_bit 9 a OR push_bit 8 b OR push_bit 6 s OR push_bit 3 m OR r"

text \<open>
  Operand categories: any operand, data operands, data alterable, memory alterable and control
  operands.
\<close>

definition anyOp :: "u16 \<Rightarrow> u16 \<Rightarrow> bool" where
  "anyOp m r \<longleftrightarrow> \<not> (m = 7 \<and> r > 4)"

definition dataOp :: "u16 \<Rightarrow> u16 \<Rightarrow> bool" where
  "dataOp m r \<longleftrightarrow> m \<noteq> 1 \<and> \<not> (m = 7 \<and> r > 4)"

definition dataAlt :: "u16 \<Rightarrow> u16 \<Rightarrow> bool" where
  "dataAlt m r \<longleftrightarrow> m \<noteq> 1 \<and> \<not> (m = 7 \<and> r > 1)"

definition memAlt :: "u16 \<Rightarrow> u16 \<Rightarrow> bool" where
  "memAlt m r \<longleftrightarrow> 2 \<le> m \<and> \<not> (m = 7 \<and> r > 1)"

definition ctrlOp :: "u16 \<Rightarrow> u16 \<Rightarrow> bool" where
  "ctrlOp m r \<longleftrightarrow> 2 \<le> m \<and> m \<noteq> 3 \<and> m \<noteq> 4 \<and> \<not> (m = 7 \<and> r > 3)"

definition guarded :: "bool \<Rightarrow> 'a \<Rightarrow> 'a option" where
  "guarded b x = (if b then Some x else None)"

subsection \<open>The reference decoder\<close>

text \<open>The arguments are the fields \<open>f9\<close>, \<open>f8\<close>, \<open>f6\<close>, \<open>f3\<close>, \<open>f0\<close>.\<close>

definition decodeLine0 :: "u16 \<Rightarrow> u16 \<Rightarrow> u16 \<Rightarrow> u16 \<Rightarrow> u16 \<Rightarrow> 'b opFunc option" where
  "decodeLine0 a b s m r =
    (if b = 1 then
       (if m = 1 then Some opMOVEP
        else if s = 0 then guarded (dataOp m r) (makeBTSTdyn a m r)
        else if s = 1 then guarded (dataAlt m r) (makeBCHGdyn a m r)
        else if s = 2 then guarded (dataAlt m r) (makeBCLRdyn a m r)
        else guarded (dataAlt m r) (makeBSETdyn a m r))
     else if a = 4 then
       (if s = 0 then guarded (m \<noteq> 1 \<and> \<not> (m = 7 \<and> r > 3)) (makeBTSTstatic m r)
        else if s = 1 then guarded (dataAlt m r) (makeBCHGstatic m r)
        else if s = 2 then guarded (dataAlt m r) (makeBCLRstatic m r)
        else guarded (dataAlt m r) (makeBSETstatic m r))
     else if m = 7 \<and> r = 4 then
       (if s = 0 then
          (if a = 0 then Some opORItoCCR else if a = 1 then Some opANDItoCCR
           else if a = 5 then Some opEORItoCCR else None)
        else if s = 1 then
          (if a = 0 then Some opORItoSR else if a = 1 then Some opANDItoSR
           else if a = 5 then Some opEORItoSR else None)
        else None)
     else if a = 7 then None
     else guarded (s < 3 \<and> dataAlt m r)
       (if a = 0 then makeORI m r else if a = 1 then makeANDI m r else if a = 2 then makeSUBI m r
        else if a = 3 then makeADDI m r else if a = 5 then makeEORI m r else makeCMPI m r))"

text \<open>MOVE: the destination mode is above the destination register.\<close>

definition decodeMove :: "u16 \<Rightarrow> u16 \<Rightarrow> u16 \<Rightarrow> u16 \<Rightarrow> u16 \<Rightarrow> u16 \<Rightarrow> 'b opFunc option" where
  "decodeMove l a b s m r =
    (let dm = push_bit 2 b OR s
     in if dm = 1 then guarded (l \<noteq> 1 \<and> anyOp m r) (makeMOVEA a m r)
        else guarded (\<not> (dm = 7 \<and> a > 1) \<and> anyOp m r) (makeMOVE m r dm a))"

definition decodeLine4 :: "u16 \<Rightarrow> u16 \<Rightarrow> u16 \<Rightarrow> u16 \<Rightarrow> u16 \<Rightarrow> 'b opFunc option" where
  "decodeLine4 a b s m r =
    (if b = 1 then
       (if s = 2 then guarded (dataOp m r) (makeCHK a m r)
        else if s = 3 then guarded (ctrlOp m r) (makeLEA a m r)
        else None)
     else if a = 4 then
       (if s = 0 then guarded (dataAlt m r) (makeNBCD m r)
        else if s = 1 then (if m = 0 then Some opSWAP else guarded (ctrlOp m r) (makePEA m r))
        else if m = 0 then Some (if s = 2 then opEXTW else opEXTL)
        else guarded (memAlt m r \<and> m \<noteq> 3) opMOVEM)
     else if a = 6 then
       guarded (2 \<le> s \<and> 2 \<le> m \<and> m \<noteq> 4 \<and> \<not> (m = 7 \<and> r > 3)) opMOVEM
     else if a = 7 then
       (if s = 1 then
          (if m = 0 \<or> m = 1 then Some opTRAP
           else if m = 2 then Some opLINK
           else if m = 3 then Some opUNLK
           else if m = 4 then Some opMOVEtoUSP
           else if m = 5 then Some opMOVEfromUSP
           else if m = 6 then
             (if r = 0 then Some opRESET else if r = 1 then Some opNOP else if r = 2 then Some opSTOP
              else if r = 3 then Some opRTE else if r = 5 then Some opRTS
              else if r = 6 then Some opTRAPV else if r = 7 then Some opRTR else None)
           else None)
        else if s = 2 then guarded (ctrlOp m r) (makeJSR m r)
        else if s = 3 then guarded (ctrlOp m r) (makeJMP m r)
        else None)
     else if s < 3 then guarded (dataAlt m r)
       (if a = 0 then makeNEGX m r else if a = 1 then makeCLR m r else if a = 2 then makeNEG m r
        else if a = 3 then makeNOT m r else makeTST m r)
     else if a = 0 then guarded (dataAlt m r) (makeMOVEfromSR m r)
     else if a = 2 then guarded (dataOp m r) (makeMOVEtoCCR m r)
     else if a = 3 then guarded (dataOp m r) (makeMOVEtoSR m r)
     else if a = 5 then guarded (dataAlt m r) (makeTAS m r)
     else None)"

definition decodeLine5 :: "u16 \<Rightarrow> u16 \<Rightarrow> u16 \<Rightarrow> u16 \<Rightarrow> u16 \<Rightarrow> 'b opFunc option" where
  "decodeLine5 a b s m r =
    (if s = 3 then (if m = 1 then Some opDBcc else guarded (dataAlt m r) (makeScc m r))
     else guarded (\<not> (m = 7 \<and> r > 1) \<and> \<not> (m = 1 \<and> s = 0))
       (if b = 0 then makeADDQ a m r else makeSUBQ a m r))"

definition decodeLine6 :: "u16 \<Rightarrow> u16 \<Rightarrow> 'b opFunc option" where
  "decodeLine6 a b = Some (if a = 0 then (if b = 0 then opBRA else opBSR) else opBcc)"

definition decodeLine8 :: "u16 \<Rightarrow> u16 \<Rightarrow> u16 \<Rightarrow> u16 \<Rightarrow> u16 \<Rightarrow> 'b opFunc option" where
  "decodeLine8 a b s m r =
    (if s = 3 then guarded (dataOp m r) (if b = 0 then makeDIVU a m r else makeDIVS a m r)
     else if b = 0 then guarded (dataOp m r) (makeORtoReg a m r)
     else if m = 0 then guarded (s = 0) opSBCDreg
     else if m = 1 then guarded (s = 0) opSBCDmem
     else guarded (memAlt m r) (makeORtoEA a m r))"

text \<open>Lines 9 and D, with the handlers of the subtractions or of the additions.\<close>

definition decodeAddSub :: "(u16 \<Rightarrow> u16 \<Rightarrow> u16 \<Rightarrow> 'b opFunc) \<Rightarrow> (u16 \<Rightarrow> u16 \<Rightarrow> u16 \<Rightarrow> 'b opFunc) \<Rightarrow>
    (u16 \<Rightarrow> u16 \<Rightarrow> u16 \<Rightarrow> 'b opFunc) \<Rightarrow> 'b opFunc \<Rightarrow> 'b opFunc \<Rightarrow>
    u16 \<Rightarrow> u16 \<Rightarrow> u16 \<Rightarrow> u16 \<Rightarrow> u16 \<Rightarrow> 'b opFunc option" where
  "decodeAddSub toReg toEA toA xreg xmem a b s m r =
    (if s = 3 then guarded (anyOp m r) (toA a m r)
     else if b = 0 then guarded (anyOp m r \<and> \<not> (m = 1 \<and> s = 0)) (toReg a m r)
     else if m = 0 then Some xreg
     else if m = 1 then Some xmem
     else guarded (memAlt m r) (toEA a m r))"

definition decodeLineB :: "u16 \<Rightarrow> u16 \<Rightarrow> u16 \<Rightarrow> u16 \<Rightarrow> u16 \<Rightarrow> 'b opFunc option" where
  "decodeLineB a b s m r =
    (if s = 3 then guarded (anyOp m r) (makeCMPA a m r)
     else if b = 0 then guarded (anyOp m r \<and> \<not> (m = 1 \<and> s = 0)) (makeCMP a m r)
     else if m = 1 then Some opCMPM
     else guarded (dataAlt m r) (makeEOR a m r))"

definition decodeLineC :: "u16 \<Rightarrow> u16 \<Rightarrow> u16 \<Rightarrow> u16 \<Rightarrow> u16 \<Rightarrow> 'b opFunc option" where
  "decodeLineC a b s m r =
    (if s = 3 then guarded (dataOp m r) (if b = 0 then makeMULU a m r else makeMULS a m r)
     else if b = 0 then guarded (dataOp m r) (makeANDtoReg a m r)
     else if m = 0 then (if s = 0 then Some opABCDreg else guarded (s = 1) opEXG)
     else if m = 1 then Some (if s = 0 then opABCDmem else opEXG)
     else guarded (memAlt m r) (makeANDtoEA a m r))"

definition decodeLineE :: "u16 \<Rightarrow> u16 \<Rightarrow> u16 \<Rightarrow> u16 \<Rightarrow> 'b opFunc option" where
  "decodeLineE a s m r =
    (if s = 3 then guarded (a < 4 \<and> memAlt m r) (makeShiftMem m r) else Some opShiftReg)"

definition decode :: "u16 \<Rightarrow> 'b opFunc option" where
  "decode op =
    (let l = line op; a = f9 op; b = f8 op; s = f6 op; m = f3 op; r = f0 op
     in if l = 0x0 then decodeLine0 a b s m r
        else if l = 0x1 \<or> l = 0x2 \<or> l = 0x3 then decodeMove l a b s m r
        else if l = 0x4 then decodeLine4 a b s m r
        else if l = 0x5 then decodeLine5 a b s m r
        else if l = 0x6 then decodeLine6 a b
        else if l = 0x7 then guarded (b = 0) opMOVEQ
        else if l = 0x8 then decodeLine8 a b s m r
        else if l = 0x9 then decodeAddSub makeSUBtoReg makeSUBtoEA makeSUBA opSUBXreg opSUBXmem a b s m r
        else if l = 0xB then decodeLineB a b s m r
        else if l = 0xC then decodeLineC a b s m r
        else if l = 0xD then decodeAddSub makeADDtoReg makeADDtoEA makeADDA opADDXreg opADDXmem a b s m r
        else if l = 0xE then decodeLineE a s m r
        else None)"

subsection \<open>Taking opcodes apart\<close>

lemmas field_defs = line_def f9_def f8_def f6_def f3_def f0_def

lemmas unpack_bits = field_defs bits16 numeral_2_eq_2 [symmetric]

lemma pack_fields: "pack (line op) (f9 op) (f8 op) (f6 op) (f3 op) (f0 op) = op"
  by (simp add: pack_def field_defs bits16)

lemma fields_pack:
  assumes "l < 16" "a < 8" "b < 2" "s < 4" "m < 8" "r < 8"
  shows "line (pack l a b s m r) = l" "f9 (pack l a b s m r) = a" "f8 (pack l a b s m r) = b"
    "f6 (pack l a b s m r) = s" "f3 (pack l a b s m r) = m" "f0 (pack l a b s m r) = r"
  using assms by (auto simp: pack_def field_defs bits16 dest!: lessDs)

lemma eq_pack_iff:
  assumes "l < 16" "a < 8" "b < 2" "s < 4" "m < 8" "r < 8"
  shows "op = pack l a b s m r \<longleftrightarrow>
     line op = l \<and> a = f9 op \<and> b = f8 op \<and> s = f6 op \<and> m = f3 op \<and> r = f0 op"
  using fields_pack [OF assms] pack_fields [of op] by metis

lemma and_mask_less: "unat (x AND mask k :: u16) < 2 ^ k"
  by (simp add: take_bit_eq_mask [symmetric] unsigned_take_bit_eq)

lemma fields_less [simp]: "line op < 16" "f9 op < 8" "f8 op < 2" "f6 op < 4" "f3 op < 8" "f0 op < 8"
  using and_mask_less [of _ 4] and_mask_less [of _ 3] and_mask_less [of _ 2] and_mask_less [of _ 1]
  by (simp_all add: field_defs word_less_nat_alt mask_eq_exp_minus_1)

lemma numeral_fields [simp]:
  "line (numeral k) = drop_bit 12 (numeral k) AND 15"
  "f9 (numeral k) = drop_bit 9 (numeral k) AND 7"
  "f8 (numeral k) = drop_bit 8 (numeral k) AND 1"
  "f6 (numeral k) = drop_bit 6 (numeral k) AND 3"
  "f3 (numeral k) = drop_bit 3 (numeral k) AND 7"
  "f0 (numeral k) = numeral k AND 7"
  by (simp_all add: field_defs)

lemma zero_fields [simp]: "line 0 = 0" "f9 0 = 0" "f8 0 = 0" "f6 0 = 0" "f3 0 = 0" "f0 0 = 0"
  by (simp_all add: field_defs)

text \<open>A word with no bits above the field is below the next power of two.\<close>

lemma and_less: "(x :: u16) AND 1 < 2" "x AND 3 < 4" "x AND 7 < 8"
  using and_mask_less [of x 3] and_mask_less [of x 2] and_mask_less [of x 1]
  by (simp_all add: word_less_nat_alt mask_eq_exp_minus_1)

lemma less_masks:
  "x = x AND 1 \<Longrightarrow> (x :: u16) < 2" "x = x AND 3 \<Longrightarrow> x < 4" "x = x AND 7 \<Longrightarrow> x < 8"
  by (erule ssubst, rule and_less)+

lemma less_4_8: "(s :: u16) < 4 \<Longrightarrow> s < 8"
  by (erule less_trans) simp

lemma less_16_cases: "(x :: u16) < 16 \<Longrightarrow> x \<in> {0, 1, 2, 3, 4, 5, 6, 7, 8, 9, 10, 11, 12, 13, 14, 15}"
proof -
  assume "x < 16"
  then have "unat x < 16" by (simp add: word_less_nat_alt)
  then have "unat x \<in> {0, 1, 2, 3, 4, 5, 6, 7, 8, 9, 10, 11, 12, 13, 14, 15}"
    unfolding insert_iff empty_iff by presburger
  then have "word_of_nat (unat x) \<in>
      (word_of_nat ` {0, 1, 2, 3, 4, 5, 6, 7, 8, 9, 10, 11, 12, 13, 14, 15} :: u16 set)" by blast
  then show ?thesis by simp
qed

lemma less_3_4: "(s :: u16) < 3 \<Longrightarrow> s < 4"
  by (erule less_trans) simp

text \<open>
  The shapes in which the loops compose an opcode: a constant and some of the fields. Each
  equation becomes equations for the fields.
\<close>

lemma join_mode:
  assumes "d < 8" "b < 2" "s < 4"
  shows "drop_bit 2 d = b \<and> d AND 3 = s \<longleftrightarrow> d = push_bit 2 b OR (s :: u16)"
proof
  assume "drop_bit 2 d = b \<and> d AND 3 = s"
  then show "d = push_bit 2 b OR s"
    by (safe; simp add: unpack_bits)
next
  assume "d = push_bit 2 b OR s"
  then show "drop_bit 2 d = b \<and> d AND 3 = s"
    using assms(2,3) by (safe dest!: lessDs; simp add: bits16)
qed

lemma join_cc:
  assumes "cc < 16" "a < 8" "b < 2"
  shows "drop_bit 1 cc = a \<and> cc AND 1 = b \<longleftrightarrow> cc = a * 2 OR (b :: u16)"
proof -
  have "drop_bit 1 cc = a \<and> cc AND 1 = b \<longleftrightarrow> cc = push_bit 1 a OR b"
  proof
    assume "drop_bit 1 cc = a \<and> cc AND 1 = b"
    then show "cc = push_bit 1 a OR b"
      by (safe; simp add: unpack_bits del: push_bit_Suc drop_bit_Suc)
  next
    assume "cc = push_bit 1 a OR b"
    then show "drop_bit 1 cc = a \<and> cc AND 1 = b"
      using assms(2,3) by (safe dest!: lessDs; simp add: unpack_bits del: push_bit_Suc drop_bit_Suc)
  qed
  then show ?thesis by simp
qed

lemma join_disp:
  assumes "d < 256"
  shows "f6 d = f6 op \<and> f3 d = f3 op \<and> f0 d = f0 op \<longleftrightarrow> d = op AND 0xFF"
proof
  assume "f6 d = f6 op \<and> f3 d = f3 op \<and> f0 d = f0 op"
  then show "d = op AND 0xFF"
    using assms by (safe dest!: less_256D; simp add: unpack_bits)
next
  assume "d = op AND 0xFF"
  then show "f6 d = f6 op \<and> f3 d = f3 op \<and> f0 d = f0 op"
    by (simp add: unpack_bits)
qed

lemma join_vec:
  assumes "v < 16"
  shows "drop_bit 3 v = f3 op \<and> f0 v = f0 op \<longleftrightarrow> f3 op AND 6 = 0 \<and> v = op AND 0xF"
proof
  assume "drop_bit 3 v = f3 op \<and> f0 v = f0 op"
  then show "f3 op AND 6 = 0 \<and> v = op AND 0xF"
    using assms by (safe dest!: less_16D; simp add: unpack_bits)
next
  assume "f3 op AND 6 = 0 \<and> v = op AND 0xF"
  then show "drop_bit 3 v = f3 op \<and> f0 v = f0 op"
    by (safe; simp add: unpack_bits)
qed

lemma join_shift:
  assumes "i < 2" "t < 4" "m < 8"
  shows "push_bit 2 i OR t = m \<longleftrightarrow> i = drop_bit 2 m \<and> t = m AND (3 :: u16)"
proof
  assume "push_bit 2 i OR t = m"
  then show "i = drop_bit 2 m \<and> t = m AND 3"
    using assms(1,2) by (safe dest!: lessDs; simp add: unpack_bits)
next
  assume "i = drop_bit 2 m \<and> t = m AND 3"
  then show "push_bit 2 i OR t = m"
    by (simp add: unpack_bits)
qed

lemma op_9_6_3_0:
  assumes "K AND 0x0EFF = 0" "a < 8" "s < 3" "m < 8" "r < 8"
  shows "op = K OR push_bit 9 a OR push_bit 6 s OR push_bit 3 m OR r \<longleftrightarrow>
    line op = line K \<and> a = f9 op \<and> f8 K = f8 op \<and> s = f6 op \<and> m = f3 op \<and> r = f0 op"
proof -
  have eq: "K OR push_bit 9 a OR push_bit 6 s OR push_bit 3 m OR r = pack (line K) a (f8 K) s m r"
    using assms by (safe dest!: lessDs; simp add: pack_def unpack_bits del: push_bit_Suc drop_bit_Suc)
  show ?thesis
    unfolding eq by (rule eq_pack_iff) (use assms less_3_4 [of s] in simp_all)
qed

lemma op_9_64_3_0:
  assumes "K AND 0x0FFF = 0" "a < 8" "s < 3" "m < 8" "r < 8"
  shows "op = K OR push_bit 9 a OR push_bit 6 (s + 4) OR push_bit 3 m OR r \<longleftrightarrow>
    line op = line K \<and> a = f9 op \<and> 1 = f8 op \<and> s = f6 op \<and> m = f3 op \<and> r = f0 op"
proof -
  have eq: "K OR push_bit 9 a OR push_bit 6 (s + 4) OR push_bit 3 m OR r = pack (line K) a 1 s m r"
    using assms by (safe dest!: lessDs; simp add: pack_def unpack_bits del: push_bit_Suc drop_bit_Suc)
  show ?thesis
    unfolding eq by (rule eq_pack_iff) (use assms less_3_4 [of s] in simp_all)
qed

lemma op_9_d_3_0:
  assumes "K AND 0x0FFF = 0" "a < 8" "d < 8" "m < 8" "r < 8"
  shows "op = K OR push_bit 9 a OR push_bit 6 d OR push_bit 3 m OR r \<longleftrightarrow>
    line op = line K \<and> a = f9 op \<and> d = push_bit 2 (f8 op) OR f6 op \<and> m = f3 op \<and> r = f0 op"
proof -
  have eq: "K OR push_bit 9 a OR push_bit 6 d OR push_bit 3 m OR r = pack (line K) a (drop_bit 2 d) (d AND 3) m r"
    using assms by (safe dest!: lessDs; simp add: pack_def unpack_bits del: push_bit_Suc drop_bit_Suc)
  have "drop_bit 2 d < 2"
    using assms by (safe dest!: lessDs; intro less_masks; simp add: unpack_bits del: push_bit_Suc drop_bit_Suc)
  have "d AND 3 < 4"
    using assms by (safe dest!: lessDs; intro less_masks; simp add: unpack_bits del: push_bit_Suc drop_bit_Suc)
  have "op = K OR push_bit 9 a OR push_bit 6 d OR push_bit 3 m OR r \<longleftrightarrow>
      line op = line K \<and> a = f9 op \<and> drop_bit 2 d = f8 op \<and> d AND 3 = f6 op \<and> m = f3 op \<and> r = f0 op"
    unfolding eq by (rule eq_pack_iff) (use assms \<open>drop_bit 2 d < 2\<close> \<open>d AND 3 < 4\<close> in simp_all)
  moreover note join_mode [of d "f8 op" "f6 op"]
  ultimately show ?thesis
    using assms fields_less [of op] by blast
qed

lemma op_9_c_3_0:
  assumes "(K OR k) AND 0x0E3F = 0" "a < 8" "m < 8" "r < 8"
  shows "op = K OR push_bit 9 a OR k OR push_bit 3 m OR r \<longleftrightarrow>
    line op = line (K OR k) \<and> a = f9 op \<and> f8 (K OR k) = f8 op \<and> f6 (K OR k) = f6 op \<and> m = f3 op \<and> r = f0 op"
proof -
  have eq: "K OR push_bit 9 a OR k OR push_bit 3 m OR r = pack (line (K OR k)) a (f8 (K OR k)) (f6 (K OR k)) m r"
    using assms by (safe dest!: lessDs; simp add: pack_def unpack_bits del: push_bit_Suc drop_bit_Suc)
  show ?thesis
    unfolding eq by (rule eq_pack_iff) (use assms in simp_all)
qed

lemma op_9_3_0:
  assumes "K AND 0x0E3F = 0" "a < 8" "m < 8" "r < 8"
  shows "op = K OR push_bit 9 a OR push_bit 3 m OR r \<longleftrightarrow>
    line op = line K \<and> a = f9 op \<and> f8 K = f8 op \<and> f6 K = f6 op \<and> m = f3 op \<and> r = f0 op"
proof -
  have eq: "K OR push_bit 9 a OR push_bit 3 m OR r = pack (line K) a (f8 K) (f6 K) m r"
    using assms by (safe dest!: lessDs; simp add: pack_def unpack_bits del: push_bit_Suc drop_bit_Suc)
  show ?thesis
    unfolding eq by (rule eq_pack_iff) (use assms in simp_all)
qed

lemma op_6_3_0:
  assumes "K AND 0x00FF = 0" "s < 3" "m < 8" "r < 8"
  shows "op = K OR push_bit 6 s OR push_bit 3 m OR r \<longleftrightarrow>
    line op = line K \<and> f9 K = f9 op \<and> f8 K = f8 op \<and> s = f6 op \<and> m = f3 op \<and> r = f0 op"
proof -
  have eq: "K OR push_bit 6 s OR push_bit 3 m OR r = pack (line K) (f9 K) (f8 K) s m r"
    using assms by (safe dest!: lessDs; simp add: pack_def unpack_bits del: push_bit_Suc drop_bit_Suc)
  show ?thesis
    unfolding eq by (rule eq_pack_iff) (use assms less_3_4 [of s] in simp_all)
qed

lemma op_6_3_0_zero:
  assumes "s < 3" "m < 8" "r < 8"
  shows "op = push_bit 6 s OR push_bit 3 m OR r \<longleftrightarrow>
    line op = 0 \<and> 0 = f9 op \<and> 0 = f8 op \<and> s = f6 op \<and> m = f3 op \<and> r = f0 op"
proof -
  have eq: "push_bit 6 s OR push_bit 3 m OR r = pack 0 0 0 s m r"
    using assms by (safe dest!: lessDs; simp add: pack_def unpack_bits del: push_bit_Suc drop_bit_Suc)
  show ?thesis
    unfolding eq by (rule eq_pack_iff) (use assms less_3_4 [of s] in simp_all)
qed

lemma op_3_0:
  assumes "K AND 0x003F = 0" "m < 8" "r < 8"
  shows "op = K OR push_bit 3 m OR r \<longleftrightarrow>
    line op = line K \<and> f9 K = f9 op \<and> f8 K = f8 op \<and> f6 K = f6 op \<and> m = f3 op \<and> r = f0 op"
proof -
  have eq: "K OR push_bit 3 m OR r = pack (line K) (f9 K) (f8 K) (f6 K) m r"
    using assms by (safe dest!: lessDs; simp add: pack_def unpack_bits del: push_bit_Suc drop_bit_Suc)
  show ?thesis
    unfolding eq by (rule eq_pack_iff) (use assms in simp_all)
qed

lemma op_9_6_0:
  assumes "K AND 0x0EC7 = 0" "a < 8" "s < 3" "r < 8"
  shows "op = K OR push_bit 9 a OR push_bit 6 s OR r \<longleftrightarrow>
    line op = line K \<and> a = f9 op \<and> f8 K = f8 op \<and> s = f6 op \<and> f3 K = f3 op \<and> r = f0 op"
proof -
  have eq: "K OR push_bit 9 a OR push_bit 6 s OR r = pack (line K) a (f8 K) s (f3 K) r"
    using assms by (safe dest!: lessDs; simp add: pack_def unpack_bits del: push_bit_Suc drop_bit_Suc)
  show ?thesis
    unfolding eq by (rule eq_pack_iff) (use assms less_3_4 [of s] in simp_all)
qed

lemma op_9_0:
  assumes "K AND 0x0E07 = 0" "a < 8" "r < 8"
  shows "op = K OR push_bit 9 a OR r \<longleftrightarrow>
    line op = line K \<and> a = f9 op \<and> f8 K = f8 op \<and> f6 K = f6 op \<and> f3 K = f3 op \<and> r = f0 op"
proof -
  have eq: "K OR push_bit 9 a OR r = pack (line K) a (f8 K) (f6 K) (f3 K) r"
    using assms by (safe dest!: lessDs; simp add: pack_def unpack_bits del: push_bit_Suc drop_bit_Suc)
  show ?thesis
    unfolding eq by (rule eq_pack_iff) (use assms in simp_all)
qed

lemma op_9_c_0:
  assumes "(K OR k) AND 0x0E07 = 0" "a < 8" "r < 8"
  shows "op = K OR push_bit 9 a OR k OR r \<longleftrightarrow>
    line op = line (K OR k) \<and> a = f9 op \<and> f8 (K OR k) = f8 op \<and> f6 (K OR k) = f6 op \<and> f3 (K OR k) = f3 op \<and> r = f0 op"
proof -
  have eq: "K OR push_bit 9 a OR k OR r = pack (line (K OR k)) a (f8 (K OR k)) (f6 (K OR k)) (f3 (K OR k)) r"
    using assms by (safe dest!: lessDs; simp add: pack_def unpack_bits del: push_bit_Suc drop_bit_Suc)
  show ?thesis
    unfolding eq by (rule eq_pack_iff) (use assms in simp_all)
qed

lemma op_9_disp:
  assumes "K AND 0x0EFF = 0" "a < 8" "d < 256"
  shows "op = K OR push_bit 9 a OR d \<longleftrightarrow>
    line op = line K \<and> a = f9 op \<and> f8 K = f8 op \<and> d = op AND 0xFF"
proof -
  have eq: "K OR push_bit 9 a OR d = pack (line K) a (f8 K) (f6 d) (f3 d) (f0 d)"
    using assms by (safe dest!: lessDs; simp add: pack_def unpack_bits del: push_bit_Suc drop_bit_Suc)
  have "op = K OR push_bit 9 a OR d \<longleftrightarrow>
      line op = line K \<and> a = f9 op \<and> f8 K = f8 op \<and> f6 d = f6 op \<and> f3 d = f3 op \<and> f0 d = f0 op"
    unfolding eq by (rule eq_pack_iff) (use assms in simp_all)
  moreover note join_disp [of d op]
  ultimately show ?thesis
    using assms fields_less [of op] by blast
qed

lemma op_0:
  assumes "K AND 0x0007 = 0" "r < 8"
  shows "op = K OR r \<longleftrightarrow>
    line op = line K \<and> f9 K = f9 op \<and> f8 K = f8 op \<and> f6 K = f6 op \<and> f3 K = f3 op \<and> r = f0 op"
proof -
  have eq: "K OR r = pack (line K) (f9 K) (f8 K) (f6 K) (f3 K) r"
    using assms by (safe dest!: lessDs; simp add: pack_def unpack_bits del: push_bit_Suc drop_bit_Suc)
  show ?thesis
    unfolding eq by (rule eq_pack_iff) (use assms in simp_all)
qed

lemma op_vec:
  assumes "K AND 0x003F = 0" "v < 16"
  shows "op = K OR v \<longleftrightarrow>
    line op = line K \<and> f9 K = f9 op \<and> f8 K = f8 op \<and> f6 K = f6 op \<and> f3 op AND 6 = 0 \<and> v = op AND 0xF"
proof -
  have eq: "K OR v = pack (line K) (f9 K) (f8 K) (f6 K) (drop_bit 3 v) (f0 v)"
    using assms by (safe dest!: lessDs; simp add: pack_def unpack_bits del: push_bit_Suc drop_bit_Suc)
  have "drop_bit 3 v < 8"
    using assms by (safe dest!: lessDs; intro less_masks; simp add: unpack_bits del: push_bit_Suc drop_bit_Suc)
  have "op = K OR v \<longleftrightarrow>
      line op = line K \<and> f9 K = f9 op \<and> f8 K = f8 op \<and> f6 K = f6 op \<and> drop_bit 3 v = f3 op \<and> f0 v = f0 op"
    unfolding eq by (rule eq_pack_iff) (use assms \<open>drop_bit 3 v < 8\<close> in simp_all)
  moreover note join_vec [of v op]
  ultimately show ?thesis
    using assms fields_less [of op] by blast
qed

lemma op_disp:
  assumes "K AND 0x00FF = 0" "d < 256"
  shows "op = K OR d \<longleftrightarrow>
    line op = line K \<and> f9 K = f9 op \<and> f8 K = f8 op \<and> d = op AND 0xFF"
proof -
  have eq: "K OR d = pack (line K) (f9 K) (f8 K) (f6 d) (f3 d) (f0 d)"
    using assms by (safe dest!: lessDs; simp add: pack_def unpack_bits del: push_bit_Suc drop_bit_Suc)
  have "op = K OR d \<longleftrightarrow>
      line op = line K \<and> f9 K = f9 op \<and> f8 K = f8 op \<and> f6 d = f6 op \<and> f3 d = f3 op \<and> f0 d = f0 op"
    unfolding eq by (rule eq_pack_iff) (use assms in simp_all)
  moreover note join_disp [of d op]
  ultimately show ?thesis
    using assms fields_less [of op] by blast
qed

lemma op_cc_disp:
  assumes "K AND 0x0FFF = 0" "cc < 16" "d < 256"
  shows "op = K OR push_bit 8 cc OR d \<longleftrightarrow>
    line op = line K \<and> cc = f9 op * 2 OR f8 op \<and> d = op AND 0xFF"
proof -
  have eq: "K OR push_bit 8 cc OR d = pack (line K) (drop_bit 1 cc) (cc AND 1) (f6 d) (f3 d) (f0 d)"
    using assms by (safe dest!: lessDs; simp add: pack_def unpack_bits del: push_bit_Suc drop_bit_Suc)
  have "drop_bit 1 cc < 8"
    using assms by (safe dest!: lessDs; intro less_masks; simp add: unpack_bits del: push_bit_Suc drop_bit_Suc)
  have "cc AND 1 < 2"
    using assms by (safe dest!: lessDs; intro less_masks; simp add: unpack_bits del: push_bit_Suc drop_bit_Suc)
  have "op = K OR push_bit 8 cc OR d \<longleftrightarrow>
      line op = line K \<and> drop_bit 1 cc = f9 op \<and> cc AND 1 = f8 op \<and> f6 d = f6 op \<and> f3 d = f3 op \<and> f0 d = f0 op"
    unfolding eq by (rule eq_pack_iff) (use assms \<open>drop_bit 1 cc < 8\<close> \<open>cc AND 1 < 2\<close> in simp_all)
  moreover note join_cc [of cc "f9 op" "f8 op"] join_disp [of d op]
  ultimately show ?thesis
    using assms fields_less [of op] by blast
qed

lemma op_cc_0:
  assumes "K AND 0x0F07 = 0" "cc < 16" "r < 8"
  shows "op = K OR push_bit 8 cc OR r \<longleftrightarrow>
    line op = line K \<and> cc = f9 op * 2 OR f8 op \<and> f6 K = f6 op \<and> f3 K = f3 op \<and> r = f0 op"
proof -
  have eq: "K OR push_bit 8 cc OR r = pack (line K) (drop_bit 1 cc) (cc AND 1) (f6 K) (f3 K) r"
    using assms by (safe dest!: lessDs; simp add: pack_def unpack_bits del: push_bit_Suc drop_bit_Suc)
  have "drop_bit 1 cc < 8"
    using assms by (safe dest!: lessDs; intro less_masks; simp add: unpack_bits del: push_bit_Suc drop_bit_Suc)
  have "cc AND 1 < 2"
    using assms by (safe dest!: lessDs; intro less_masks; simp add: unpack_bits del: push_bit_Suc drop_bit_Suc)
  have "op = K OR push_bit 8 cc OR r \<longleftrightarrow>
      line op = line K \<and> drop_bit 1 cc = f9 op \<and> cc AND 1 = f8 op \<and> f6 K = f6 op \<and> f3 K = f3 op \<and> r = f0 op"
    unfolding eq by (rule eq_pack_iff) (use assms \<open>drop_bit 1 cc < 8\<close> \<open>cc AND 1 < 2\<close> in simp_all)
  moreover note join_cc [of cc "f9 op" "f8 op"]
  ultimately show ?thesis
    using assms fields_less [of op] by blast
qed

lemma op_cc_3_0:
  assumes "K AND 0x0F3F = 0" "cc < 16" "m < 8" "r < 8"
  shows "op = K OR push_bit 8 cc OR push_bit 3 m OR r \<longleftrightarrow>
    line op = line K \<and> cc = f9 op * 2 OR f8 op \<and> f6 K = f6 op \<and> m = f3 op \<and> r = f0 op"
proof -
  have eq: "K OR push_bit 8 cc OR push_bit 3 m OR r = pack (line K) (drop_bit 1 cc) (cc AND 1) (f6 K) m r"
    using assms by (safe dest!: lessDs; simp add: pack_def unpack_bits del: push_bit_Suc drop_bit_Suc)
  have "drop_bit 1 cc < 8"
    using assms by (safe dest!: lessDs; intro less_masks; simp add: unpack_bits del: push_bit_Suc drop_bit_Suc)
  have "cc AND 1 < 2"
    using assms by (safe dest!: lessDs; intro less_masks; simp add: unpack_bits del: push_bit_Suc drop_bit_Suc)
  have "op = K OR push_bit 8 cc OR push_bit 3 m OR r \<longleftrightarrow>
      line op = line K \<and> drop_bit 1 cc = f9 op \<and> cc AND 1 = f8 op \<and> f6 K = f6 op \<and> m = f3 op \<and> r = f0 op"
    unfolding eq by (rule eq_pack_iff) (use assms \<open>drop_bit 1 cc < 8\<close> \<open>cc AND 1 < 2\<close> in simp_all)
  moreover note join_cc [of cc "f9 op" "f8 op"]
  ultimately show ?thesis
    using assms fields_less [of op] by blast
qed

lemma op_shift:
  assumes "K AND 0x0FFF = 0" "a < 8" "b < 2" "s < 3" "i < 2" "t < 4" "r < 8"
  shows "op = K OR push_bit 9 a OR push_bit 8 b OR push_bit 6 s OR push_bit 5 i OR push_bit 3 t OR r \<longleftrightarrow>
    line op = line K \<and> a = f9 op \<and> b = f8 op \<and> s = f6 op \<and> i = drop_bit 2 (f3 op) \<and> t = f3 op AND 3 \<and> r = f0 op"
proof -
  have eq: "K OR push_bit 9 a OR push_bit 8 b OR push_bit 6 s OR push_bit 5 i OR push_bit 3 t OR r = pack (line K) a b s (push_bit 2 i OR t) r"
    using assms by (safe dest!: lessDs; simp add: pack_def unpack_bits del: push_bit_Suc drop_bit_Suc)
  have "push_bit 2 i OR t < 8"
    using assms by (safe dest!: lessDs; intro less_masks; simp add: unpack_bits del: push_bit_Suc drop_bit_Suc)
  have "op = K OR push_bit 9 a OR push_bit 8 b OR push_bit 6 s OR push_bit 5 i OR push_bit 3 t OR r \<longleftrightarrow>
      line op = line K \<and> a = f9 op \<and> b = f8 op \<and> s = f6 op \<and> push_bit 2 i OR t = f3 op \<and> r = f0 op"
    unfolding eq by (rule eq_pack_iff) (use assms less_3_4 [of s] \<open>push_bit 2 i OR t < 8\<close> in simp_all)
  moreover note join_shift [of i t "f3 op"]
  ultimately show ?thesis
    using assms fields_less [of op] by blast
qed

lemma op_shift_mem:
  assumes "K AND 0x0F3F = 0" "t < 4" "b < 2" "m < 8" "r < 8"
  shows "op = K OR push_bit 9 t OR push_bit 8 b OR push_bit 3 m OR r \<longleftrightarrow>
    line op = line K \<and> t = f9 op \<and> b = f8 op \<and> f6 K = f6 op \<and> m = f3 op \<and> r = f0 op"
proof -
  have eq: "K OR push_bit 9 t OR push_bit 8 b OR push_bit 3 m OR r = pack (line K) t b (f6 K) m r"
    using assms by (safe dest!: lessDs; simp add: pack_def unpack_bits del: push_bit_Suc drop_bit_Suc)
  show ?thesis
    unfolding eq by (rule eq_pack_iff) (use assms less_4_8 [of t] in simp_all)
qed

lemma op_movem:
  assumes "K AND 0x047F = 0" "b < 2" "z < 2" "m < 8" "r < 8"
  shows "op = K OR push_bit 10 b OR push_bit 6 z OR push_bit 3 m OR r \<longleftrightarrow>
    line op = line K \<and> f9 K OR push_bit 1 b = f9 op \<and> f8 K = f8 op \<and> f6 K OR z = f6 op \<and> m = f3 op \<and> r = f0 op"
proof -
  have eq: "K OR push_bit 10 b OR push_bit 6 z OR push_bit 3 m OR r = pack (line K) (f9 K OR push_bit 1 b) (f8 K) (f6 K OR z) m r"
    using assms by (safe dest!: lessDs; simp add: pack_def unpack_bits del: push_bit_Suc drop_bit_Suc)
  have "f9 K OR push_bit 1 b < 8"
    using assms by (safe dest!: lessDs; intro less_masks; simp add: unpack_bits del: push_bit_Suc drop_bit_Suc)
  have "f6 K OR z < 4"
    using assms by (safe dest!: lessDs; intro less_masks; simp add: unpack_bits del: push_bit_Suc drop_bit_Suc)
  show ?thesis
    unfolding eq by (rule eq_pack_iff) (use assms \<open>f9 K OR push_bit 1 b < 8\<close> \<open>f6 K OR z < 4\<close> in simp_all)
qed

lemmas op_shapes =
  op_9_6_3_0 op_9_64_3_0 op_9_d_3_0 op_9_c_3_0 op_9_3_0 op_6_3_0 op_6_3_0_zero op_3_0 op_9_6_0 op_9_0 op_9_c_0 op_9_disp op_0 op_vec op_disp op_cc_disp op_cc_0 op_cc_3_0 op_shift op_shift_mem op_movem

subsection \<open>What each registration function stores\<close>

lemmas category_defs = anyOp_def dataOp_def dataAlt_def memAlt_def ctrlOp_def

lemma f8_cases: "f8 op = 0 \<or> f8 op = 1"
  using less_8_cases [of "f8 op"] fields_less(3) [of op] by (auto simp: word_less_nat_alt)

lemma f6_cases: "f6 op = 0 \<or> f6 op = 1 \<or> f6 op = 2 \<or> f6 op = 3"
  using less_8_cases [of "f6 op"] fields_less(4) [of op] by (auto simp: word_less_nat_alt)

lemma f9_cases: "f9 op \<in> {0, 1, 2, 3, 4, 5, 6, 7}"
  by (rule less_8_cases) simp

lemma f3_cases: "f3 op \<in> {0, 1, 2, 3, 4, 5, 6, 7}"
  by (rule less_8_cases) simp

lemma ge_2_neq_1: "2 \<le> (x :: u16) \<Longrightarrow> x \<noteq> 1"
  by (auto simp: word_le_nat_alt)

lemma f6_less_3: "f6 op < 3 \<longleftrightarrow> f6 op \<noteq> 3"
  using f6_cases [of op] by auto

lemma cc_less_16: "f9 op * 2 OR f8 op < 16"
  using f9_cases [of op] f8_cases [of op] by (auto simp: word_less_nat_alt)

lemma dstMode_less_8: "push_bit 2 (f8 op) OR f6 op < 8"
  using f8_cases [of op] f6_cases [of op] by (auto simp: word_less_nat_alt)

lemma low_bits_less: "(op :: u16) AND 0xFF < 256" "op AND 0xF < 16"
  using and_mask_less [of op 8] and_mask_less [of op 4]
  by (simp_all add: word_less_nat_alt mask_eq_exp_minus_1)

lemma shift_bits_less: "drop_bit 2 (f3 op) < 2" "f3 op AND 3 < 4"
  using f3_cases [of op] by (auto simp: word_less_nat_alt)

lemma cc_ge_2: "2 \<le> f9 op * 2 OR f8 op \<longleftrightarrow> f9 op \<noteq> 0"
  using f9_cases [of op] f8_cases [of op] by (auto simp: word_le_nat_alt)

lemma f3_vec: "f3 op AND 6 = 0 \<longleftrightarrow> f3 op = 0 \<or> f3 op = 1"
  using f3_cases [of op] by auto

lemma f6_joined_1: "push_bit 2 (f8 op) OR f6 op = 1 \<longleftrightarrow> f8 op = 0 \<and> f6 op = 1"
  using f6_cases [of op] f8_cases [of op] by auto

lemma ex_less_2: "(\<exists>x. x < 2 \<and> P (x :: u16)) \<longleftrightarrow> P 0 \<or> P 1"
proof -
  have "x < 2 \<Longrightarrow> x = 0 \<or> x = 1" for x :: u16
    using less_3_cases [of x] by (auto simp: word_less_nat_alt)
  moreover have "(0 :: u16) < 2" "(1 :: u16) < 2" by simp_all
  ultimately show ?thesis by blast
qed

text \<open>Membership in a list comprehension, one generator or guard at a time.\<close>

lemma in_concat_map: "z \<in> set (concat (map f xs)) \<longleftrightarrow> (\<exists>x. x \<in> set xs \<and> z \<in> set (f x))"
  by auto

lemma in_map: "z \<in> set (map f xs) \<longleftrightarrow> (\<exists>x. x \<in> set xs \<and> z = f x)"
  by auto

lemma in_if: "z \<in> set (if b then xs else []) \<longleftrightarrow> b \<and> z \<in> set xs"
  by simp

lemma in_append: "z \<in> set (xs @ ys) \<longleftrightarrow> z \<in> set xs \<or> z \<in> set ys"
  by simp

lemma in_pair: "(\<exists>x. x \<in> set [a, b] \<and> P x) \<longleftrightarrow> P a \<or> P b"
  by auto

lemma in_triple: "(\<exists>x. x \<in> set [a, b, c] \<and> P x) \<longleftrightarrow> P a \<or> P b \<or> P c"
  by auto

lemma in_range_2: "(\<exists>x. x \<in> set (range16 0 2) \<and> P x) \<longleftrightarrow> P 0 \<or> P 1"
  using ex_less_2 [of P] by simp

lemmas in_stores = in_concat_map in_map in_if in_append in_pair in_triple

lemma op_const:
  "op = K \<longleftrightarrow> line op = line K \<and> f9 op = f9 K \<and> f8 op = f8 K \<and> f6 op = f6 K \<and> f3 op = f3 K \<and> f0 op = f0 K"
  using pack_fields [of op] pack_fields [of K] by metis

lemma or_numerals_assoc: "(numeral a :: u16) OR (numeral b OR x) = (numeral a OR numeral b) OR x"
  by (simp only: or.assoc)

lemmas stores_simps = ex_disj_distrib conj_disj_distribL bex_disj_distrib or_numerals_assoc cc_less_16 dstMode_less_8 low_bits_less
  shift_bits_less cc_ge_2 f3_vec
  f6_less_3

lemma set_registerADD:
  "(op, h) \<in> set registerADD \<longleftrightarrow>
     line op = 0xD \<and> f8 op = 0 \<and> f6 op < 3 \<and> anyOp (f3 op) (f0 op) \<and> \<not> (f3 op = 1 \<and> f6 op = 0) \<and> h = makeADDtoReg (f9 op) (f3 op) (f0 op) \<or>
     line op = 0xD \<and> f8 op = 1 \<and> f6 op < 3 \<and> memAlt (f3 op) (f0 op) \<and> h = makeADDtoEA (f9 op) (f3 op) (f0 op)"
  unfolding registerADD_def category_defs
  unfolding in_stores
  by (simp add: op_shapes stores_simps cong: conj_cong) (use f8_cases [of op] in \<open>auto simp: f6_less_3\<close>)?

lemma set_registerADDA:
  "(op, h) \<in> set registerADDA \<longleftrightarrow>
     line op = 0xD \<and> f6 op = 3 \<and> anyOp (f3 op) (f0 op) \<and> h = makeADDA (f9 op) (f3 op) (f0 op)"
  unfolding registerADDA_def category_defs
  unfolding in_stores
  by (simp add: op_shapes stores_simps cong: conj_cong) (use f8_cases [of op] in \<open>auto simp: f6_less_3\<close>)?

lemma set_registerADDX:
  "(op, h) \<in> set registerADDX \<longleftrightarrow>
     line op = 0xD \<and> f8 op = 1 \<and> f6 op < 3 \<and> f3 op = 0 \<and> h = opADDXreg \<or>
     line op = 0xD \<and> f8 op = 1 \<and> f6 op < 3 \<and> f3 op = 1 \<and> h = opADDXmem"
  unfolding registerADDX_def category_defs
  unfolding in_stores
  by (simp add: op_shapes stores_simps cong: conj_cong) (use f8_cases [of op] in \<open>auto simp: f6_less_3\<close>)?

lemma set_registerSUB:
  "(op, h) \<in> set registerSUB \<longleftrightarrow>
     line op = 0x9 \<and> f8 op = 0 \<and> f6 op < 3 \<and> anyOp (f3 op) (f0 op) \<and> \<not> (f3 op = 1 \<and> f6 op = 0) \<and> h = makeSUBtoReg (f9 op) (f3 op) (f0 op) \<or>
     line op = 0x9 \<and> f8 op = 1 \<and> f6 op < 3 \<and> memAlt (f3 op) (f0 op) \<and> h = makeSUBtoEA (f9 op) (f3 op) (f0 op)"
  unfolding registerSUB_def category_defs
  unfolding in_stores
  by (simp add: op_shapes stores_simps cong: conj_cong) (use f8_cases [of op] in \<open>auto simp: f6_less_3\<close>)?

lemma set_registerSUBA:
  "(op, h) \<in> set registerSUBA \<longleftrightarrow>
     line op = 0x9 \<and> f6 op = 3 \<and> anyOp (f3 op) (f0 op) \<and> h = makeSUBA (f9 op) (f3 op) (f0 op)"
  unfolding registerSUBA_def category_defs
  unfolding in_stores
  by (simp add: op_shapes stores_simps cong: conj_cong) (use f8_cases [of op] in \<open>auto simp: f6_less_3\<close>)?

lemma set_registerSUBX:
  "(op, h) \<in> set registerSUBX \<longleftrightarrow>
     line op = 0x9 \<and> f8 op = 1 \<and> f6 op < 3 \<and> f3 op = 0 \<and> h = opSUBXreg \<or>
     line op = 0x9 \<and> f8 op = 1 \<and> f6 op < 3 \<and> f3 op = 1 \<and> h = opSUBXmem"
  unfolding registerSUBX_def category_defs
  unfolding in_stores
  by (simp add: op_shapes stores_simps cong: conj_cong) (use f8_cases [of op] in \<open>auto simp: f6_less_3\<close>)?

lemma set_registerADDI:
  "(op, h) \<in> set registerADDI \<longleftrightarrow>
     line op = 0x0 \<and> f9 op = 3 \<and> f8 op = 0 \<and> f6 op < 3 \<and> dataAlt (f3 op) (f0 op) \<and> h = makeADDI (f3 op) (f0 op)"
  unfolding registerADDI_def category_defs
  unfolding in_stores
  by (simp add: op_shapes stores_simps cong: conj_cong) (use f8_cases [of op] in \<open>auto simp: f6_less_3\<close>)?

lemma set_registerSUBI:
  "(op, h) \<in> set registerSUBI \<longleftrightarrow>
     line op = 0x0 \<and> f9 op = 2 \<and> f8 op = 0 \<and> f6 op < 3 \<and> dataAlt (f3 op) (f0 op) \<and> h = makeSUBI (f3 op) (f0 op)"
  unfolding registerSUBI_def category_defs
  unfolding in_stores
  by (simp add: op_shapes stores_simps cong: conj_cong) (use f8_cases [of op] in \<open>auto simp: f6_less_3\<close>)?

lemma set_registerCMPI:
  "(op, h) \<in> set registerCMPI \<longleftrightarrow>
     line op = 0x0 \<and> f9 op = 6 \<and> f8 op = 0 \<and> f6 op < 3 \<and> dataAlt (f3 op) (f0 op) \<and> h = makeCMPI (f3 op) (f0 op)"
  unfolding registerCMPI_def category_defs
  unfolding in_stores
  by (simp add: op_shapes stores_simps cong: conj_cong) (use f8_cases [of op] in \<open>auto simp: f6_less_3\<close>)?

lemma set_registerANDI:
  "(op, h) \<in> set registerANDI \<longleftrightarrow>
     line op = 0x0 \<and> f9 op = 1 \<and> f8 op = 0 \<and> f6 op < 3 \<and> dataAlt (f3 op) (f0 op) \<and> h = makeANDI (f3 op) (f0 op)"
  unfolding registerANDI_def category_defs
  unfolding in_stores
  by (simp add: op_shapes stores_simps cong: conj_cong) (use f8_cases [of op] in \<open>auto simp: f6_less_3\<close>)?

lemma set_registerORI:
  "(op, h) \<in> set registerORI \<longleftrightarrow>
     line op = 0x0 \<and> f9 op = 0 \<and> f8 op = 0 \<and> f6 op < 3 \<and> dataAlt (f3 op) (f0 op) \<and> h = makeORI (f3 op) (f0 op)"
  unfolding registerORI_def category_defs
  unfolding in_stores
  by (simp add: op_shapes stores_simps cong: conj_cong) (use f8_cases [of op] in \<open>auto simp: f6_less_3\<close>)?

lemma set_registerEORI:
  "(op, h) \<in> set registerEORI \<longleftrightarrow>
     line op = 0x0 \<and> f9 op = 5 \<and> f8 op = 0 \<and> f6 op < 3 \<and> dataAlt (f3 op) (f0 op) \<and> h = makeEORI (f3 op) (f0 op)"
  unfolding registerEORI_def category_defs
  unfolding in_stores
  by (simp add: op_shapes stores_simps cong: conj_cong) (use f8_cases [of op] in \<open>auto simp: f6_less_3\<close>)?

lemma set_registerADDQ:
  "(op, h) \<in> set registerADDQ \<longleftrightarrow>
     line op = 0x5 \<and> f8 op = 0 \<and> f6 op < 3 \<and> \<not> (f3 op = 7 \<and> f0 op > 1) \<and> \<not> (f3 op = 1 \<and> f6 op = 0) \<and> h = makeADDQ (f9 op) (f3 op) (f0 op)"
  unfolding registerADDQ_def category_defs
  unfolding in_stores
  by (simp add: op_shapes stores_simps cong: conj_cong) (use f8_cases [of op] in \<open>auto simp: f6_less_3\<close>)?

lemma set_registerSUBQ:
  "(op, h) \<in> set registerSUBQ \<longleftrightarrow>
     line op = 0x5 \<and> f8 op = 1 \<and> f6 op < 3 \<and> \<not> (f3 op = 7 \<and> f0 op > 1) \<and> \<not> (f3 op = 1 \<and> f6 op = 0) \<and> h = makeSUBQ (f9 op) (f3 op) (f0 op)"
  unfolding registerSUBQ_def category_defs
  unfolding in_stores
  by (simp add: op_shapes stores_simps cong: conj_cong) (use f8_cases [of op] in \<open>auto simp: f6_less_3\<close>)?

lemma set_registerCMP:
  "(op, h) \<in> set registerCMP \<longleftrightarrow>
     line op = 0xB \<and> f8 op = 0 \<and> f6 op < 3 \<and> anyOp (f3 op) (f0 op) \<and> \<not> (f3 op = 1 \<and> f6 op = 0) \<and> h = makeCMP (f9 op) (f3 op) (f0 op)"
  unfolding registerCMP_def category_defs
  unfolding in_stores
  by (simp add: op_shapes stores_simps cong: conj_cong) (use f8_cases [of op] in \<open>auto simp: f6_less_3\<close>)?

lemma set_registerCMPA:
  "(op, h) \<in> set registerCMPA \<longleftrightarrow>
     line op = 0xB \<and> f6 op = 3 \<and> anyOp (f3 op) (f0 op) \<and> h = makeCMPA (f9 op) (f3 op) (f0 op)"
  unfolding registerCMPA_def category_defs
  unfolding in_stores
  by (simp add: op_shapes stores_simps cong: conj_cong) (use f8_cases [of op] in \<open>auto simp: f6_less_3\<close>)?

lemma set_registerCMPM:
  "(op, h) \<in> set registerCMPM \<longleftrightarrow>
     line op = 0xB \<and> f8 op = 1 \<and> f6 op < 3 \<and> f3 op = 1 \<and> h = opCMPM"
  unfolding registerCMPM_def category_defs
  unfolding in_stores
  by (simp add: op_shapes stores_simps cong: conj_cong) (use f8_cases [of op] in \<open>auto simp: f6_less_3\<close>)?

lemma set_registerMULU:
  "(op, h) \<in> set registerMULU \<longleftrightarrow>
     line op = 0xC \<and> f8 op = 0 \<and> f6 op = 3 \<and> dataOp (f3 op) (f0 op) \<and> h = makeMULU (f9 op) (f3 op) (f0 op)"
  unfolding registerMULU_def category_defs
  unfolding in_stores
  by (simp add: op_shapes stores_simps cong: conj_cong) (use f8_cases [of op] in \<open>auto simp: f6_less_3\<close>)?

lemma set_registerMULS:
  "(op, h) \<in> set registerMULS \<longleftrightarrow>
     line op = 0xC \<and> f8 op = 1 \<and> f6 op = 3 \<and> dataOp (f3 op) (f0 op) \<and> h = makeMULS (f9 op) (f3 op) (f0 op)"
  unfolding registerMULS_def category_defs
  unfolding in_stores
  by (simp add: op_shapes stores_simps cong: conj_cong) (use f8_cases [of op] in \<open>auto simp: f6_less_3\<close>)?

lemma set_registerDIVU:
  "(op, h) \<in> set registerDIVU \<longleftrightarrow>
     line op = 0x8 \<and> f8 op = 0 \<and> f6 op = 3 \<and> dataOp (f3 op) (f0 op) \<and> h = makeDIVU (f9 op) (f3 op) (f0 op)"
  unfolding registerDIVU_def category_defs
  unfolding in_stores
  by (simp add: op_shapes stores_simps cong: conj_cong) (use f8_cases [of op] in \<open>auto simp: f6_less_3\<close>)?

lemma set_registerDIVS:
  "(op, h) \<in> set registerDIVS \<longleftrightarrow>
     line op = 0x8 \<and> f8 op = 1 \<and> f6 op = 3 \<and> dataOp (f3 op) (f0 op) \<and> h = makeDIVS (f9 op) (f3 op) (f0 op)"
  unfolding registerDIVS_def category_defs
  unfolding in_stores
  by (simp add: op_shapes stores_simps cong: conj_cong) (use f8_cases [of op] in \<open>auto simp: f6_less_3\<close>)?

lemma set_registerNEG:
  "(op, h) \<in> set registerNEG \<longleftrightarrow>
     line op = 0x4 \<and> f9 op = 2 \<and> f8 op = 0 \<and> f6 op < 3 \<and> dataAlt (f3 op) (f0 op) \<and> h = makeNEG (f3 op) (f0 op)"
  unfolding registerNEG_def category_defs
  unfolding in_stores
  by (simp add: op_shapes stores_simps cong: conj_cong) (use f8_cases [of op] in \<open>auto simp: f6_less_3\<close>)?

lemma set_registerNEGX:
  "(op, h) \<in> set registerNEGX \<longleftrightarrow>
     line op = 0x4 \<and> f9 op = 0 \<and> f8 op = 0 \<and> f6 op < 3 \<and> dataAlt (f3 op) (f0 op) \<and> h = makeNEGX (f3 op) (f0 op)"
  unfolding registerNEGX_def category_defs
  unfolding in_stores
  by (simp add: op_shapes stores_simps cong: conj_cong) (use f8_cases [of op] in \<open>auto simp: f6_less_3\<close>)?

lemma set_registerCLR:
  "(op, h) \<in> set registerCLR \<longleftrightarrow>
     line op = 0x4 \<and> f9 op = 1 \<and> f8 op = 0 \<and> f6 op < 3 \<and> dataAlt (f3 op) (f0 op) \<and> h = makeCLR (f3 op) (f0 op)"
  unfolding registerCLR_def category_defs
  unfolding in_stores
  by (simp add: op_shapes stores_simps cong: conj_cong) (use f8_cases [of op] in \<open>auto simp: f6_less_3\<close>)?

lemma set_registerNOT:
  "(op, h) \<in> set registerNOT \<longleftrightarrow>
     line op = 0x4 \<and> f9 op = 3 \<and> f8 op = 0 \<and> f6 op < 3 \<and> dataAlt (f3 op) (f0 op) \<and> h = makeNOT (f3 op) (f0 op)"
  unfolding registerNOT_def category_defs
  unfolding in_stores
  by (simp add: op_shapes stores_simps cong: conj_cong) (use f8_cases [of op] in \<open>auto simp: f6_less_3\<close>)?

lemma set_registerTST:
  "(op, h) \<in> set registerTST \<longleftrightarrow>
     line op = 0x4 \<and> f9 op = 5 \<and> f8 op = 0 \<and> f6 op < 3 \<and> dataAlt (f3 op) (f0 op) \<and> h = makeTST (f3 op) (f0 op)"
  unfolding registerTST_def category_defs
  unfolding in_stores
  by (simp add: op_shapes stores_simps cong: conj_cong) (use f8_cases [of op] in \<open>auto simp: f6_less_3\<close>)?

lemma set_registerEXT:
  "(op, h) \<in> set registerEXT \<longleftrightarrow>
     line op = 0x4 \<and> f9 op = 4 \<and> f8 op = 0 \<and> f6 op = 2 \<and> f3 op = 0 \<and> h = opEXTW \<or>
     line op = 0x4 \<and> f9 op = 4 \<and> f8 op = 0 \<and> f6 op = 3 \<and> f3 op = 0 \<and> h = opEXTL"
  unfolding registerEXT_def category_defs
  unfolding in_stores
  by (simp add: op_shapes stores_simps cong: conj_cong) (use f8_cases [of op] in \<open>auto simp: f6_less_3\<close>)?

lemma set_registerCHK:
  "(op, h) \<in> set registerCHK \<longleftrightarrow>
     line op = 0x4 \<and> f8 op = 1 \<and> f6 op = 2 \<and> dataOp (f3 op) (f0 op) \<and> h = makeCHK (f9 op) (f3 op) (f0 op)"
  unfolding registerCHK_def category_defs
  unfolding in_stores
  by (simp add: op_shapes stores_simps cong: conj_cong) (use f8_cases [of op] in \<open>auto simp: f6_less_3\<close>)?

lemma set_registerABCD:
  "(op, h) \<in> set registerABCD \<longleftrightarrow>
     line op = 0xC \<and> f8 op = 1 \<and> f6 op = 0 \<and> f3 op = 0 \<and> h = opABCDreg \<or>
     line op = 0xC \<and> f8 op = 1 \<and> f6 op = 0 \<and> f3 op = 1 \<and> h = opABCDmem"
  unfolding registerABCD_def category_defs
  unfolding in_stores
  by (simp add: op_shapes stores_simps cong: conj_cong) (use f8_cases [of op] in \<open>auto simp: f6_less_3\<close>)?

lemma set_registerSBCD:
  "(op, h) \<in> set registerSBCD \<longleftrightarrow>
     line op = 0x8 \<and> f8 op = 1 \<and> f6 op = 0 \<and> f3 op = 0 \<and> h = opSBCDreg \<or>
     line op = 0x8 \<and> f8 op = 1 \<and> f6 op = 0 \<and> f3 op = 1 \<and> h = opSBCDmem"
  unfolding registerSBCD_def category_defs
  unfolding in_stores
  by (simp add: op_shapes stores_simps cong: conj_cong) (use f8_cases [of op] in \<open>auto simp: f6_less_3\<close>)?

lemma set_registerNBCD:
  "(op, h) \<in> set registerNBCD \<longleftrightarrow>
     line op = 0x4 \<and> f9 op = 4 \<and> f8 op = 0 \<and> f6 op = 0 \<and> dataAlt (f3 op) (f0 op) \<and> h = makeNBCD (f3 op) (f0 op)"
  unfolding registerNBCD_def category_defs
  unfolding in_stores
  by (simp add: op_shapes stores_simps cong: conj_cong) (use f8_cases [of op] in \<open>auto simp: f6_less_3\<close>)?

lemma set_registerBTST:
  "(op, h) \<in> set registerBTST \<longleftrightarrow>
     line op = 0x0 \<and> f8 op = 1 \<and> f6 op = 0 \<and> dataOp (f3 op) (f0 op) \<and> h = makeBTSTdyn (f9 op) (f3 op) (f0 op) \<or>
     line op = 0x0 \<and> f9 op = 4 \<and> f8 op = 0 \<and> f6 op = 0 \<and> f3 op \<noteq> 1 \<and> \<not> (f3 op = 7 \<and> f0 op > 3) \<and> h = makeBTSTstatic (f3 op) (f0 op)"
  unfolding registerBTST_def category_defs
  unfolding in_stores
  by (simp add: op_shapes stores_simps cong: conj_cong) (use f8_cases [of op] in \<open>auto simp: f6_less_3\<close>)?

lemma set_registerBCHG:
  "(op, h) \<in> set registerBCHG \<longleftrightarrow>
     line op = 0x0 \<and> f8 op = 1 \<and> f6 op = 1 \<and> dataAlt (f3 op) (f0 op) \<and> h = makeBCHGdyn (f9 op) (f3 op) (f0 op) \<or>
     line op = 0x0 \<and> f9 op = 4 \<and> f8 op = 0 \<and> f6 op = 1 \<and> dataAlt (f3 op) (f0 op) \<and> h = makeBCHGstatic (f3 op) (f0 op)"
  unfolding registerBCHG_def category_defs
  unfolding in_stores
  by (simp add: op_shapes stores_simps cong: conj_cong) (use f8_cases [of op] in \<open>auto simp: f6_less_3\<close>)?

lemma set_registerBCLR:
  "(op, h) \<in> set registerBCLR \<longleftrightarrow>
     line op = 0x0 \<and> f8 op = 1 \<and> f6 op = 2 \<and> dataAlt (f3 op) (f0 op) \<and> h = makeBCLRdyn (f9 op) (f3 op) (f0 op) \<or>
     line op = 0x0 \<and> f9 op = 4 \<and> f8 op = 0 \<and> f6 op = 2 \<and> dataAlt (f3 op) (f0 op) \<and> h = makeBCLRstatic (f3 op) (f0 op)"
  unfolding registerBCLR_def category_defs
  unfolding in_stores
  by (simp add: op_shapes stores_simps cong: conj_cong) (use f8_cases [of op] in \<open>auto simp: f6_less_3\<close>)?

lemma set_registerBSET:
  "(op, h) \<in> set registerBSET \<longleftrightarrow>
     line op = 0x0 \<and> f8 op = 1 \<and> f6 op = 3 \<and> dataAlt (f3 op) (f0 op) \<and> h = makeBSETdyn (f9 op) (f3 op) (f0 op) \<or>
     line op = 0x0 \<and> f9 op = 4 \<and> f8 op = 0 \<and> f6 op = 3 \<and> dataAlt (f3 op) (f0 op) \<and> h = makeBSETstatic (f3 op) (f0 op)"
  unfolding registerBSET_def category_defs
  unfolding in_stores
  by (simp add: op_shapes stores_simps cong: conj_cong) (use f8_cases [of op] in \<open>auto simp: f6_less_3\<close>)?

lemma set_registerBcc:
  "(op, h) \<in> set registerBcc \<longleftrightarrow>
     line op = 0x6 \<and> f9 op \<noteq> 0 \<and> h = opBcc"
  unfolding registerBcc_def category_defs
  unfolding in_stores
  by (simp add: op_shapes stores_simps cong: conj_cong) (use f8_cases [of op] in \<open>auto simp: f6_less_3\<close>)?

lemma set_registerBRA:
  "(op, h) \<in> set registerBRA \<longleftrightarrow>
     line op = 0x6 \<and> f9 op = 0 \<and> f8 op = 0 \<and> h = opBRA"
  unfolding registerBRA_def category_defs
  unfolding in_stores
  by (simp add: op_shapes stores_simps cong: conj_cong) (use f8_cases [of op] in \<open>auto simp: f6_less_3\<close>)?

lemma set_registerBSR:
  "(op, h) \<in> set registerBSR \<longleftrightarrow>
     line op = 0x6 \<and> f9 op = 0 \<and> f8 op = 1 \<and> h = opBSR"
  unfolding registerBSR_def category_defs
  unfolding in_stores
  by (simp add: op_shapes stores_simps cong: conj_cong) (use f8_cases [of op] in \<open>auto simp: f6_less_3\<close>)?

lemma set_registerDBcc:
  "(op, h) \<in> set registerDBcc \<longleftrightarrow>
     line op = 0x5 \<and> f6 op = 3 \<and> f3 op = 1 \<and> h = opDBcc"
  unfolding registerDBcc_def category_defs
  unfolding in_stores
  by (simp add: op_shapes stores_simps cong: conj_cong) (use f8_cases [of op] in \<open>auto simp: f6_less_3\<close>)?

lemma set_registerScc:
  "(op, h) \<in> set registerScc \<longleftrightarrow>
     line op = 0x5 \<and> f6 op = 3 \<and> dataAlt (f3 op) (f0 op) \<and> h = makeScc (f3 op) (f0 op)"
  unfolding registerScc_def category_defs
  unfolding in_stores
  by (simp add: op_shapes stores_simps cong: conj_cong) (use f8_cases [of op] in \<open>auto simp: f6_less_3\<close>)?

lemma set_registerJMP:
  "(op, h) \<in> set registerJMP \<longleftrightarrow>
     line op = 0x4 \<and> f9 op = 7 \<and> f8 op = 0 \<and> f6 op = 3 \<and> ctrlOp (f3 op) (f0 op) \<and> h = makeJMP (f3 op) (f0 op)"
  unfolding registerJMP_def category_defs
  unfolding in_stores
  by (simp add: op_shapes stores_simps cong: conj_cong) (use f8_cases [of op] in \<open>auto simp: f6_less_3\<close>)?

lemma set_registerJSR:
  "(op, h) \<in> set registerJSR \<longleftrightarrow>
     line op = 0x4 \<and> f9 op = 7 \<and> f8 op = 0 \<and> f6 op = 2 \<and> ctrlOp (f3 op) (f0 op) \<and> h = makeJSR (f3 op) (f0 op)"
  unfolding registerJSR_def category_defs
  unfolding in_stores
  by (simp add: op_shapes stores_simps cong: conj_cong) (use f8_cases [of op] in \<open>auto simp: f6_less_3\<close>)?

lemma set_registerRTS:
  "(op, h) \<in> set registerRTS \<longleftrightarrow>
     line op = 0x4 \<and> f9 op = 7 \<and> f8 op = 0 \<and> f6 op = 1 \<and> f3 op = 6 \<and> f0 op = 5 \<and> h = opRTS"
  unfolding registerRTS_def category_defs
  by (simp add: op_const [of op "0x4E75"])

lemma set_registerRTE:
  "(op, h) \<in> set registerRTE \<longleftrightarrow>
     line op = 0x4 \<and> f9 op = 7 \<and> f8 op = 0 \<and> f6 op = 1 \<and> f3 op = 6 \<and> f0 op = 3 \<and> h = opRTE"
  unfolding registerRTE_def category_defs
  by (simp add: op_const [of op "0x4E73"])

lemma set_registerRTR:
  "(op, h) \<in> set registerRTR \<longleftrightarrow>
     line op = 0x4 \<and> f9 op = 7 \<and> f8 op = 0 \<and> f6 op = 1 \<and> f3 op = 6 \<and> f0 op = 7 \<and> h = opRTR"
  unfolding registerRTR_def category_defs
  by (simp add: op_const [of op "0x4E77"])

lemma set_registerNOP:
  "(op, h) \<in> set registerNOP \<longleftrightarrow>
     line op = 0x4 \<and> f9 op = 7 \<and> f8 op = 0 \<and> f6 op = 1 \<and> f3 op = 6 \<and> f0 op = 1 \<and> h = opNOP"
  unfolding registerNOP_def category_defs
  by (simp add: op_const [of op "0x4E71"])

lemma set_registerSTOP:
  "(op, h) \<in> set registerSTOP \<longleftrightarrow>
     line op = 0x4 \<and> f9 op = 7 \<and> f8 op = 0 \<and> f6 op = 1 \<and> f3 op = 6 \<and> f0 op = 2 \<and> h = opSTOP"
  unfolding registerSTOP_def category_defs
  by (simp add: op_const [of op "0x4E72"])

lemma set_registerRESET:
  "(op, h) \<in> set registerRESET \<longleftrightarrow>
     line op = 0x4 \<and> f9 op = 7 \<and> f8 op = 0 \<and> f6 op = 1 \<and> f3 op = 6 \<and> f0 op = 0 \<and> h = opRESET"
  unfolding registerRESET_def category_defs
  by (simp add: op_const [of op "0x4E70"])

lemma set_registerTRAPV:
  "(op, h) \<in> set registerTRAPV \<longleftrightarrow>
     line op = 0x4 \<and> f9 op = 7 \<and> f8 op = 0 \<and> f6 op = 1 \<and> f3 op = 6 \<and> f0 op = 6 \<and> h = opTRAPV"
  unfolding registerTRAPV_def category_defs
  by (simp add: op_const [of op "0x4E76"])

lemma set_registerTRAP:
  "(op, h) \<in> set registerTRAP \<longleftrightarrow>
     line op = 0x4 \<and> f9 op = 7 \<and> f8 op = 0 \<and> f6 op = 1 \<and> (f3 op = 0 \<or> f3 op = 1) \<and> h = opTRAP"
  unfolding registerTRAP_def category_defs
  unfolding in_stores
  by (simp add: op_shapes stores_simps cong: conj_cong) (use f8_cases [of op] in \<open>auto simp: f6_less_3\<close>)?

lemma set_registerLINK:
  "(op, h) \<in> set registerLINK \<longleftrightarrow>
     line op = 0x4 \<and> f9 op = 7 \<and> f8 op = 0 \<and> f6 op = 1 \<and> f3 op = 2 \<and> h = opLINK"
  unfolding registerLINK_def category_defs
  unfolding in_stores
  by (simp add: op_shapes stores_simps cong: conj_cong) (use f8_cases [of op] in \<open>auto simp: f6_less_3\<close>)?

lemma set_registerUNLK:
  "(op, h) \<in> set registerUNLK \<longleftrightarrow>
     line op = 0x4 \<and> f9 op = 7 \<and> f8 op = 0 \<and> f6 op = 1 \<and> f3 op = 3 \<and> h = opUNLK"
  unfolding registerUNLK_def category_defs
  unfolding in_stores
  by (simp add: op_shapes stores_simps cong: conj_cong) (use f8_cases [of op] in \<open>auto simp: f6_less_3\<close>)?

lemma set_registerMoveToFromSR:
  "(op, h) \<in> set registerMoveToFromSR \<longleftrightarrow>
     line op = 0x4 \<and> f9 op = 0 \<and> f8 op = 0 \<and> f6 op = 3 \<and> dataAlt (f3 op) (f0 op) \<and> h = makeMOVEfromSR (f3 op) (f0 op) \<or>
     line op = 0x4 \<and> f9 op = 2 \<and> f8 op = 0 \<and> f6 op = 3 \<and> dataOp (f3 op) (f0 op) \<and> h = makeMOVEtoCCR (f3 op) (f0 op) \<or>
     line op = 0x4 \<and> f9 op = 3 \<and> f8 op = 0 \<and> f6 op = 3 \<and> dataOp (f3 op) (f0 op) \<and> h = makeMOVEtoSR (f3 op) (f0 op) \<or>
     line op = 0x4 \<and> f9 op = 7 \<and> f8 op = 0 \<and> f6 op = 1 \<and> f3 op = 4 \<and> h = opMOVEtoUSP \<or>
     line op = 0x4 \<and> f9 op = 7 \<and> f8 op = 0 \<and> f6 op = 1 \<and> f3 op = 5 \<and> h = opMOVEfromUSP"
  unfolding registerMoveToFromSR_def category_defs
  unfolding in_stores
  by (simp add: op_shapes stores_simps cong: conj_cong) (use f8_cases [of op] in \<open>auto simp: f6_less_3\<close>)?

lemma set_registerAndiOriEoriSRCCR:
  "(op, h) \<in> set registerAndiOriEoriSRCCR \<longleftrightarrow>
     line op = 0x0 \<and> f9 op = 1 \<and> f8 op = 0 \<and> f6 op = 0 \<and> f3 op = 7 \<and> f0 op = 4 \<and> h = opANDItoCCR \<or>
     line op = 0x0 \<and> f9 op = 1 \<and> f8 op = 0 \<and> f6 op = 1 \<and> f3 op = 7 \<and> f0 op = 4 \<and> h = opANDItoSR \<or>
     line op = 0x0 \<and> f9 op = 0 \<and> f8 op = 0 \<and> f6 op = 0 \<and> f3 op = 7 \<and> f0 op = 4 \<and> h = opORItoCCR \<or>
     line op = 0x0 \<and> f9 op = 0 \<and> f8 op = 0 \<and> f6 op = 1 \<and> f3 op = 7 \<and> f0 op = 4 \<and> h = opORItoSR \<or>
     line op = 0x0 \<and> f9 op = 5 \<and> f8 op = 0 \<and> f6 op = 0 \<and> f3 op = 7 \<and> f0 op = 4 \<and> h = opEORItoCCR \<or>
     line op = 0x0 \<and> f9 op = 5 \<and> f8 op = 0 \<and> f6 op = 1 \<and> f3 op = 7 \<and> f0 op = 4 \<and> h = opEORItoSR"
  unfolding registerAndiOriEoriSRCCR_def category_defs
  by (simp add: op_const [of op "0x023C"] op_const [of op "0x027C"] op_const [of op "0x003C"] op_const [of op "0x007C"] op_const [of op "0x0A3C"] op_const [of op "0x0A7C"])

lemma set_registerAND:
  "(op, h) \<in> set registerAND \<longleftrightarrow>
     line op = 0xC \<and> f8 op = 0 \<and> f6 op < 3 \<and> dataOp (f3 op) (f0 op) \<and> h = makeANDtoReg (f9 op) (f3 op) (f0 op) \<or>
     line op = 0xC \<and> f8 op = 1 \<and> f6 op < 3 \<and> memAlt (f3 op) (f0 op) \<and> h = makeANDtoEA (f9 op) (f3 op) (f0 op)"
  unfolding registerAND_def category_defs
  unfolding in_stores
  by (simp add: op_shapes stores_simps cong: conj_cong) (use f8_cases [of op] in \<open>auto simp: f6_less_3\<close>)?

lemma set_registerOR:
  "(op, h) \<in> set registerOR \<longleftrightarrow>
     line op = 0x8 \<and> f8 op = 0 \<and> f6 op < 3 \<and> dataOp (f3 op) (f0 op) \<and> h = makeORtoReg (f9 op) (f3 op) (f0 op) \<or>
     line op = 0x8 \<and> f8 op = 1 \<and> f6 op < 3 \<and> memAlt (f3 op) (f0 op) \<and> h = makeORtoEA (f9 op) (f3 op) (f0 op)"
  unfolding registerOR_def category_defs
  unfolding in_stores
  by (simp add: op_shapes stores_simps cong: conj_cong) (use f8_cases [of op] in \<open>auto simp: f6_less_3\<close>)?

lemma set_registerEOR:
  "(op, h) \<in> set registerEOR \<longleftrightarrow>
     line op = 0xB \<and> f8 op = 1 \<and> f6 op < 3 \<and> dataAlt (f3 op) (f0 op) \<and> h = makeEOR (f9 op) (f3 op) (f0 op)"
  unfolding registerEOR_def category_defs
  unfolding in_stores
  by (simp add: op_shapes stores_simps cong: conj_cong) (use f8_cases [of op] in \<open>auto simp: f6_less_3\<close>)?

lemma set_registerTAS:
  "(op, h) \<in> set registerTAS \<longleftrightarrow>
     line op = 0x4 \<and> f9 op = 5 \<and> f8 op = 0 \<and> f6 op = 3 \<and> dataAlt (f3 op) (f0 op) \<and> h = makeTAS (f3 op) (f0 op)"
  unfolding registerTAS_def category_defs
  unfolding in_stores
  by (simp add: op_shapes stores_simps cong: conj_cong) (use f8_cases [of op] in \<open>auto simp: f6_less_3\<close>)?

lemma set_registerShifts:
  "(op, h) \<in> set registerShifts \<longleftrightarrow>
     line op = 0xE \<and> f6 op < 3 \<and> h = opShiftReg \<or>
     line op = 0xE \<and> f9 op < 4 \<and> f6 op = 3 \<and> memAlt (f3 op) (f0 op) \<and> h = makeShiftMem (f3 op) (f0 op)"
  unfolding registerShifts_def category_defs
  unfolding in_stores
  by (simp add: op_shapes stores_simps cong: conj_cong) (use f8_cases [of op] in \<open>auto simp: f6_less_3\<close>)?

lemma set_registerMOVE:
  "(op, h) \<in> set registerMOVE \<longleftrightarrow>
     (line op = 1 \<or> line op = 2 \<or> line op = 3) \<and> push_bit 2 (f8 op) OR f6 op \<noteq> 1 \<and> \<not> (push_bit 2 (f8 op) OR f6 op = 7 \<and> f9 op > 1) \<and> anyOp (f3 op) (f0 op) \<and> h = makeMOVE (f3 op) (f0 op) (push_bit 2 (f8 op) OR f6 op) (f9 op)"
  unfolding registerMOVE_def category_defs
  unfolding in_stores
  by (simp add: op_shapes stores_simps cong: conj_cong) (use f8_cases [of op] in \<open>auto simp: f6_less_3\<close>)?

lemma set_registerMOVEA:
  "(op, h) \<in> set registerMOVEA \<longleftrightarrow>
     (line op = 2 \<or> line op = 3) \<and> f8 op = 0 \<and> f6 op = 1 \<and> anyOp (f3 op) (f0 op) \<and> h = makeMOVEA (f9 op) (f3 op) (f0 op)"
  unfolding registerMOVEA_def category_defs
  unfolding in_stores
  by (simp add: op_shapes stores_simps cong: conj_cong) (use f8_cases [of op] in \<open>auto simp: f6_less_3\<close>)?

lemma set_registerMOVEQ:
  "(op, h) \<in> set registerMOVEQ \<longleftrightarrow>
     line op = 0x7 \<and> f8 op = 0 \<and> h = opMOVEQ"
  unfolding registerMOVEQ_def category_defs
  unfolding in_stores
  by (simp add: op_shapes stores_simps cong: conj_cong) (use f8_cases [of op] in \<open>auto simp: f6_less_3\<close>)?

lemma set_registerLEA:
  "(op, h) \<in> set registerLEA \<longleftrightarrow>
     line op = 0x4 \<and> f8 op = 1 \<and> f6 op = 3 \<and> ctrlOp (f3 op) (f0 op) \<and> h = makeLEA (f9 op) (f3 op) (f0 op)"
  unfolding registerLEA_def category_defs
  unfolding in_stores
  by (simp add: op_shapes stores_simps cong: conj_cong) (use f8_cases [of op] in \<open>auto simp: f6_less_3\<close>)?

lemma set_registerPEA:
  "(op, h) \<in> set registerPEA \<longleftrightarrow>
     line op = 0x4 \<and> f9 op = 4 \<and> f8 op = 0 \<and> f6 op = 1 \<and> ctrlOp (f3 op) (f0 op) \<and> h = makePEA (f3 op) (f0 op)"
  unfolding registerPEA_def category_defs
  unfolding in_stores
  by (simp add: op_shapes stores_simps cong: conj_cong) (use f8_cases [of op] in \<open>auto simp: f6_less_3\<close>)?

lemma set_registerMOVEM:
  "(op, h) \<in> set registerMOVEM \<longleftrightarrow>
     line op = 0x4 \<and> f9 op = 4 \<and> f8 op = 0 \<and> (f6 op = 2 \<or> f6 op = 3) \<and> memAlt (f3 op) (f0 op) \<and> f3 op \<noteq> 3 \<and> h = opMOVEM \<or>
     line op = 0x4 \<and> f9 op = 6 \<and> f8 op = 0 \<and> (f6 op = 2 \<or> f6 op = 3) \<and> 2 \<le> f3 op \<and> f3 op \<noteq> 4 \<and> \<not> (f3 op = 7 \<and> f0 op > 3) \<and> h = opMOVEM"
  unfolding registerMOVEM_def category_defs
  unfolding in_stores in_range_2
  by (simp add: op_shapes stores_simps cong: conj_cong) (use ge_2_neq_1 [of "f3 op"] in blast)

lemma set_registerEXG:
  "(op, h) \<in> set registerEXG \<longleftrightarrow>
     line op = 0xC \<and> f8 op = 1 \<and> (f6 op = 1 \<and> (f3 op = 0 \<or> f3 op = 1) \<or> f6 op = 2 \<and> f3 op = 1) \<and> h = opEXG"
  unfolding registerEXG_def category_defs
  unfolding in_stores
  by (simp add: op_shapes stores_simps cong: conj_cong) (use f8_cases [of op] in \<open>auto simp: f6_less_3\<close>)?

lemma set_registerSWAP:
  "(op, h) \<in> set registerSWAP \<longleftrightarrow>
     line op = 0x4 \<and> f9 op = 4 \<and> f8 op = 0 \<and> f6 op = 1 \<and> f3 op = 0 \<and> h = opSWAP"
  unfolding registerSWAP_def category_defs
  unfolding in_stores
  by (simp add: op_shapes stores_simps cong: conj_cong) (use f8_cases [of op] in \<open>auto simp: f6_less_3\<close>)?

lemma set_registerMOVEP:
  "(op, h) \<in> set registerMOVEP \<longleftrightarrow>
     line op = 0x0 \<and> f8 op = 1 \<and> f3 op = 1 \<and> h = opMOVEP"
  unfolding registerMOVEP_def category_defs
  unfolding in_stores
  by (simp add: op_shapes stores_simps cong: conj_cong) (use f6_cases [of op] in auto)

lemmas set_stores =
  set_registerADD set_registerADDA set_registerADDX set_registerSUB
  set_registerSUBA set_registerSUBX set_registerADDI set_registerSUBI
  set_registerCMPI set_registerANDI set_registerORI set_registerEORI
  set_registerADDQ set_registerSUBQ set_registerCMP set_registerCMPA
  set_registerCMPM set_registerMULU set_registerMULS set_registerDIVU
  set_registerDIVS set_registerNEG set_registerNEGX set_registerCLR
  set_registerNOT set_registerTST set_registerEXT set_registerCHK
  set_registerABCD set_registerSBCD set_registerNBCD set_registerBTST
  set_registerBCHG set_registerBCLR set_registerBSET set_registerBcc
  set_registerBRA set_registerBSR set_registerDBcc set_registerScc
  set_registerJMP set_registerJSR set_registerRTS set_registerRTE
  set_registerRTR set_registerNOP set_registerSTOP set_registerRESET
  set_registerTRAPV set_registerTRAP set_registerLINK set_registerUNLK
  set_registerMoveToFromSR set_registerAndiOriEoriSRCCR set_registerAND set_registerOR
  set_registerEOR set_registerTAS set_registerShifts set_registerMOVE
  set_registerMOVEA set_registerMOVEQ set_registerLEA set_registerPEA
  set_registerMOVEM set_registerEXG set_registerSWAP set_registerMOVEP

subsection \<open>The table line by line\<close>

lemmas init_defs = all_stores_def init_arith_def init_bcd_def init_bit_def init_branch_def init_ctrl_def
  init_logic_def init_move_def

lemma guarded_Some [simp]: "guarded b x = Some y \<longleftrightarrow> b \<and> y = x"
  by (auto simp: guarded_def)

lemma memAlt_ge_2: "memAlt m r \<Longrightarrow> m \<noteq> 0 \<and> m \<noteq> 1"
  by (auto simp: memAlt_def word_le_nat_alt)

lemma stores_lineD: "line op = 13 \<Longrightarrow> (op, h) \<in> set all_stores \<longleftrightarrow>
    decodeAddSub makeADDtoReg makeADDtoEA makeADDA opADDXreg opADDXmem (f9 op) (f8 op) (f6 op) (f3 op) (f0 op) = Some h"
  unfolding init_defs by (simp add: set_stores)
    (use f8_cases [of op] memAlt_ge_2 [of "f3 op" "f0 op"] in \<open>auto simp: decodeAddSub_def f6_less_3\<close>)

lemma stores_line9: "line op = 9 \<Longrightarrow> (op, h) \<in> set all_stores \<longleftrightarrow>
    decodeAddSub makeSUBtoReg makeSUBtoEA makeSUBA opSUBXreg opSUBXmem (f9 op) (f8 op) (f6 op) (f3 op) (f0 op) = Some h"
  unfolding init_defs by (simp add: set_stores)
    (use f8_cases [of op] memAlt_ge_2 [of "f3 op" "f0 op"] in \<open>auto simp: decodeAddSub_def f6_less_3\<close>)

lemma stores_line8: "line op = 8 \<Longrightarrow> (op, h) \<in> set all_stores \<longleftrightarrow>
    decodeLine8 (f9 op) (f8 op) (f6 op) (f3 op) (f0 op) = Some h"
  unfolding init_defs by (simp add: set_stores)
    (use f8_cases [of op] memAlt_ge_2 [of "f3 op" "f0 op"] in \<open>auto simp: decodeLine8_def f6_less_3\<close>)

lemma stores_lineB: "line op = 11 \<Longrightarrow> (op, h) \<in> set all_stores \<longleftrightarrow>
    decodeLineB (f9 op) (f8 op) (f6 op) (f3 op) (f0 op) = Some h"
  unfolding init_defs by (simp add: set_stores)
    (use f8_cases [of op] in \<open>auto simp: decodeLineB_def f6_less_3 dataAlt_def\<close>)

lemma stores_lineC: "line op = 12 \<Longrightarrow> (op, h) \<in> set all_stores \<longleftrightarrow>
    decodeLineC (f9 op) (f8 op) (f6 op) (f3 op) (f0 op) = Some h"
  unfolding init_defs by (simp add: set_stores)
    (use f8_cases [of op] f6_cases [of op] memAlt_ge_2 [of "f3 op" "f0 op"] in \<open>auto simp: decodeLineC_def f6_less_3\<close>)

lemma stores_lineE: "line op = 14 \<Longrightarrow> (op, h) \<in> set all_stores \<longleftrightarrow>
    decodeLineE (f9 op) (f6 op) (f3 op) (f0 op) = Some h"
  unfolding init_defs by (simp add: set_stores) (auto simp: decodeLineE_def f6_less_3)

lemma stores_line5: "line op = 5 \<Longrightarrow> (op, h) \<in> set all_stores \<longleftrightarrow>
    decodeLine5 (f9 op) (f8 op) (f6 op) (f3 op) (f0 op) = Some h"
  unfolding init_defs by (simp add: set_stores)
    (use f8_cases [of op] in \<open>auto simp: decodeLine5_def f6_less_3 dataAlt_def\<close>)

lemma stores_line6: "line op = 6 \<Longrightarrow> (op, h) \<in> set all_stores \<longleftrightarrow> decodeLine6 (f9 op) (f8 op) = Some h"
  unfolding init_defs by (simp add: set_stores) (use f8_cases [of op] in \<open>auto simp: decodeLine6_def\<close>)

lemma stores_line7: "line op = 7 \<Longrightarrow> (op, h) \<in> set all_stores \<longleftrightarrow> guarded (f8 op = 0) opMOVEQ = Some h"
  unfolding init_defs by (simp add: set_stores)

lemma stores_lineAF: "line op = 10 \<or> line op = 15 \<Longrightarrow> (op, h) \<notin> set all_stores"
  unfolding init_defs by (elim disjE) (simp_all add: set_stores)

lemma stores_move: "line op = 1 \<or> line op = 2 \<or> line op = 3 \<Longrightarrow> (op, h) \<in> set all_stores \<longleftrightarrow>
    decodeMove (line op) (f9 op) (f8 op) (f6 op) (f3 op) (f0 op) = Some h"
  unfolding init_defs
  by (elim disjE) (simp_all add: set_stores decodeMove_def Let_def, (use f8_cases [of op] f6_cases [of op] in auto)+)

lemma stores_line0: "line op = 0 \<Longrightarrow> (op, h) \<in> set all_stores \<longleftrightarrow>
    decodeLine0 (f9 op) (f8 op) (f6 op) (f3 op) (f0 op) = Some h"
  unfolding init_defs
  by (simp add: set_stores)
    (insert f8_cases [of op] f6_cases [of op] f9_cases [of op],
      auto simp: decodeLine0_def f6_less_3 dataOp_def dataAlt_def)

lemma ge_2: "2 \<le> m \<longleftrightarrow> m \<noteq> 0 \<and> m \<noteq> (1 :: u16)"
  by (simp add: word_le_nat_alt word_unat_eq_iff) arith

lemma stores_line4: "line op = 4 \<Longrightarrow> (op, h) \<in> set all_stores \<longleftrightarrow>
    decodeLine4 (f9 op) (f8 op) (f6 op) (f3 op) (f0 op) = Some h"
  unfolding init_defs
  by (simp add: set_stores)
    (insert f8_cases [of op] f6_cases [of op] f9_cases [of op],
      elim disjE insertE emptyE; simp add: decodeLine4_def category_defs ge_2; blast)

lemma in_all_stores: "(op, h) \<in> set all_stores \<longleftrightarrow> decode op = Some h"
proof -
  have "line op \<in> {0, 1, 2, 3, 4, 5, 6, 7, 8, 9, 10, 11, 12, 13, 14, 15}"
    by (rule less_16_cases) simp
  then show ?thesis
    by (auto simp: decode_def Let_def stores_line0 stores_move stores_line4 stores_line5 stores_line6
      stores_line7 stores_line8 stores_line9 stores_lineAF stores_lineB stores_lineC stores_lineD
      stores_lineE)
qed

lemma map_of_rev_unique:
  assumes "\<And>h. (op, h) \<in> set xs \<longleftrightarrow> d = Some h"
  shows "map_of (rev xs) op = d"
proof (cases "map_of (rev xs) op")
  case None
  then have "op \<notin> fst ` set xs" by (simp add: map_of_eq_None_iff)
  then show ?thesis using None assms by (cases d) force+
next
  case (Some h)
  then have "(op, h) \<in> set xs" by (auto dest: map_of_SomeD)
  then show ?thesis using Some assms by simp
qed

lemma opcodeTable_eq_decode: "opcodeTable op = decode op"
  unfolding opcodeTable_def by (rule map_of_rev_unique) (rule in_all_stores)

subsection \<open>Properties\<close>


text \<open>
  C9. The table does not depend on the order in which the \<open>init\<close> functions run: any sequence of
  the same stores, in whatever order and with whatever repetitions, leaves the same table.
\<close>

theorem opcodeTable_order_independent:
  assumes "set xs = set (all_stores :: 'b stores)"
  shows "map_of (rev xs) op = opcodeTable op"
  unfolding opcodeTable_eq_decode by (rule map_of_rev_unique) (simp add: assms in_all_stores)

theorem opcodeTable_order_independent_witness:
  "map_of (rev (init_move @ init_logic @ init_ctrl @ init_branch @ init_bit @ init_bcd @ init_arith)) 0x4E71 =
     (opcodeTable 0x4E71 :: unit opFunc option)"
  by (rule opcodeTable_order_independent) (auto simp: all_stores_def)

end
