(* ===== verification/M68k_Alu.thy ===== *)
theory M68k_Alu
  imports M68k_Flags M68k_TestBus
begin

text \<open>
  The condition codes as integer arithmetic. \<open>uval\<close> and \<open>sval\<close> read an operand of a given width
  as an unsigned and as a signed number. \<open>addCCR\<close>, \<open>subCCR\<close>, \<open>cmpCCR\<close> and \<open>logicCCR\<close> say what the
  condition codes mean: carry is a sum or difference outside the unsigned range, overflow one
  outside the signed range, zero and negative are read off the wrapped result. The lemmas
  \<open>setFlagsAdd_run\<close>, \<open>setFlagsSub_run\<close>, \<open>setFlagsCmp_run\<close> and \<open>setFlagsLogical_run\<close> show that the bit
  tricks of \<open>flags.go\<close> compute them, with a carry or borrow in for the extended instructions.
  Then the sixteen conditions of \<open>testCondition\<close> after a comparison are comparisons of numbers.
\<close>

subsection \<open>Operands as numbers\<close>

definition uval :: "msize \<Rightarrow> u32 \<Rightarrow> int" where
  "uval sz x = take_bit (width sz) (uint x)"

definition sval :: "msize \<Rightarrow> u32 \<Rightarrow> int" where
  "sval sz x = signed_take_bit (width sz - 1) (uint x)"

definition fits :: "msize \<Rightarrow> int \<Rightarrow> bool" where
  "fits sz k \<longleftrightarrow> - (2 ^ (width sz - 1)) \<le> k \<and> k < 2 ^ (width sz - 1)"

text \<open>The status register with its five condition codes replaced.\<close>

definition withCCR :: "bool \<Rightarrow> bool \<Rightarrow> bool \<Rightarrow> bool \<Rightarrow> bool \<Rightarrow> u16 \<Rightarrow> u16" where
  "withCCR x n z v c sr = (sr AND NOT 0x1F) OR (if x then flagX else 0) OR (if n then flagN else 0) OR
     (if z then flagZ else 0) OR (if v then flagV else 0) OR (if c then flagC else 0)"

definition addCCR :: "msize \<Rightarrow> u32 \<Rightarrow> u32 \<Rightarrow> int \<Rightarrow> u16 \<Rightarrow> u16" where
  "addCCR sz s d k sr =
    (let u = uval sz s + uval sz d + k;
         c = (2 ^ width sz \<le> u)
     in withCCR c (signed_take_bit (width sz - 1) u < 0) (take_bit (width sz) u = 0)
          (\<not> fits sz (sval sz s + sval sz d + k)) c sr)"

definition subCCR :: "msize \<Rightarrow> u32 \<Rightarrow> u32 \<Rightarrow> int \<Rightarrow> u16 \<Rightarrow> u16" where
  "subCCR sz s d k sr =
    (let u = uval sz d - uval sz s - k;
         c = (u < 0)
     in withCCR c (signed_take_bit (width sz - 1) u < 0) (take_bit (width sz) u = 0)
          (\<not> fits sz (sval sz d - sval sz s - k)) c sr)"

definition cmpCCR :: "msize \<Rightarrow> u32 \<Rightarrow> u32 \<Rightarrow> u16 \<Rightarrow> u16" where
  "cmpCCR sz s d sr =
    (let u = uval sz d - uval sz s
     in withCCR (sr AND flagX \<noteq> 0) (signed_take_bit (width sz - 1) u < 0) (take_bit (width sz) u = 0)
          (\<not> fits sz (sval sz d - sval sz s)) (u < 0) sr)"

definition logicCCR :: "msize \<Rightarrow> u32 \<Rightarrow> u16 \<Rightarrow> u16" where
  "logicCCR sz r sr = withCCR (sr AND flagX \<noteq> 0) (sval sz r < 0) (uval sz r = 0) False False sr"

text \<open>What condition \<open>cc\<close> should mean after a comparison of \<open>d\<close> with \<open>s\<close>.\<close>

definition compares :: "msize \<Rightarrow> u16 \<Rightarrow> u32 \<Rightarrow> u32 \<Rightarrow> bool" where
  "compares sz cc s d =
    (let us = uval sz s; ud = uval sz d; ss = sval sz s; sd = sval sz d;
         wrapped = signed_take_bit (width sz - 1) (sd - ss)
     in if cc = 0 then True
        else if cc = 1 then False
        else if cc = 2 then us < ud
        else if cc = 3 then ud \<le> us
        else if cc = 4 then us \<le> ud
        else if cc = 5 then ud < us
        else if cc = 6 then ud \<noteq> us
        else if cc = 7 then ud = us
        else if cc = 8 then fits sz (sd - ss)
        else if cc = 9 then \<not> fits sz (sd - ss)
        else if cc = 10 then 0 \<le> wrapped
        else if cc = 11 then wrapped < 0
        else if cc = 12 then ss \<le> sd
        else if cc = 13 then sd < ss
        else if cc = 14 then ss < sd
        else if cc = 15 then sd \<le> ss
        else False)"

subsection \<open>The sign bit\<close>

lemma and_MSB: "sz \<noteq> sizeZero \<Longrightarrow> x AND MSB sz = 0 \<longleftrightarrow> \<not> bit x (width sz - 1)"
proof -
  assume "sz \<noteq> sizeZero"
  then have "MSB sz = 2 ^ (width sz - 1)" by (cases sz) simp_all
  then show ?thesis by (simp add: and_exp_eq_0_iff_not_bit)
qed

lemma width_Suc: "sz \<noteq> sizeZero \<Longrightarrow> \<exists>m. width sz = Suc m \<and> m < 32"
  by (cases sz) simp_all

lemma bit_int_take_bit: "bit (k :: int) m \<longleftrightarrow> 2 ^ m \<le> take_bit (Suc m) k"
proof -
  have "take_bit (Suc m) k = (if bit k m then 2 ^ m else 0) + take_bit m k"
    by (simp add: take_bit_Suc_from_most)
  moreover have "0 \<le> take_bit m k" and "take_bit m k < 2 ^ m" by simp_all
  ultimately show ?thesis by (cases "bit k m"; simp only: if_True if_False simp_thms; linarith)
qed

lemma signed_take_bit_int_sign:
  "signed_take_bit m (k :: int) =
     (if bit k m then take_bit (Suc m) k - 2 ^ Suc m else take_bit (Suc m) k)"
  by (simp add: signed_take_bit_eq_take_bit_minus)

lemma uval_bounds: "0 \<le> uval sz x" "uval sz x < 2 ^ width sz"
  by (simp_all add: uval_def)

lemma bit_uval: "sz \<noteq> sizeZero \<Longrightarrow> bit x (width sz - 1) \<longleftrightarrow> 2 ^ (width sz - 1) \<le> uval sz x"
  by (auto simp: uval_def bit_int_take_bit [symmetric] bit_uint_iff dest!: width_Suc)

lemma sval_uval:
  "sz \<noteq> sizeZero \<Longrightarrow>
     sval sz x = (if 2 ^ (width sz - 1) \<le> uval sz x then uval sz x - 2 ^ width sz else uval sz x)"
  by (auto simp: sval_def uval_def signed_take_bit_int_sign bit_int_take_bit dest!: width_Suc)

lemma uval_and_Mask [simp]: "uval sz (x AND Mask sz) = uval sz x"
  by (simp add: uval_def and_Mask_eq_take_bit unsigned_take_bit_eq)

lemma and_Mask_0: "x AND Mask sz = 0 \<longleftrightarrow> uval sz x = 0"
  by (simp add: uval_def and_Mask_eq_take_bit uint_0_iff [symmetric] unsigned_take_bit_eq)

lemma bit_and_Mask: "sz \<noteq> sizeZero \<Longrightarrow> bit (x AND Mask sz) (width sz - 1) \<longleftrightarrow> bit x (width sz - 1)"
  by (cases sz) (simp_all add: bit_simps and_Mask_eq_take_bit)

lemma width_le_32: "width sz \<le> 32"
  by (cases sz) simp_all

lemma uval_add: "uval sz (x + y) = take_bit (width sz) (uval sz x + uval sz y)"
  using width_le_32 [of sz] by (simp add: uval_def uint_word_arith_bintrs min_absorb1 take_bit_add)

lemma uval_diff: "uval sz (x - y) = take_bit (width sz) (uval sz x - uval sz y)"
  using width_le_32 [of sz] by (simp add: uval_def uint_word_arith_bintrs min_absorb1 take_bit_diff)


lemma run_flags_X:
  "run_state (do {
     srClr (flagX OR flagN OR flagZ OR flagV OR flagC);
     whenM z (srSet flagZ);
     whenM n (srSet flagN);
     whenM v (srSet flagV);
     whenM c (srSet (flagC OR flagX)) }) st =
   ((), st\<lparr>reg := (reg st)\<lparr>regSR := withCCR c n z v c (regSR (reg st))\<rparr>\<rparr>)"
  by (cases z; cases n; cases v; cases c; simp add: withCCR_def bits16)

lemma run_flags:
  "run_state (do {
     srClr (flagN OR flagZ OR flagV OR flagC);
     whenM z (srSet flagZ);
     whenM n (srSet flagN);
     whenM v (srSet flagV);
     whenM c (srSet flagC) }) st =
   ((), st\<lparr>reg := (reg st)\<lparr>regSR := withCCR (regSR (reg st) AND flagX \<noteq> 0) n z v c (regSR (reg st))\<rparr>\<rparr>)"
  by (cases z; cases n; cases v; cases c; simp add: withCCR_def bits16)

lemma run_flags_logical:
  "run_state (do {
     srClr (flagN OR flagZ OR flagV OR flagC);
     whenM z (srSet flagZ);
     whenM n (srSet flagN) }) st =
   ((), st\<lparr>reg := (reg st)\<lparr>regSR := withCCR (regSR (reg st) AND flagX \<noteq> 0) n z False False (regSR (reg st))\<rparr>\<rparr>)"
  by (cases z; cases n; simp add: withCCR_def bits16)

subsection \<open>Carries and overflows\<close>

lemma mod_carry:
  fixes T M :: int
  assumes "0 \<le> T" "T < 2 * M"
  shows "T mod M = (if T < M then T else T - M)"
proof (cases "T < M")
  case False
  have "T mod M = (T - M) mod M" by simp
  also have "\<dots> = T - M" using assms False by (intro mod_pos_pos_trivial) linarith+
  finally show ?thesis using False by simp
qed (use assms in simp)

lemma mod_borrow:
  fixes T M :: int
  assumes "- M \<le> T" "T < M"
  shows "T mod M = (if 0 \<le> T then T else T + M)"
proof (cases "0 \<le> T")
  case False
  have "T mod M = (T + M) mod M" by simp
  also have "\<dots> = T + M" using assms False by (intro mod_pos_pos_trivial) linarith+
  finally show ?thesis using False by simp
qed (use assms in simp)

lemma add_flags_arith:
  fixes A D R H k :: int
  assumes "0 \<le> A" "A < 2 * H" "0 \<le> D" "D < 2 * H" "0 \<le> k" "k \<le> 1" "R = (A + D + k) mod (2 * H)"
  shows "((H \<le> A \<and> H \<le> D) \<or> ((H \<le> A \<or> H \<le> D) \<and> \<not> H \<le> R)) \<longleftrightarrow> 2 * H \<le> A + D + k"
    and "((H \<le> A) \<noteq> (H \<le> R) \<and> (H \<le> D) \<noteq> (H \<le> R)) \<longleftrightarrow>
      \<not> (- H \<le> (if H \<le> A then A - 2 * H else A) + (if H \<le> D then D - 2 * H else D) + k \<and>
         (if H \<le> A then A - 2 * H else A) + (if H \<le> D then D - 2 * H else D) + k < H)"
proof -
  have R: "R = (if A + D + k < 2 * H then A + D + k else A + D + k - 2 * H)"
    unfolding assms(7) by (rule mod_carry) (use assms in linarith)+
  show "((H \<le> A \<and> H \<le> D) \<or> ((H \<le> A \<or> H \<le> D) \<and> \<not> H \<le> R)) \<longleftrightarrow> 2 * H \<le> A + D + k"
    using R assms(1-6) by auto
  show "((H \<le> A) \<noteq> (H \<le> R) \<and> (H \<le> D) \<noteq> (H \<le> R)) \<longleftrightarrow>
      \<not> (- H \<le> (if H \<le> A then A - 2 * H else A) + (if H \<le> D then D - 2 * H else D) + k \<and>
         (if H \<le> A then A - 2 * H else A) + (if H \<le> D then D - 2 * H else D) + k < H)"
    using R assms(1-6) by auto
qed

lemma sub_flags_arith:
  fixes A D R H k :: int
  assumes "0 \<le> A" "A < 2 * H" "0 \<le> D" "D < 2 * H" "0 \<le> k" "k \<le> 1" "R = (D - A - k) mod (2 * H)"
  shows "((H \<le> A \<and> \<not> H \<le> D) \<or> (H \<le> R \<and> \<not> H \<le> D) \<or> (H \<le> A \<and> H \<le> R)) \<longleftrightarrow> D - A - k < 0"
    and "((H \<le> A) \<noteq> (H \<le> D) \<and> (H \<le> R) \<noteq> (H \<le> D)) \<longleftrightarrow>
      \<not> (- H \<le> (if H \<le> D then D - 2 * H else D) - (if H \<le> A then A - 2 * H else A) - k \<and>
         (if H \<le> D then D - 2 * H else D) - (if H \<le> A then A - 2 * H else A) - k < H)"
proof -
  have R: "R = (if 0 \<le> D - A - k then D - A - k else D - A - k + 2 * H)"
    unfolding assms(7) by (rule mod_borrow) (use assms in linarith)+
  show "((H \<le> A \<and> \<not> H \<le> D) \<or> (H \<le> R \<and> \<not> H \<le> D) \<or> (H \<le> A \<and> H \<le> R)) \<longleftrightarrow> D - A - k < 0"
    using R assms(1-6) by auto
  show "((H \<le> A) \<noteq> (H \<le> D) \<and> (H \<le> R) \<noteq> (H \<le> D)) \<longleftrightarrow>
      \<not> (- H \<le> (if H \<le> D then D - 2 * H else D) - (if H \<le> A then A - 2 * H else A) - k \<and>
         (if H \<le> D then D - 2 * H else D) - (if H \<le> A then A - 2 * H else A) - k < H)"
    using R assms(1-6) by auto
qed


lemma pow_width: "sz \<noteq> sizeZero \<Longrightarrow> (2 :: int) ^ width sz = 2 * 2 ^ (width sz - 1)"
  by (auto dest!: width_Suc)

lemma take_bit_mod_width: "take_bit (width sz) (k :: int) = k mod 2 ^ width sz"
  by (simp add: take_bit_eq_mod)

lemma sign_of_wrapped:
  "sz \<noteq> sizeZero \<Longrightarrow>
     signed_take_bit (width sz - 1) u < 0 \<longleftrightarrow> 2 ^ (width sz - 1) \<le> take_bit (width sz) (u :: int)"
proof -
  assume "sz \<noteq> sizeZero"
  then obtain m where m: "width sz = Suc m" by (blast dest: width_Suc)
  have "0 \<le> take_bit (Suc m) u" and "take_bit (Suc m) u < 2 ^ Suc m"
    by (rule take_bit_nonnegative, rule take_bit_int_less_exp)
  then show ?thesis by (simp only: m diff_Suc_1 signed_take_bit_int_sign bit_int_take_bit split: if_split) linarith
qed

lemma uint_add_carry:
  fixes s d x :: u32
  assumes "uint s + uint d + uint x < 2 ^ 32"
  shows "uint (s + d + x) = uint s + uint d + uint x"
  using assms by (simp add: uint_word_arith_bintrs take_bit_eq_mod mod_simps)

lemma carry_narrow:
  assumes "sz \<noteq> sizeZero" "s AND Mask sz = s" "d AND Mask sz = d" "x \<le> 1"
  shows "(s + d + x) AND push_bit 1 (MSB sz) \<noteq> 0 \<longleftrightarrow>
     sz \<noteq> sizeLong \<and> 2 ^ width sz \<le> uval sz s + uval sz d + uint x"
proof (cases "sz = sizeLong")
  case False
  define w where "w = width sz"
  have w: "w = 8 \<or> w = 16" using assms(1) False unfolding w_def by (cases sz) simp_all
  have msb: "push_bit 1 (MSB sz) = 2 ^ w"
    using assms(1) False unfolding w_def by (cases sz) simp_all
  have s: "uint s = uval sz s" and d: "uint d = uval sz d"
    using assms(2,3) by (metis uval_def and_Mask_eq_take_bit unsigned_take_bit_eq)+
  have x: "0 \<le> uint x" "uint x \<le> 1" using assms(4) by (simp_all add: word_le_def)
  have lim: "uint s < 2 ^ w" "uint d < 2 ^ w" unfolding s d w_def by (rule uval_bounds)+
  have sum: "uint (s + d + x) = uint s + uint d + uint x"
    using w lim x by (intro uint_add_carry) auto
  have "bit (s + d + x) w \<longleftrightarrow> 2 ^ w \<le> take_bit (Suc w) (uint s + uint d + uint x)"
    using w by (auto simp: sum [symmetric] bit_int_take_bit [symmetric] bit_uint_iff)
  also have "take_bit (Suc w) (uint s + uint d + uint x) = uint s + uint d + uint x"
    using lim x by (intro take_bit_int_eq_self) auto
  finally show ?thesis using False unfolding msb and_exp_eq_0_iff_not_bit by (simp add: s d w_def)
next
  case True
  then have "push_bit 1 (MSB sz) = 0" by simp
  then show ?thesis using True by (simp only: and_zero_eq simp_thms)
qed

lemma sign_test: "sz \<noteq> sizeZero \<Longrightarrow> x AND MSB sz \<noteq> 0 \<longleftrightarrow> 2 ^ (width sz - 1) \<le> uval sz x"
  using and_MSB [of sz x] bit_uval [of sz x] by blast

text \<open>Tests of the sign bit, as comparisons of the operands' values.\<close>

lemma sign_tests:
  assumes "sz \<noteq> sizeZero"
  shows "(a XOR x) AND (b XOR y) AND MSB sz \<noteq> 0 \<longleftrightarrow>
      (2 ^ (width sz - 1) \<le> uval sz a) \<noteq> (2 ^ (width sz - 1) \<le> uval sz x) \<and>
      (2 ^ (width sz - 1) \<le> uval sz b) \<noteq> (2 ^ (width sz - 1) \<le> uval sz y)"
    and "((a AND b) OR ((a OR b) AND NOT x)) AND MSB sz \<noteq> 0 \<longleftrightarrow>
      (2 ^ (width sz - 1) \<le> uval sz a \<and> 2 ^ (width sz - 1) \<le> uval sz b) \<or>
      ((2 ^ (width sz - 1) \<le> uval sz a \<or> 2 ^ (width sz - 1) \<le> uval sz b) \<and>
       \<not> 2 ^ (width sz - 1) \<le> uval sz x)"
    and "((a AND NOT b) OR (x AND NOT b) OR (a AND x)) AND MSB sz \<noteq> 0 \<longleftrightarrow>
      (2 ^ (width sz - 1) \<le> uval sz a \<and> \<not> 2 ^ (width sz - 1) \<le> uval sz b) \<or>
      (2 ^ (width sz - 1) \<le> uval sz x \<and> \<not> 2 ^ (width sz - 1) \<le> uval sz b) \<or>
      (2 ^ (width sz - 1) \<le> uval sz a \<and> 2 ^ (width sz - 1) \<le> uval sz x)"
proof -
  have w: "width sz - 1 < 32" using width_Suc [OF assms] by auto
  note rules = and.assoc [symmetric] and_MSB [OF assms] bit_and_iff bit_or_iff bit_xor_iff
    bit_and_Mask [OF assms] bit_uval [OF assms, symmetric]
  have nb: "bit (NOT z :: u32) (width sz - 1) \<longleftrightarrow> \<not> bit z (width sz - 1)" for z
    using w by (simp add: bit_not_iff)
  show "(a XOR x) AND (b XOR y) AND MSB sz \<noteq> 0 \<longleftrightarrow>
      (2 ^ (width sz - 1) \<le> uval sz a) \<noteq> (2 ^ (width sz - 1) \<le> uval sz x) \<and>
      (2 ^ (width sz - 1) \<le> uval sz b) \<noteq> (2 ^ (width sz - 1) \<le> uval sz y)"
    by (simp only: rules simp_thms)
  show "((a AND b) OR ((a OR b) AND NOT x)) AND MSB sz \<noteq> 0 \<longleftrightarrow>
      (2 ^ (width sz - 1) \<le> uval sz a \<and> 2 ^ (width sz - 1) \<le> uval sz b) \<or>
      ((2 ^ (width sz - 1) \<le> uval sz a \<or> 2 ^ (width sz - 1) \<le> uval sz b) \<and>
       \<not> 2 ^ (width sz - 1) \<le> uval sz x)"
    by (simp only: rules nb simp_thms)
  show "((a AND NOT b) OR (x AND NOT b) OR (a AND x)) AND MSB sz \<noteq> 0 \<longleftrightarrow>
      (2 ^ (width sz - 1) \<le> uval sz a \<and> \<not> 2 ^ (width sz - 1) \<le> uval sz b) \<or>
      (2 ^ (width sz - 1) \<le> uval sz x \<and> \<not> 2 ^ (width sz - 1) \<le> uval sz b) \<or>
      (2 ^ (width sz - 1) \<le> uval sz a \<and> 2 ^ (width sz - 1) \<le> uval sz x)"
    by (simp only: rules nb simp_thms)
qed

lemma setFlagsAdd_run:
  assumes "sz \<noteq> sizeZero" "s AND Mask sz = s" "d AND Mask sz = d" "x \<le> 1"
  shows "run_state (setFlagsAdd s d (s + d + x) sz) c =
    ((), c\<lparr>reg := (reg c)\<lparr>regSR := addCCR sz s d (uint x) (regSR (reg c))\<rparr>\<rparr>)"
proof -
  define H :: int where "H = 2 ^ (width sz - 1)"
  define R where "R = uval sz (s + d + x)"
  have H: "2 ^ width sz = 2 * H" by (simp add: H_def pow_width assms(1))
  have k: "0 \<le> uint x" "uint x \<le> 1" using assms(4) by (simp_all add: word_le_def)
  have R: "R = (uval sz s + uval sz d + uint x) mod (2 * H)"
    using k width_Suc [OF assms(1)]
    by (auto simp: R_def uval_add take_bit_mod_width H [symmetric] mod_simps) (simp add: uval_def take_bit_eq_mod mod_simps)
  note bounds = uval_bounds [of sz s] uval_bounds [of sz d]
  note arith = add_flags_arith [OF bounds(1) bounds(2) [unfolded H] bounds(3) bounds(4) [unfolded H] k R]
  note tests = sign_test [OF assms(1)] and_Mask_0 uval_and_Mask H_def [symmetric] R_def [symmetric]
  show ?thesis
    unfolding setFlagsAdd_def Let_def run_flags_X addCCR_def
    unfolding sign_tests [OF assms(1)]
    unfolding tests carry_narrow [OF assms]
      sign_of_wrapped [OF assms(1)] take_bit_mod_width H R [symmetric] fits_def sval_uval [OF assms(1)] arith
    by (cases "sz = sizeLong") simp_all
qed

lemma sub_flags:
  assumes "sz \<noteq> sizeZero" "x \<le> 1"
  shows "(((s AND Mask sz) AND NOT (d AND Mask sz)) OR (((d - s - x) AND Mask sz) AND NOT (d AND Mask sz)) OR
      ((s AND Mask sz) AND ((d - s - x) AND Mask sz))) AND MSB sz \<noteq> 0 \<longleftrightarrow> uval sz d - uval sz s - uint x < 0"
    and "((s AND Mask sz) XOR (d AND Mask sz)) AND (((d - s - x) AND Mask sz) XOR (d AND Mask sz)) AND MSB sz \<noteq> 0 \<longleftrightarrow>
      \<not> fits sz (sval sz d - sval sz s - uint x)"
    and "((d - s - x) AND Mask sz) AND MSB sz \<noteq> 0 \<longleftrightarrow> signed_take_bit (width sz - 1) (uval sz d - uval sz s - uint x) < 0"
    and "(d - s - x) AND Mask sz = 0 \<longleftrightarrow> take_bit (width sz) (uval sz d - uval sz s - uint x) = 0"
proof -
  define H :: int where "H = 2 ^ (width sz - 1)"
  define R where "R = uval sz (d - s - x)"
  have H: "2 ^ width sz = 2 * H" by (simp add: H_def pow_width assms(1))
  have k: "0 \<le> uint x" "uint x \<le> 1" using assms(2) by (simp_all add: word_le_def)
  have R: "R = (uval sz d - uval sz s - uint x) mod (2 * H)"
    by (simp add: R_def uval_diff take_bit_mod_width H [symmetric] mod_simps)
       (simp add: uval_def take_bit_eq_mod mod_simps)
  note bounds = uval_bounds [of sz s] uval_bounds [of sz d]
  note arith = sub_flags_arith [OF bounds(1) bounds(2) [unfolded H] bounds(3) bounds(4) [unfolded H] k R]
  note tests = sign_test [OF assms(1)] and_Mask_0 uval_and_Mask H_def [symmetric] R_def [symmetric]
  note spec = sign_of_wrapped [OF assms(1)] take_bit_mod_width H R [symmetric] fits_def sval_uval [OF assms(1)]
  show "(((s AND Mask sz) AND NOT (d AND Mask sz)) OR (((d - s - x) AND Mask sz) AND NOT (d AND Mask sz)) OR
      ((s AND Mask sz) AND ((d - s - x) AND Mask sz))) AND MSB sz \<noteq> 0 \<longleftrightarrow> uval sz d - uval sz s - uint x < 0"
    unfolding sign_tests [OF assms(1)]
    unfolding tests spec arith ..
  show "((s AND Mask sz) XOR (d AND Mask sz)) AND (((d - s - x) AND Mask sz) XOR (d AND Mask sz)) AND MSB sz \<noteq> 0 \<longleftrightarrow>
      \<not> fits sz (sval sz d - sval sz s - uint x)"
    unfolding sign_tests [OF assms(1)]
    unfolding tests spec arith ..
  show "((d - s - x) AND Mask sz) AND MSB sz \<noteq> 0 \<longleftrightarrow> signed_take_bit (width sz - 1) (uval sz d - uval sz s - uint x) < 0"
    unfolding tests spec ..
  show "(d - s - x) AND Mask sz = 0 \<longleftrightarrow> take_bit (width sz) (uval sz d - uval sz s - uint x) = 0"
    unfolding tests spec ..
qed

lemma setFlagsSub_run:
  assumes "sz \<noteq> sizeZero" "x \<le> 1"
  shows "run_state (setFlagsSub s d (d - s - x) sz) c =
    ((), c\<lparr>reg := (reg c)\<lparr>regSR := subCCR sz s d (uint x) (regSR (reg c))\<rparr>\<rparr>)"
  unfolding setFlagsSub_def Let_def run_flags_X subCCR_def sub_flags [OF assms] ..

lemma setFlagsCmp_run:
  assumes "sz \<noteq> sizeZero"
  shows "run_state (setFlagsCmp s d (d - s) sz) c =
    ((), c\<lparr>reg := (reg c)\<lparr>regSR := cmpCCR sz s d (regSR (reg c))\<rparr>\<rparr>)"
  unfolding setFlagsCmp_def Let_def run_flags cmpCCR_def
    sub_flags [OF assms word_zero_le, unfolded diff_0_right unsigned_0] ..

lemma setFlagsLogical_run:
  assumes "sz \<noteq> sizeZero"
  shows "run_state (setFlagsLogical r sz) c =
    ((), c\<lparr>reg := (reg c)\<lparr>regSR := logicCCR sz r (regSR (reg c))\<rparr>\<rparr>)"
  unfolding setFlagsLogical_def run_flags_logical logicCCR_def sign_test [OF assms] and_Mask_0
    sval_uval [OF assms] using uval_bounds [of sz r] by (simp add: not_le)


subsection \<open>Conditions\<close>

lemma withCCR_flags [simp]:
  "withCCR x n z v c sr AND flagC = 0 \<longleftrightarrow> \<not> c"
  "withCCR x n z v c sr AND flagV = 0 \<longleftrightarrow> \<not> v"
  "withCCR x n z v c sr AND flagZ = 0 \<longleftrightarrow> \<not> z"
  "withCCR x n z v c sr AND flagN = 0 \<longleftrightarrow> \<not> n"
  "withCCR x n z v c sr AND flagX = 0 \<longleftrightarrow> \<not> x"
  "withCCR x n z v c sr AND 5 = 0 \<longleftrightarrow> \<not> c \<and> \<not> z"
  by (cases z; cases n; cases v; cases c; cases x; simp add: withCCR_def bits16)+

lemma sval_eq_iff: "sz \<noteq> sizeZero \<Longrightarrow> sval sz x = sval sz y \<longleftrightarrow> uval sz x = uval sz y"
  using uval_bounds [of sz x] uval_bounds [of sz y] by (auto simp: sval_uval pow_width)

lemma sval_bounds: "sz \<noteq> sizeZero \<Longrightarrow> - (2 ^ (width sz - 1)) \<le> sval sz x" "sz \<noteq> sizeZero \<Longrightarrow> sval sz x < 2 ^ (width sz - 1)"
  using uval_bounds [of sz x] by (auto simp: sval_uval pow_width)

lemma take_bit_sval: "sz \<noteq> sizeZero \<Longrightarrow> take_bit (width sz) (sval sz x) = uval sz x"
  by (simp add: sval_def uval_def take_bit_signed_take_bit)

lemma signed_wrap_diff:
  assumes "sz \<noteq> sizeZero"
  shows "signed_take_bit (width sz - 1) (uval sz d - uval sz s) = signed_take_bit (width sz - 1) (sval sz d - sval sz s)"
proof -
  have "take_bit (width sz) (sval sz d - sval sz s) = take_bit (width sz) (uval sz d - uval sz s)"
    by (metis take_bit_diff take_bit_sval assms)
  then show ?thesis
    using width_Suc [OF assms] by (auto simp: signed_take_bit_eq_iff_take_bit_eq)
qed

lemma sub_zero_iff: "take_bit (width sz) (uval sz d - uval sz s) = 0 \<longleftrightarrow> uval sz d = uval sz s"
  using uval_bounds [of sz s] uval_bounds [of sz d]
  by (simp add: take_bit_mod_width mod_borrow)

lemma signed_less_iff:
  assumes "sz \<noteq> sizeZero"
  shows "(signed_take_bit (width sz - 1) (sval sz d - sval sz s) < 0) \<noteq> (\<not> fits sz (sval sz d - sval sz s)) \<longleftrightarrow>
     sval sz d < sval sz s"
proof -
  define H :: int where "H = 2 ^ (width sz - 1)"
  define T where "T = sval sz d - sval sz s"
  have b: "- H \<le> sval sz d" "sval sz d < H" "- H \<le> sval sz s" "sval sz s < H"
    unfolding H_def by (rule sval_bounds [OF assms])+
  have "T mod (2 * H) = (if 0 \<le> T then T else T + 2 * H)"
    by (rule mod_borrow) (use b in \<open>simp_all add: T_def\<close>)
  then have "signed_take_bit (width sz - 1) T < 0 \<longleftrightarrow> H \<le> (if 0 \<le> T then T else T + 2 * H)"
    unfolding sign_of_wrapped [OF assms] take_bit_mod_width pow_width [OF assms] H_def by simp
  then show ?thesis
    using b unfolding fits_def H_def [symmetric] T_def by auto
qed

subsection \<open>Conditions after a comparison\<close>

lemma cmpCCR_condition:
  assumes "sz \<noteq> sizeZero" "regSR (reg c) = cmpCCR sz s d sr"
  shows "run_state (testCondition cc) c = (compares sz cc s d, c)"
proof -
  define N where "N \<longleftrightarrow> signed_take_bit (width sz - 1) (sval sz d - sval sz s) < 0"
  have N: "N \<noteq> (\<not> fits sz (sval sz d - sval sz s)) \<longleftrightarrow> sval sz d < sval sz s"
    unfolding N_def by (rule signed_less_iff [OF assms(1)])
  have "cmpCCR sz s d sr = withCCR (sr AND flagX \<noteq> 0) N (uval sz d = uval sz s)
      (\<not> fits sz (sval sz d - sval sz s)) (uval sz d < uval sz s) sr"
    unfolding cmpCCR_def Let_def signed_wrap_diff [OF assms(1)] N_def [symmetric] sub_zero_iff by simp
  then show ?thesis
    using N sval_eq_iff [OF assms(1), of d s]
    unfolding compares_def Let_def N_def [symmetric] not_less [of "signed_take_bit _ _", symmetric]
    by (simp add: assms(2) testCondition_def) (auto simp: not_less)
qed

text \<open>
  After a comparison of \<open>d\<close> with \<open>s\<close> at any operand width, each of the sixteen conditions
  that \<open>testCondition\<close> evaluates is the comparison of the two numbers it is named after: unsigned
  for HI, LS, CC, CS, equality for NE, EQ, signed for GE, LT, GT, LE, range of the signed
  difference for VC, VS, sign of the wrapped difference for PL, MI.
\<close>

lemma cmp_condition:
  assumes "sz \<noteq> sizeZero"
  shows "fst (run_state (do { setFlagsCmp s d (d - s) sz; testCondition cc }) c) = compares sz cc s d"
  by (simp add: setFlagsCmp_run assms cmpCCR_condition [OF assms])

end
