(* ===== verification/M68k_Operand.thy ===== *)
theory M68k_Operand
  imports M68k_Ops
begin

text \<open>
  The two treatments of operands agree. \<open>ea.go\<close> resolves an operand at run time and then reads
  it; \<open>ea_inline.go\<close> builds a specialised closure per addressing mode. On every operand that the
  registration loops admit, the closures are the same programs as the general code, and the
  timing constants are the timing tables.
\<close>

lemma small_field:
  assumes "rg < (8 :: u16)"
  shows "unat (ucast rg :: u8) = unat rg" "(ucast rg :: u8) = 7 \<longleftrightarrow> rg = 7"
    "(ucast rg :: u8) = 0 \<longleftrightarrow> rg = 0" "(ucast rg :: u8) = 1 \<longleftrightarrow> rg = 1" "(ucast rg :: u8) = 2 \<longleftrightarrow> rg = 2"
    "(ucast rg :: u8) = 3 \<longleftrightarrow> rg = 3" "(ucast rg :: u8) = 4 \<longleftrightarrow> rg = 4"
  using less_8_cases [OF assms] by auto

lemma mode_exhaust:
  assumes "mode < (8 :: u16)"
  obtains "mode = 0" | "mode = 1" | "mode = 2" | "mode = 3" | "mode = 4" | "mode = 5" | "mode = 6" | "mode = 7"
  using less_8_cases [OF assms] by auto

lemma immediate_masks: "(ucast (v AND 255 :: u16) :: u32) AND 255 = ucast v AND 255" "x AND 4294967295 = (x :: u32)"
  by (simp_all add: bits32)

lemmas resolve_defs = resolveEA_def ea_read_def ea_address_def zeroEA_def Let_def

subsection \<open>Timing\<close>

lemma eaFetchCycles_Const:
  assumes "mode < 8" "rg < 8"
  shows "eaFetchCycles (ucast mode) (ucast rg) sz =
    (if sz = sizeLong then fst (eaFetchConst mode rg) + snd (eaFetchConst mode rg)
     else fst (eaFetchConst mode rg))"
  using assms(1) by (cases rule: mode_exhaust)
    (auto simp: eaFetchCycles_def eaFetchConst_def small_field [OF assms(2)])

lemma eaWriteCycles_Const:
  assumes "mode < 8" "rg < 8"
  shows "eaWriteCycles (ucast mode) (ucast rg) sz =
    (if sz = sizeLong then fst (eaWriteConst mode rg) + snd (eaWriteConst mode rg)
     else fst (eaWriteConst mode rg))"
  using assms(1) by (cases rule: mode_exhaust)
    (auto simp: eaWriteCycles_def eaWriteConst_def small_field [OF assms(2)])

subsection \<open>The specialised operand code\<close>

lemma makeEARead_eq:
  assumes "srcEA mode rg" "sz \<noteq> sizeZero"
  shows "makeEARead mode rg sz = do { e \<leftarrow> resolveEA (ucast mode) (ucast rg) sz; ea_read e sz }"
proof -
  from assms have m: "mode < 8" and r: "rg < 8" and a: "\<not> (mode = 7 \<and> rg > 4)" by (simp_all add: srcEA_def)
  from m show ?thesis
  proof (cases rule: mode_exhaust)
    case 8
    have "rg \<in> {0, 1, 2, 3, 4}" using less_8_cases [OF r] a 8 by auto
    then show ?thesis using 8 assms(2) by (cases sz) (auto simp: makeEARead_def resolve_defs immediate_masks)
  qed (auto simp: makeEARead_def resolve_defs small_field [OF r])
qed

lemma makeEAMemAddr_eq:
  assumes "memEA mode rg"
  shows "makeEAMemAddr mode rg sz = do { e \<leftarrow> resolveEA (ucast mode) (ucast rg) sz; return (ea_address e) }"
proof -
  from assms have m: "mode < 8" and r: "rg < 8" and a: "2 \<le> mode" "\<not> (mode = 7 \<and> rg > 3)"
    by (simp_all add: memEA_def)
  from m show ?thesis
  proof (cases rule: mode_exhaust)
    case 8
    have "rg \<in> {0, 1, 2, 3}" using less_8_cases [OF r] a 8 by auto
    then show ?thesis using 8 by (auto simp: makeEAMemAddr_def resolve_defs)
  qed (use a in \<open>auto simp: makeEAMemAddr_def resolve_defs small_field [OF r] word_le_nat_alt\<close>)
qed

subsection \<open>Property\<close>

text \<open>
  C40. The specialised operand code of \<open>ea_inline.go\<close> is the general operand resolution of \<open>ea.go\<close>: for
  every source operand that an opcode can encode, and every width, the read closure is \<open>resolveEA\<close>
  followed by a read, and for every operand in memory the address closure is the address that
  \<open>resolveEA\<close> computes. They are the same programs, with the same register updates, fetches,
  accesses and faults.
\<close>

theorem operands_equivalent:
  assumes "srcEA mode rg" "sz \<noteq> sizeZero" "memEA mode' rg'"
  shows "makeEARead mode rg sz = do { e \<leftarrow> resolveEA (ucast mode) (ucast rg) sz; ea_read e sz } \<and>
    makeEAMemAddr mode' rg' sz = do { e \<leftarrow> resolveEA (ucast mode') (ucast rg') sz; return (ea_address e) }"
  by (rule conjI [OF makeEARead_eq [OF assms(1,2)] makeEAMemAddr_eq [OF assms(3)]])

theorem operands_equivalent_witness:
  "(makeEARead 3 7 sizeByte :: (unit, u32) cpuM) = do { e \<leftarrow> resolveEA 3 7 sizeByte; ea_read e sizeByte } \<and>
   (makeEAMemAddr 4 7 sizeByte :: (unit, u32) cpuM) =
     do { e \<leftarrow> resolveEA 4 7 sizeByte; return (ea_address e) }"
  using operands_equivalent [of 3 7 sizeByte 4 7] by (simp add: srcEA_def memEA_def)

end
