(* ===== verification/Spec_Alu.thy ===== *)
theory Spec_Alu
  imports M68k_Alu M68k_Operand M68k_Safety
begin

text \<open>
  ADD, SUB, CMP, AND and OR with a data register as destination, against one specification: the
  operand is read, the number computed and stored in the low part of the register, the condition
  codes follow from the numbers, and the time is the one of the timing tables.
\<close>

subsection \<open>Specification\<close>

datatype aluOp = AluAdd | AluSub | AluCmp | AluAnd | AluOr

text \<open>The new value of the low part of the destination, as a number of the operand's width.\<close>

definition aluValue :: "aluOp \<Rightarrow> msize \<Rightarrow> u32 \<Rightarrow> u32 \<Rightarrow> int" where
  "aluValue k sz s d = (case k of
       AluAdd \<Rightarrow> (uval sz d + uval sz s) mod 2 ^ width sz
     | AluSub \<Rightarrow> (uval sz d - uval sz s) mod 2 ^ width sz
     | AluCmp \<Rightarrow> uval sz d
     | AluAnd \<Rightarrow> uval sz d AND uval sz s
     | AluOr \<Rightarrow> uval sz d OR uval sz s)"

definition aluCCR :: "aluOp \<Rightarrow> msize \<Rightarrow> u32 \<Rightarrow> u32 \<Rightarrow> u16 \<Rightarrow> u16" where
  "aluCCR k sz s d sr = (case k of
       AluAdd \<Rightarrow> addCCR sz s d 0 sr
     | AluSub \<Rightarrow> subCCR sz s d 0 sr
     | AluCmp \<Rightarrow> cmpCCR sz s d sr
     | _ \<Rightarrow> logicCCR sz (word_of_int (aluValue k sz s d)) sr)"

text \<open>A register whose low part is replaced by a number of the given width.\<close>

definition setLow :: "msize \<Rightarrow> u32 \<Rightarrow> int \<Rightarrow> u32" where
  "setLow sz old k = word_of_int (uint old - uval sz old + k)"

definition aluTime :: "aluOp \<Rightarrow> msize \<Rightarrow> u16 \<Rightarrow> u16 \<Rightarrow> u64" where
  "aluTime k sz mode rg =
    (if sz \<noteq> sizeLong then 4
     else if k = AluCmp \<or> (mode \<ge> 2 \<and> \<not> (mode = 7 \<and> rg = 4)) then 6
     else 8) + eaFetchCycles (ucast mode) (ucast rg) sz"

definition aluHandler :: "aluOp \<Rightarrow> u16 \<Rightarrow> u16 \<Rightarrow> u16 \<Rightarrow> 'b opFunc" where
  "aluHandler k = (case k of AluAdd \<Rightarrow> makeADDtoReg | AluSub \<Rightarrow> makeSUBtoReg | AluCmp \<Rightarrow> makeCMP
     | AluAnd \<Rightarrow> makeANDtoReg | AluOr \<Rightarrow> makeORtoReg)"

subsection \<open>Operands read are within their width\<close>

definition masked :: "u32 \<Rightarrow> ('b, u32) cpuM \<Rightarrow> bool" where
  "masked M m \<longleftrightarrow> (\<forall>c. fst (run_state m c) AND M = fst (run_state m c))"

lemma maskedD: "masked M m \<Longrightarrow> run_state m c = (v, c') \<Longrightarrow> v AND M = v"
  unfolding masked_def by (metis fst_conv)

lemma masked_bind: "(\<And>x. masked M (f x)) \<Longrightarrow> masked M (m \<bind> f)"
  by (simp add: masked_def split_def)

lemma masked_return: "v AND M = v \<Longrightarrow> masked M (return v)"
  by (simp add: masked_def)

lemma masked_if: "(b \<Longrightarrow> masked M m) \<Longrightarrow> (\<not> b \<Longrightarrow> masked M n) \<Longrightarrow> masked M (if b then m else n)"
  by simp

lemma ucast_masked:
  "(ucast (v :: u8) :: u32) AND 0xFF = ucast v" "(ucast (w :: u16) :: u32) AND 0xFFFF = ucast w"
  "(y :: u32) AND 0xFFFFFFFF = y" "(y AND M) AND M = (y :: u32) AND M"
  by (auto simp: bits32 and.assoc dest: bit_imp_le_length)

lemma masked_readBus: "masked (Mask sz) (readBus sz a)"
  unfolding readBus_def Let_def
  by (cases sz) (auto simp: ucast_masked masked_def split_def)

lemmas masked_intros = masked_bind masked_if masked_return masked_readBus

lemma masked_makeEARead: "masked (Mask sz) (makeEARead mode rg sz)"
  unfolding makeEARead_def Let_def goPanic_def if_distribR
  by (intro masked_intros; simp add: ucast_masked masked_def)

lemma operand_ready:
  assumes "wf_cpu c" "dn < (8 :: u16)" "srcEA mode rg" "run_state (makeEARead mode rg sz) c = (s, c1)"
  shows "unat dn < length (regD (reg c1))" "s AND Mask sz = s"
proof -
  have "wf_cpu c1"
    using keeps_wf.io_makeEARead [OF assms(3), of sz] assms(1,4)
    by (auto simp: keeps_wf_def dest: state_io_relD)
  then show "unat dn < length (regD (reg c1))"
    using assms(2) by (simp add: wf_cpu_def word_less_nat_alt)
  show "s AND Mask sz = s"
    using masked_makeEARead assms(4) by (rule maskedD)
qed

subsection \<open>The pieces of the handlers\<close>

lemma masked_code: "x AND Mask sz = word_of_int (uval sz x)"
  by (simp add: uval_def and_Mask_eq_take_bit of_int_take_bit)

lemma setLow_code: "(old AND NOT (Mask sz)) OR (r AND Mask sz) = setLow sz old (uval sz r)"
proof -
  have "(old AND NOT (Mask sz)) + (old AND Mask sz) = (old AND NOT (Mask sz)) OR (old AND Mask sz)"
    by (rule disjunctive_add) (simp add: bit_simps)
  also have "\<dots> = old" by (auto simp: bit_eq_iff bit_simps)
  finally have high: "old AND NOT (Mask sz) = old - word_of_int (uval sz old)"
    by (simp add: masked_code eq_diff_eq)
  have "(old AND NOT (Mask sz)) OR (r AND Mask sz) = (old AND NOT (Mask sz)) + (r AND Mask sz)"
    by (rule disjunctive_add [symmetric]) (simp add: bit_simps)
  then show ?thesis by (simp only: masked_code high setLow_def of_int_add of_int_diff word_of_int_uint)
qed

lemma sval_and_Mask [simp]: "sz \<noteq> sizeZero \<Longrightarrow> sval sz (x AND Mask sz) = sval sz x"
  by (simp add: sval_uval)

lemma CCR_and_Mask [simp]:
  "sz \<noteq> sizeZero \<Longrightarrow> addCCR sz s (d AND Mask sz) k sr = addCCR sz s d k sr"
  "sz \<noteq> sizeZero \<Longrightarrow> subCCR sz s (d AND Mask sz) k sr = subCCR sz s d k sr"
  "sz \<noteq> sizeZero \<Longrightarrow> cmpCCR sz s (d AND Mask sz) sr = cmpCCR sz s d sr"
  by (simp_all add: addCCR_def subCCR_def cmpCCR_def)

lemma run_setFlags:
  assumes "sz \<noteq> sizeZero" "s AND Mask sz = s"
  shows "run_state (setFlagsAdd s (d AND Mask sz) (s + (d AND Mask sz)) sz) c =
      ((), c\<lparr>reg := (reg c)\<lparr>regSR := addCCR sz s d 0 (regSR (reg c))\<rparr>\<rparr>)"
    and "run_state (setFlagsSub s (d AND Mask sz) ((d AND Mask sz) - s) sz) c =
      ((), c\<lparr>reg := (reg c)\<lparr>regSR := subCCR sz s d 0 (regSR (reg c))\<rparr>\<rparr>)"
    and "run_state (setFlagsCmp s (d AND Mask sz) ((d AND Mask sz) - s) sz) c =
      ((), c\<lparr>reg := (reg c)\<lparr>regSR := cmpCCR sz s d (regSR (reg c))\<rparr>\<rparr>)"
  using setFlagsAdd_run [OF assms, of "d AND Mask sz" 0 c] setFlagsSub_run [OF assms(1), of 0 s "d AND Mask sz" c]
    setFlagsCmp_run [OF assms(1), of s "d AND Mask sz" c] by (simp_all add: and.assoc assms(1))

lemma run_storeD:
  "i < length (regD (reg c)) \<Longrightarrow> run_state (storeD i sz r) c =
     ((), c\<lparr>reg := (reg c)\<lparr>regD := (regD (reg c))[i := setLow sz (regD (reg c) ! i) (uval sz r)]\<rparr>\<rparr>)"
  by (simp add: storeD_def Let_def setLow_code)

lemma aluValue_code:
  "uval sz (s + (d AND Mask sz)) = aluValue AluAdd sz s d"
  "uval sz ((d AND Mask sz) - s) = aluValue AluSub sz s d"
  "uval sz (s AND (d AND Mask sz)) = aluValue AluAnd sz s d"
  "uval sz (s OR (d AND Mask sz)) = aluValue AluOr sz s d"
proof -
  show "uval sz (s + (d AND Mask sz)) = aluValue AluAdd sz s d"
    by (simp add: aluValue_def uval_add take_bit_mod_width add.commute)
  show "uval sz ((d AND Mask sz) - s) = aluValue AluSub sz s d"
    by (simp add: aluValue_def uval_diff take_bit_mod_width)
  show "uval sz (s AND (d AND Mask sz)) = aluValue AluAnd sz s d"
    by (simp add: aluValue_def uval_def and_Mask_eq_take_bit unsigned_and_eq unsigned_take_bit_eq and.commute)
  show "uval sz (s OR (d AND Mask sz)) = aluValue AluOr sz s d"
    by (simp add: aluValue_def uval_def and_Mask_eq_take_bit unsigned_or_eq unsigned_take_bit_eq or.commute)
qed

lemma uval_of_uval: "uval sz (word_of_int (uval sz r)) = uval sz r"
  using width_le_32 [of sz] by (simp add: uval_def unsigned_of_int min_absorb1)

lemma logicCCR_uval: "sz \<noteq> sizeZero \<Longrightarrow> logicCCR sz (word_of_int (uval sz r)) sr = logicCCR sz r sr"
  by (simp add: logicCCR_def uval_of_uval sval_uval)

lemma aluCCR_code:
  assumes "sz \<noteq> sizeZero"
  shows "logicCCR sz (s AND (d AND Mask sz)) sr = aluCCR AluAnd sz s d sr"
    and "logicCCR sz (s OR (d AND Mask sz)) sr = aluCCR AluOr sz s d sr"
    and "addCCR sz s d 0 sr = aluCCR AluAdd sz s d sr"
    and "subCCR sz s d 0 sr = aluCCR AluSub sz s d sr"
    and "cmpCCR sz s d sr = aluCCR AluCmp sz s d sr"
  unfolding aluCCR_def aluOp.case aluValue_code [symmetric] logicCCR_uval [OF assms] by (rule refl)+

lemma setLow_same: "setLow sz d (uval sz d) = d"
  by (simp add: setLow_def)


lemma addCycles_if: "(if b then addCycles m else addCycles n) = addCycles (if b then m else n)"
  by simp

lemma aluTime_code:
  assumes "srcEA mode rg"
  shows "k \<noteq> AluCmp \<Longrightarrow> aluTime k sz mode rg =
      (if sz \<noteq> sizeLong then 4 + fst (eaFetchConst mode rg)
       else if 2 \<le> mode \<and> \<not> (mode = 7 \<and> rg = 4) then 6 + fst (eaFetchConst mode rg) + snd (eaFetchConst mode rg)
       else 8 + fst (eaFetchConst mode rg) + snd (eaFetchConst mode rg))"
    and "aluTime AluCmp sz mode rg =
      (if sz = sizeLong then 6 + fst (eaFetchConst mode rg) + snd (eaFetchConst mode rg)
       else 4 + fst (eaFetchConst mode rg))"
proof -
  have mr: "mode < 8" "rg < 8" using assms by (simp_all add: srcEA_def)
  show "k \<noteq> AluCmp \<Longrightarrow> aluTime k sz mode rg =
      (if sz \<noteq> sizeLong then 4 + fst (eaFetchConst mode rg)
       else if 2 \<le> mode \<and> \<not> (mode = 7 \<and> rg = 4) then 6 + fst (eaFetchConst mode rg) + snd (eaFetchConst mode rg)
       else 8 + fst (eaFetchConst mode rg) + snd (eaFetchConst mode rg))"
    unfolding aluTime_def eaFetchCycles_Const [OF mr]
    by (cases "sz = sizeLong"; cases "2 \<le> mode \<and> \<not> (mode = 7 \<and> rg = 4)"; simp only: if_True if_False simp_thms add.assoc)
  show "aluTime AluCmp sz mode rg =
      (if sz = sizeLong then 6 + fst (eaFetchConst mode rg) + snd (eaFetchConst mode rg)
       else 4 + fst (eaFetchConst mode rg))"
    unfolding aluTime_def eaFetchCycles_Const [OF mr]
    by (cases "sz = sizeLong"; cases "2 \<le> mode \<and> \<not> (mode = 7 \<and> rg = 4)"; simp only: if_True if_False simp_thms add.assoc)
qed

lemma alu_register:
  assumes "wf_cpu c" "dn < 8" "srcEA mode rg"
    and "sz = sizeEncoding (drop_bit 6 (ir c) AND 3)" "sz \<noteq> sizeZero"
    and "run_state (makeEARead mode rg sz) c = (s, c1)"
  shows "run_state (aluHandler k dn mode rg) c =
    (let d = regD (reg c1) ! unat dn
     in ((), c1\<lparr>reg := (reg c1)\<lparr>regSR := aluCCR k sz s d (regSR (reg c1)),
                               regD := (regD (reg c1))[unat dn := setLow sz d (aluValue k sz s d)]\<rparr>,
               cycles := cycles c1 + aluTime k sz mode rg\<rparr>))"
proof -
  note dn = operand_ready(1) [OF assms(1-3,6)] and s = operand_ready(2) [OF assms(1-3,6)]
  note run = assms(4) [symmetric] assms(6) dn run_setFlags [OF assms(5) s] setFlagsLogical_run [OF assms(5)]
    run_storeD aluValue_code aluCCR_code [OF assms(5)] aluTime_code [OF assms(3)]
  note unfold = aluHandler_def Let_def split_def
  show ?thesis
  proof (cases k)
    case AluAdd
    then show ?thesis unfolding unfold makeADDtoReg_def addCycles_if
      by (simp add: run del: Mask_simps split del: if_split)
  next
    case AluSub
    then show ?thesis unfolding unfold makeSUBtoReg_def addCycles_if
      by (simp add: run del: Mask_simps split del: if_split)
  next
    case AluCmp
    then show ?thesis unfolding unfold makeCMP_def addCycles_if
      by (simp add: run aluValue_def setLow_same del: Mask_simps split del: if_split)
  next
    case AluAnd
    then show ?thesis unfolding unfold makeANDtoReg_def addCycles_if
      by (simp add: run del: Mask_simps split del: if_split)
  next
    case AluOr
    then show ?thesis unfolding unfold makeORtoReg_def addCycles_if
      by (simp add: run del: Mask_simps split del: if_split)
  qed
qed

subsection \<open>Properties\<close>

text \<open>
  C22. ADD, SUB, CMP, AND and OR from any source operand to a data register do what the
  specification says: after the operand has been read, the low part of the register holds the
  sum, difference, conjunction or disjunction as a number of the operand's width (CMP leaves
  it), the rest of the register is kept, the condition codes are those of the integer
  operation, the cycle counter advances by the tabulated time, and nothing else changes.
\<close>

theorem alu_to_register:
  assumes "wf_cpu c" "dn < 8" "srcEA mode rg"
    and "sz = sizeEncoding (drop_bit 6 (ir c) AND 3)" "sz \<noteq> sizeZero"
    and "run_state (makeEARead mode rg sz) c = (s, c1)"
  shows "run_state (aluHandler k dn mode rg) c =
    (let d = regD (reg c1) ! unat dn
     in ((), c1\<lparr>reg := (reg c1)\<lparr>regSR := aluCCR k sz s d (regSR (reg c1)),
                               regD := (regD (reg c1))[unat dn := setLow sz d (aluValue k sz s d)]\<rparr>,
               cycles := cycles c1 + aluTime k sz mode rg\<rparr>))"
  by (rule alu_register [OF assms])

theorem alu_to_register_witness:
  "let c = (zeroCPU testBus (\<lambda>_. 0))\<lparr>ir := 0xD041, reg := zeroRegisters\<lparr>regD := [0x7FFFF, 1, 0, 0, 0, 0, 0, 0]\<rparr>\<rparr>;
       c' = snd (run_state (aluHandler AluAdd 0 0 1) c)
   in regD (reg c') ! 0 = 0x70000 \<and> regSR (reg c') = 0x15 \<and> cycles c' = 4"
proof -
  define c where "c = (zeroCPU testBus (\<lambda>_. 0))\<lparr>ir := 0xD041,
    reg := zeroRegisters\<lparr>regD := [0x7FFFF, 1, 0, 0, 0, 0, 0, 0]\<rparr>\<rparr>"
  have c: "wf_cpu c" "ir c = 0xD041" "regD (reg c) = [0x7FFFF, 1, 0, 0, 0, 0, 0, 0]" "regSR (reg c) = 0" "cycles c = 0"
    by (simp_all add: c_def wf_cpu_def zeroCPU_def zeroRegisters_def)
  have "run_state (makeEARead 0 1 sizeWord) c = (1, c)"
    by (simp add: makeEARead_def c(3))
  from alu_to_register [OF c(1) _ _ _ _ this, of 0 AluAdd]
  show ?thesis unfolding c_def [symmetric]
    by (simp add: c srcEA_def sizeEncoding_def aluTime_def eaFetchCycles_def setLow_def aluValue_def uval_def
      aluCCR_def addCCR_def withCCR_def fits_def sval_def)
qed

end
