(* ===== verification/Spec_MulDiv.thy ===== *)
theory Spec_MulDiv
  imports Spec_Alu
begin

text \<open>
  Multiplication and division. MULU and MULS give the exact product of the two 16-bit operands,
  DIVU and DIVS the quotient and remainder that the division of numbers gives; a quotient that
  does not fit is reported without touching the register, and division by zero is an exception.
\<close>

subsection \<open>Operands\<close>

lemma uint_eq_uval: "s AND Mask sz = s \<Longrightarrow> uint s = uval sz s"
  by (metis uval_def and_Mask_eq_take_bit unsigned_take_bit_eq)

lemma low_word [simp]:
  "uval sizeWord (d AND 0xFFFF) = uval sizeWord d" "sval sizeWord (d AND 0xFFFF) = sval sizeWord d"
  using uval_and_Mask [of sizeWord d] sval_and_Mask [of sizeWord d] by simp_all

lemma sint_low_word: "sint (ucast (s :: u32) :: u16) = sval sizeWord s"
  by (simp add: sint_uint sval_def unsigned_ucast_eq signed_take_bit_take_bit)

lemma sint_scast_word: "sint (scast (ucast (s :: u32) :: u16) :: u32) = sval sizeWord s"
proof -
  have "signed_take_bit 31 (sint (ucast s :: u16)) = sint (ucast s :: u16)"
    using sint_ge [of "ucast s :: u16"] sint_lt [of "ucast s :: u16"]
    by (intro signed_take_bit_int_eq_self) auto
  then show ?thesis by (simp add: signed_scast_eq sint_low_word)
qed

lemma uval_word_less: "uval sizeWord s < 65536" "0 \<le> uval sizeWord s"
  using uval_bounds [of sizeWord s] by simp_all

lemma sval_word_bounds: "- 32768 \<le> sval sizeWord s" "sval sizeWord s \<le> 32767"
  using sval_bounds [of sizeWord s] by simp_all

lemma uint_mulu:
  assumes "s AND Mask sizeWord = s"
  shows "uint (s * (d AND 0xFFFF)) = uval sizeWord s * uval sizeWord d"
proof -
  have "uint (d AND 0xFFFF) = uval sizeWord d"
    using uint_eq_uval [of "d AND Mask sizeWord" sizeWord] by (simp add: and.assoc)
  moreover have "uval sizeWord s * uval sizeWord d \<le> 65535 * 65535"
    using uval_word_less [of s] uval_word_less [of d] by (intro mult_mono) simp_all
  ultimately show ?thesis
    using uint_eq_uval [OF assms] uval_word_less [of s] uval_word_less [of d]
    by (simp add: uint_word_arith_bintrs take_bit_eq_mod mod_pos_pos_trivial)
qed

lemma sint_muls:
  "sint ((scast (ucast s :: u16) :: u32) * scast (ucast (d AND 0xFFFF :: u32) :: u16)) =
     sval sizeWord s * sval sizeWord d"
proof -
  have "\<bar>sval sizeWord s * sval sizeWord d\<bar> \<le> 32768 * 32768"
    unfolding abs_mult using sval_word_bounds [of s] sval_word_bounds [of d] by (intro mult_mono) auto
  then have "signed_take_bit 31 (sval sizeWord s * sval sizeWord d) = sval sizeWord s * sval sizeWord d"
    by (intro signed_take_bit_int_eq_self) auto
  then show ?thesis by (simp add: sint_word_ariths sint_scast_word)
qed


subsection \<open>Running the handlers\<close>

lemma eaFetchCycles_word:
  assumes "srcEA mode rg"
  shows "eaFetchCycles (ucast mode) (ucast rg) sizeWord = fst (eaFetchConst mode rg)"
  using assms by (simp add: srcEA_def eaFetchCycles_Const)

lemma MUL_run:
  assumes "wf_cpu c" "dn < 8" "srcEA mode rg" "run_state (makeEARead mode rg sizeWord) c = (s, c1)"
  defines "d \<equiv> regD (reg c1) ! unat dn" and "t \<equiv> 70 + eaFetchCycles (ucast mode) (ucast rg) sizeWord"
  shows "\<exists>u v. uint u = uval sizeWord s * uval sizeWord d \<and> sint v = sval sizeWord s * sval sizeWord d \<and>
    run_state (makeMULU dn mode rg) c = ((), c1\<lparr>reg := (reg c1)\<lparr>regD := (regD (reg c1))[unat dn := u],
       regSR := logicCCR sizeLong u (regSR (reg c1))\<rparr>, cycles := cycles c1 + t\<rparr>) \<and>
    run_state (makeMULS dn mode rg) c = ((), c1\<lparr>reg := (reg c1)\<lparr>regD := (regD (reg c1))[unat dn := v],
       regSR := logicCCR sizeLong v (regSR (reg c1))\<rparr>, cycles := cycles c1 + t\<rparr>)"
proof (intro exI conjI)
  note ready = operand_ready [OF assms(1-4)]
  show "uint (s * (d AND 0xFFFF)) = uval sizeWord s * uval sizeWord d"
    by (rule uint_mulu) (rule ready)
  show "sint ((scast (ucast s :: u16) :: u32) * scast (ucast (d AND 0xFFFF :: u32) :: u16)) =
     sval sizeWord s * sval sizeWord d"
    by (rule sint_muls)
qed (simp_all add: makeMULU_def makeMULS_def Let_def split_def assms(4) operand_ready [OF assms(1-4)]
      setFlagsLogical_run t_def d_def eaFetchCycles_word [OF assms(3)] add.assoc)


lemma pack_words:
  "push_bit 16 (a AND 0xFFFF) OR (b AND 0xFFFF) = (word_of_int (uval sizeWord a * 65536 + uval sizeWord b) :: u32)"
proof -
  have FFFF: "(0xFFFF :: u32) = mask 16" by (simp add: mask_eq_exp_minus_1)
  have low: "x AND 0xFFFF = word_of_int (uval sizeWord x)" for x :: u32
    using and_Mask_eq_take_bit [of x sizeWord] by (simp add: uval_def of_int_take_bit)
  have "push_bit 16 (a AND 0xFFFF) OR (b AND 0xFFFF) = push_bit 16 (a AND 0xFFFF) + (b AND 0xFFFF)"
    by (rule disjunctive_add [symmetric]) (auto simp: FFFF bit_simps)
  then show ?thesis
    by (simp add: low push_bit_eq_mult)
qed

lemmas pack_words_simp = pack_words [simplified]

lemma DIVU_run:
  assumes "wf_cpu c" "dn < 8" "srcEA mode rg" "run_state (makeEARead mode rg sizeWord) c = (s, c1)"
  defines "d \<equiv> regD (reg c1) ! unat dn" and "t \<equiv> 140 + eaFetchCycles (ucast mode) (ucast rg) sizeWord"
  shows "run_state (makeDIVU dn mode rg) c =
    (if uval sizeWord s = 0 then run_state (exception vecDivideByZero) c1
     else
       (let q = uint d div uval sizeWord s; r = uint d mod uval sizeWord s
        in if q < 65536
           then ((), c1\<lparr>reg := (reg c1)\<lparr>regD := (regD (reg c1))[unat dn := word_of_int (r * 65536 + q)],
                   regSR := logicCCR sizeWord (word_of_int q) (regSR (reg c1))\<rparr>, cycles := cycles c1 + t\<rparr>)
           else ((), c1\<lparr>reg := (reg c1)\<lparr>regSR := (regSR (reg c1) OR (flagV OR flagN)) AND NOT (flagC OR flagZ)\<rparr>,
                   cycles := cycles c1 + t\<rparr>)))"
proof -
  note ready = operand_ready [OF assms(1-4)]
  have s: "uint s = uval sizeWord s" by (rule uint_eq_uval) (rule ready)
  have zero: "s = 0 \<longleftrightarrow> uval sizeWord s = 0" by (simp add: s [symmetric] uint_0_iff)
  have big: "0xFFFF < d div s \<longleftrightarrow> \<not> uint d div uval sizeWord s < 65536"
    by (simp add: word_less_def uint_div s) linarith
  have quot: "word_of_int (uint d div uval sizeWord s) = d div s"
    by (simp add: word_div_def s)
  have small: "uval sizeWord (d div s) = uint d div uval sizeWord s" if "uint d div uval sizeWord s < 65536"
    using that uval_word_less [of s] by (simp add: uval_def [of _ "d div s"] uint_div s take_bit_int_eq_self_iff div_int_pos_iff)
  have rem: "uval sizeWord (d mod s) = uint d mod uval sizeWord s" if "uval sizeWord s \<noteq> 0"
  proof -
    have "uint d mod uval sizeWord s < uval sizeWord s"
      using that uval_word_less(2) [of s] by (intro pos_mod_bound) linarith
    then have "uint d mod uval sizeWord s < 65536" using uval_word_less(1) [of s] by linarith
    then show ?thesis using that uval_word_less(2) [of s]
      by (simp add: uval_def [of _ "d mod s"] uint_mod s take_bit_int_eq_self_iff)
  qed
  note code = makeDIVU_def Let_def split_def assms(4) ready setFlagsLogical_run t_def
    eaFetchCycles_word [OF assms(3)] add.assoc
  show ?thesis
  proof (cases "s = 0")
    case False
    then show ?thesis
      using big small rem zero by (simp add: code flip: d_def) (simp add: pack_words_simp quot)
  qed (simp add: code zero)
qed


lemma sdiv_smod_bounds:
  fixes a b :: int
  assumes "b \<noteq> 0"
  shows "\<bar>a sdiv b\<bar> \<le> \<bar>a\<bar>" "\<bar>a smod b\<bar> < \<bar>b\<bar>"
proof -
  have "\<bar>a sdiv b\<bar> = \<bar>a\<bar> div \<bar>b\<bar>"
    using assms by (simp add: signed_divide_int_def abs_mult abs_sgn_eq abs_of_nonneg div_int_pos_iff) (cases "a = 0"; simp)
  also have "\<dots> \<le> \<bar>a\<bar>"
    using assms zdiv_mono2 [of "\<bar>a\<bar>" 1 "\<bar>b\<bar>"] by simp
  finally show "\<bar>a sdiv b\<bar> \<le> \<bar>a\<bar>" .
  show "\<bar>a smod b\<bar> < \<bar>b\<bar>"
    using assms by (simp add: signed_modulo_int_def abs_mult abs_sgn_eq)
qed

lemma DIVS_run:
  assumes "wf_cpu c" "dn < 8" "srcEA mode rg" "run_state (makeEARead mode rg sizeWord) c = (s, c1)"
  defines "d \<equiv> regD (reg c1) ! unat dn" and "t \<equiv> 158 + eaFetchCycles (ucast mode) (ucast rg) sizeWord"
  shows "run_state (makeDIVS dn mode rg) c =
    (if sval sizeWord s = 0 then run_state (exception vecDivideByZero) c1
     else
       (let q = sgn (sint d) * sgn (sval sizeWord s) * (\<bar>sint d\<bar> div \<bar>sval sizeWord s\<bar>);
            r = sgn (sint d) * (\<bar>sint d\<bar> mod \<bar>sval sizeWord s\<bar>)
        in if fits sizeWord q
           then ((), c1\<lparr>reg := (reg c1)\<lparr>regD := (regD (reg c1))[unat dn := word_of_int (take_bit 16 r * 65536 + take_bit 16 q)],
                   regSR := logicCCR sizeWord (word_of_int q) (regSR (reg c1))\<rparr>, cycles := cycles c1 + t\<rparr>)
           else ((), c1\<lparr>reg := (reg c1)\<lparr>regSR := (regSR (reg c1) OR (flagV OR flagN)) AND NOT (flagC OR flagZ)\<rparr>,
                   cycles := cycles c1 + t\<rparr>)))"
  unfolding signed_divide_int_def [symmetric] signed_modulo_int_def [symmetric]
proof -
  note ready = operand_ready [OF assms(1-4)]
  define dvs :: u32 where "dvs = scast (ucast s :: u16)"
  define q where "q = sint d sdiv sval sizeWord s"
  have dvs: "sint dvs = sval sizeWord s" unfolding dvs_def by (rule sint_scast_word)
  have zero: "dvs = 0 \<longleftrightarrow> sval sizeWord s = 0" unfolding dvs [symmetric] by (metis signed_0 signed_word_eqI)
  have quot: "int32_quot d dvs = word_of_int q" and rem: "int32_rem d dvs = word_of_int (sint d smod sval sizeWord s)"
    by (simp_all add: int32_quot_def int32_rem_def dvs q_def)
  have wrap: "sint (word_of_int q :: u32) > 32767 \<or> sint (word_of_int q :: u32) < - 32768 \<longleftrightarrow> \<not> fits sizeWord q"
    if "sval sizeWord s \<noteq> 0"
  proof -
    have "\<bar>q\<bar> \<le> 2 ^ 31"
      using sdiv_smod_bounds(1) [OF that, of "sint d"] sint_ge [of d] sint_lt [of d] by (simp add: q_def)
    then have "q = 2 ^ 31 \<or> signed_take_bit 31 q = q"
      by (auto simp: signed_take_bit_int_eq_self_iff)
    then show ?thesis by (auto simp: signed_of_int fits_def)
  qed
  have val: "uval sizeWord (word_of_int k) = take_bit 16 k" for k
    by (simp add: uval_def unsigned_of_int)
  note code = makeDIVS_def Let_def split_def assms(4) ready setFlagsLogical_run t_def
    eaFetchCycles_word [OF assms(3)] add.assoc
  show "run_state (makeDIVS dn mode rg) c =
    (if sval sizeWord s = 0 then run_state (exception vecDivideByZero) c1
     else
       (let q = sint d sdiv sval sizeWord s; r = sint d smod sval sizeWord s
        in if fits sizeWord q
           then ((), c1\<lparr>reg := (reg c1)\<lparr>regD := (regD (reg c1))[unat dn := word_of_int (take_bit 16 r * 65536 + take_bit 16 q)],
                   regSR := logicCCR sizeWord (word_of_int q) (regSR (reg c1))\<rparr>, cycles := cycles c1 + t\<rparr>)
           else ((), c1\<lparr>reg := (reg c1)\<lparr>regSR := (regSR (reg c1) OR (flagV OR flagN)) AND NOT (flagC OR flagZ)\<rparr>,
                   cycles := cycles c1 + t\<rparr>)))"
  proof (cases "dvs = 0")
    case False
    then show ?thesis
      using wrap zero by (simp add: code quot rem flip: dvs_def d_def q_def) (simp add: pack_words_simp val q_def)
  qed (simp add: code zero flip: dvs_def)
qed


subsection \<open>Properties\<close>

text \<open>
  C37. MULU and MULS give the exact product: the destination register, read as an unsigned number
  after MULU and as a signed number after MULS, is the product of the two 16-bit operands read
  the same way. The condition codes are those of the 32-bit result; nothing else changes but the
  cycle counter.
\<close>

theorem MUL_exact:
  assumes "wf_cpu c" "dn < 8" "srcEA mode rg" "run_state (makeEARead mode rg sizeWord) c = (s, c1)"
  shows "let d = regD (reg c1) ! unat dn; t = 70 + eaFetchCycles (ucast mode) (ucast rg) sizeWord
    in \<exists>u v. uint u = uval sizeWord s * uval sizeWord d \<and> sint v = sval sizeWord s * sval sizeWord d \<and>
    run_state (makeMULU dn mode rg) c = ((), c1\<lparr>reg := (reg c1)\<lparr>regD := (regD (reg c1))[unat dn := u],
       regSR := logicCCR sizeLong u (regSR (reg c1))\<rparr>, cycles := cycles c1 + t\<rparr>) \<and>
    run_state (makeMULS dn mode rg) c = ((), c1\<lparr>reg := (reg c1)\<lparr>regD := (regD (reg c1))[unat dn := v],
       regSR := logicCCR sizeLong v (regSR (reg c1))\<rparr>, cycles := cycles c1 + t\<rparr>)"
  unfolding Let_def by (rule MUL_run [OF assms])

text \<open>The state of the witnesses: D0 and D1 are given, everything else is zero.\<close>

definition exampleCPU :: "u32 \<Rightarrow> u32 \<Rightarrow> testMem CPU" where
  "exampleCPU d0 d1 = (zeroCPU testBus (\<lambda>_. 0))\<lparr>reg := zeroRegisters\<lparr>regD := [d0, d1, 0, 0, 0, 0, 0, 0]\<rparr>\<rparr>"

lemma exampleCPU_simps [simp]:
  "wf_cpu (exampleCPU d0 d1)" "regD (reg (exampleCPU d0 d1)) = [d0, d1, 0, 0, 0, 0, 0, 0]"
  "run_state (makeEARead 0 1 sizeWord) (exampleCPU d0 d1) = (d1 AND 0xFFFF, exampleCPU d0 d1)"
  by (simp_all add: exampleCPU_def wf_cpu_def zeroCPU_def zeroRegisters_def makeEARead_def)

theorem MUL_exact_witness:
  "uint (regD (reg (snd (run_state (makeMULU 0 0 1) (exampleCPU 0xFFFF 0xFFFF)))) ! 0) = 65535 * 65535 \<and>
   sint (regD (reg (snd (run_state (makeMULS 0 0 1) (exampleCPU 0xFFFF 0xFFFF)))) ! 0) = 1"
  using MUL_exact [of "exampleCPU 0xFFFF 0xFFFF" 0 0 1]
  by (auto simp: srcEA_def uval_def sval_def Let_def)

lemma DIVU_spec:
  assumes "wf_cpu c" "dn < 8" "srcEA mode rg" "run_state (makeEARead mode rg sizeWord) c = (s, c1)"
  shows "let d = regD (reg c1) ! unat dn; t = 140 + eaFetchCycles (ucast mode) (ucast rg) sizeWord
    in run_state (makeDIVU dn mode rg) c =
    (if uval sizeWord s = 0 then run_state (exception vecDivideByZero) c1
     else
       (let q = uint d div uval sizeWord s; r = uint d mod uval sizeWord s
        in if q < 65536
           then ((), c1\<lparr>reg := (reg c1)\<lparr>regD := (regD (reg c1))[unat dn := word_of_int (r * 65536 + q)],
                   regSR := logicCCR sizeWord (word_of_int q) (regSR (reg c1))\<rparr>, cycles := cycles c1 + t\<rparr>)
           else ((), c1\<lparr>reg := (reg c1)\<lparr>regSR := (regSR (reg c1) OR (flagV OR flagN)) AND NOT (flagC OR flagZ)\<rparr>,
                   cycles := cycles c1 + t\<rparr>)))"
  using DIVU_run [OF assms] by (simp only: Let_def)

lemma DIVS_spec:
  assumes "wf_cpu c" "dn < 8" "srcEA mode rg" "run_state (makeEARead mode rg sizeWord) c = (s, c1)"
  shows "let d = regD (reg c1) ! unat dn; t = 158 + eaFetchCycles (ucast mode) (ucast rg) sizeWord
    in run_state (makeDIVS dn mode rg) c =
    (if sval sizeWord s = 0 then run_state (exception vecDivideByZero) c1
     else
       (let q = sgn (sint d) * sgn (sval sizeWord s) * (\<bar>sint d\<bar> div \<bar>sval sizeWord s\<bar>);
            r = sgn (sint d) * (\<bar>sint d\<bar> mod \<bar>sval sizeWord s\<bar>)
        in if fits sizeWord q
           then ((), c1\<lparr>reg := (reg c1)\<lparr>regD := (regD (reg c1))[unat dn := word_of_int (take_bit 16 r * 65536 + take_bit 16 q)],
                   regSR := logicCCR sizeWord (word_of_int q) (regSR (reg c1))\<rparr>, cycles := cycles c1 + t\<rparr>)
           else ((), c1\<lparr>reg := (reg c1)\<lparr>regSR := (regSR (reg c1) OR (flagV OR flagN)) AND NOT (flagC OR flagZ)\<rparr>,
                   cycles := cycles c1 + t\<rparr>)))"
  using DIVS_run [OF assms] by (simp only: Let_def)

text \<open>
  C38. DIVU and DIVS divide. With a divisor of zero they raise the zero-divide exception. Otherwise,
  if the quotient fits 16 bits, unsigned or signed, the register receives the remainder in its
  high and the quotient in its low word and the condition codes are those of the quotient; if not,
  also for the one signed quotient that does not fit 32 bits, the register is kept, overflow is set
  and carry cleared. DIVS truncates towards zero, and its remainder has the sign of the dividend.
\<close>

theorem division:
  assumes "wf_cpu c" "dn < 8" "srcEA mode rg" "run_state (makeEARead mode rg sizeWord) c = (s, c1)"
  shows "(let d = regD (reg c1) ! unat dn; t = 140 + eaFetchCycles (ucast mode) (ucast rg) sizeWord
    in run_state (makeDIVU dn mode rg) c =
    (if uval sizeWord s = 0 then run_state (exception vecDivideByZero) c1
     else
       (let q = uint d div uval sizeWord s; r = uint d mod uval sizeWord s
        in if q < 65536
           then ((), c1\<lparr>reg := (reg c1)\<lparr>regD := (regD (reg c1))[unat dn := word_of_int (r * 65536 + q)],
                   regSR := logicCCR sizeWord (word_of_int q) (regSR (reg c1))\<rparr>, cycles := cycles c1 + t\<rparr>)
           else ((), c1\<lparr>reg := (reg c1)\<lparr>regSR := (regSR (reg c1) OR (flagV OR flagN)) AND NOT (flagC OR flagZ)\<rparr>,
                   cycles := cycles c1 + t\<rparr>)))) \<and>
    (let d = regD (reg c1) ! unat dn; t = 158 + eaFetchCycles (ucast mode) (ucast rg) sizeWord
    in run_state (makeDIVS dn mode rg) c =
    (if sval sizeWord s = 0 then run_state (exception vecDivideByZero) c1
     else
       (let q = sgn (sint d) * sgn (sval sizeWord s) * (\<bar>sint d\<bar> div \<bar>sval sizeWord s\<bar>);
            r = sgn (sint d) * (\<bar>sint d\<bar> mod \<bar>sval sizeWord s\<bar>)
        in if fits sizeWord q
           then ((), c1\<lparr>reg := (reg c1)\<lparr>regD := (regD (reg c1))[unat dn := word_of_int (take_bit 16 r * 65536 + take_bit 16 q)],
                   regSR := logicCCR sizeWord (word_of_int q) (regSR (reg c1))\<rparr>, cycles := cycles c1 + t\<rparr>)
           else ((), c1\<lparr>reg := (reg c1)\<lparr>regSR := (regSR (reg c1) OR (flagV OR flagN)) AND NOT (flagC OR flagZ)\<rparr>,
                   cycles := cycles c1 + t\<rparr>))))"
  using DIVU_spec [OF assms] DIVS_spec [OF assms] by (rule conjI)

theorem division_witness:
  "regD (reg (snd (run_state (makeDIVU 0 0 1) (exampleCPU 100000 7)))) ! 0 = word_of_int (5 * 65536 + 14285) \<and>
   regD (reg (snd (run_state (makeDIVS 0 0 1) (exampleCPU (- 100000) 7)))) ! 0 =
     word_of_int (take_bit 16 (- 5) * 65536 + take_bit 16 (- 14285))"
  using division [of "exampleCPU 100000 7" 0 0 1] division [of "exampleCPU (- 100000) 7" 0 0 1]
  by (simp add: srcEA_def uval_def sval_def fits_def Let_def)

end
