(* ===== verification/Spec_Bcd.thy ===== *)
theory Spec_Bcd
  imports Ops_Bcd M68k_Alu M68k_Safety
begin

text \<open>
  Packed decimal arithmetic is decimal arithmetic: on two-digit operands ABCD gives the two-digit
  sum with the extend flag as carry in and out, SBCD and NBCD the two-digit difference with the
  extend flag as borrow in and out.
\<close>

subsection \<open>Specification\<close>

definition validBCD :: "u32 \<Rightarrow> bool" where
  "validBCD x \<longleftrightarrow> uint x div 16 \<le> 9 \<and> uint x mod 16 \<le> 9"

definition bcdVal :: "u32 \<Rightarrow> int" where
  "bcdVal x = 10 * (uint x div 16) + uint x mod 16"

text \<open>
  The zero flag is only ever cleared, so that it covers a whole multi-byte number. The processor
  manual leaves the negative and the overflow flag undefined.
\<close>

definition bcdFlags :: "bool \<Rightarrow> u32 \<Rightarrow> u16 \<Rightarrow> u16 \<Rightarrow> bool" where
  "bcdFlags carry r sr sr' \<longleftrightarrow> (\<exists>n v. sr' = withCCR carry n (sr AND flagZ \<noteq> 0 \<and> r = 0) v carry sr)"

subsection \<open>Digits\<close>

lemma digits:
  assumes "validBCD x"
  obtains h l where "x = word_of_int (16 * h + l)" "0 \<le> h" "h \<le> 9" "0 \<le> l" "l \<le> 9" "bcdVal x = 10 * h + l"
proof
  show "x = word_of_int (16 * (uint x div 16) + uint x mod 16)" by simp
qed (use assms in \<open>simp_all add: validBCD_def bcdVal_def div_int_pos_iff\<close>)

lemma word_digits:
  "(word_of_int k :: u32) AND 0xF = word_of_int (k mod 16)"
  "(word_of_int k :: u32) AND 0xFF = word_of_int (k mod 256)"
  using take_bit_eq_mask [of 4 "word_of_int k :: u32"] take_bit_eq_mask [of 8 "word_of_int k :: u32"]
  by (simp_all add: mask_eq_exp_minus_1 take_bit_of_int) (simp_all add: take_bit_eq_mod)

lemma drop_digit: "0 \<le> k \<Longrightarrow> k < 2 ^ 32 \<Longrightarrow> drop_bit 4 (word_of_int k :: u32) = word_of_int (k div 16)"
  by (simp add: drop_bit_eq_div word_div_def unsigned_of_int take_bit_int_eq_self)

lemma join_digits: "push_bit 4 a OR (b AND 0xF) = (16 * a + (b AND 0xF) :: u32)"
proof -
  have F: "(0xF :: u32) = mask 4" by (simp add: mask_eq_exp_minus_1)
  have "push_bit 4 a OR (b AND 0xF) = push_bit 4 a + (b AND 0xF)"
    by (rule disjunctive_add [symmetric]) (auto simp: F bit_simps)
  then show ?thesis by (simp add: push_bit_eq_mult mult.commute)
qed

lemma less_word_of_int:
  assumes "0 \<le> a" "a < 2 ^ 32" "0 \<le> b" "b < 2 ^ 32"
  shows "(word_of_int a :: u32) < word_of_int b \<longleftrightarrow> a < b"
  using assms by (simp add: word_less_def unsigned_of_int take_bit_int_eq_self)

subsection \<open>Addition\<close>

text \<open>The sum of two digits and a carry, corrected, and its decimal reading.\<close>

definition adjust :: "int \<Rightarrow> int" where
  "adjust k = (if k > 9 then k + 6 else k)"

lemma adjust_digit:
  assumes "0 \<le> t" "t \<le> 19"
  shows "adjust t mod 16 = t mod 10" "adjust t div 16 = t div 10"
proof -
  have "t \<in> set [0..19]" using assms by simp
  then have "adjust t mod 16 = t mod 10 \<and> adjust t div 16 = t div 10"
    by (simp add: upto_rec1) (elim disjE; simp add: adjust_def)
  then show "adjust t mod 16 = t mod 10" "adjust t div 16 = t div 10" by simp_all
qed

lemma byte_of_digits:
  assumes "0 \<le> l" "l < (16 :: int)"
  shows "(16 * h + l) mod 16 = l" "(16 * h + l) div 16 = h" "(16 * h + l) mod 256 = 16 * (h mod 16) + l"
proof -
  show *: "(16 * h + l) mod 16 = l" "(16 * h + l) div 16 = h" using assms by simp_all
  show "(16 * h + l) mod 256 = 16 * (h mod 16) + l"
    using zmod_zmult2_eq [of 16 "16 * h + l" 16] by (simp only: *) simp
qed

lemma if_adjust: "0 \<le> k \<Longrightarrow> k < 100 \<Longrightarrow>
  (if (word_of_int k :: u32) > 9 then word_of_int k + 6 else word_of_int k) = (word_of_int (adjust k) :: u32)"
  using less_word_of_int [of 9 k] by (simp add: adjust_def)

lemma two_digits:
  assumes "0 \<le> h" "h \<le> 9" "0 \<le> l" "l \<le> 9"
  shows "word_of_int (16 * h + l) AND 0xF = (word_of_int l :: u32)"
    "drop_bit 4 (word_of_int (16 * h + l)) AND 0xF = (word_of_int h :: u32)"
proof -
  have "(16 * h + l) mod 16 = l" "(16 * h + l) div 16 = h" "h mod 16 = h"
    using assms by (simp_all add: byte_of_digits)
  moreover have "0 \<le> 16 * h + l" "16 * h + l < 2 ^ 32" using assms by simp_all
  ultimately show "word_of_int (16 * h + l) AND 0xF = (word_of_int l :: u32)"
    "drop_bit 4 (word_of_int (16 * h + l)) AND 0xF = (word_of_int h :: u32)"
    using drop_digit [of "16 * h + l"] word_digits(1) by metis+
qed

text \<open>The binary computation of \<open>bcdAdd\<close>, on digits.\<close>

lemma bcdAdd_code:
  assumes "0 \<le> sh" "sh \<le> 9" "0 \<le> sl" "sl \<le> 9" "0 \<le> dh" "dh \<le> 9" "0 \<le> dl" "dl \<le> 9" "x = 0 \<or> x = 1"
  defines "lo \<equiv> sl + dl + x" and "hi \<equiv> sh + dh + (sl + dl + x) div 10"
  defines "s \<equiv> word_of_int (16 * sh + sl) :: u32" and "d \<equiv> word_of_int (16 * dh + dl) :: u32"
  shows "(s AND 0xF) + (d AND 0xF) + word_of_int x = word_of_int lo"
    and "(drop_bit 4 s AND 0xF) + (drop_bit 4 d AND 0xF) + drop_bit 4 (word_of_int (adjust lo)) = word_of_int hi"
    and "(push_bit 4 (word_of_int (adjust hi)) OR (word_of_int (adjust lo) AND 0xF)) AND 0xFF =
      (word_of_int (16 * (hi mod 10) + lo mod 10) :: u32)"
proof -
  have lo: "0 \<le> lo" "lo \<le> 19" using assms(3,4,7,8,9) by (auto simp: lo_def)
  have "0 \<le> lo div 10" "lo div 10 \<le> 1" using lo by presburger+
  then have hi: "0 \<le> hi" "hi \<le> 19" using assms(1,2,5,6) by (simp_all add: hi_def lo_def)
  have al: "0 \<le> adjust lo" "adjust lo < 2 ^ 32"
    using lo by (simp_all add: adjust_def)
  show "(s AND 0xF) + (d AND 0xF) + word_of_int x = word_of_int lo"
    unfolding s_def d_def two_digits [OF assms(1-4)] two_digits [OF assms(5-8)] by (simp add: lo_def)
  show "(drop_bit 4 s AND 0xF) + (drop_bit 4 d AND 0xF) + drop_bit 4 (word_of_int (adjust lo)) = word_of_int hi"
    unfolding s_def d_def two_digits [OF assms(1-4)] two_digits [OF assms(5-8)] drop_digit [OF al]
      adjust_digit [OF lo] by (simp add: hi_def lo_def)
  have n: "(16 * adjust hi + lo mod 10) mod 256 = 16 * (hi mod 10) + lo mod 10"
    using adjust_digit(1) [OF hi] by (simp add: byte_of_digits(3) [OF pos_mod_sign] pos_mod_bound less_trans [OF pos_mod_bound])
  have "(push_bit 4 (word_of_int (adjust hi)) OR (word_of_int (adjust lo) AND 0xF)) =
      (word_of_int (16 * adjust hi + lo mod 10) :: u32)"
    unfolding join_digits unfolding word_digits(1) adjust_digit [OF lo] by simp
  then show "(push_bit 4 (word_of_int (adjust hi)) OR (word_of_int (adjust lo) AND 0xF)) AND 0xFF =
      (word_of_int (16 * (hi mod 10) + lo mod 10) :: u32)"
    by (simp only: word_digits(2) n)
qed


lemma bcd_flags_run:
  "run_state (do {
     srClr (flagC OR flagX OR flagN OR flagV);
     whenM carry (srSet (flagC OR flagX));
     whenM n (srSet flagN);
     whenM v (srSet flagV);
     whenM (r \<noteq> 0) (srClr flagZ);
     return r }) c =
   (r, c\<lparr>reg := (reg c)\<lparr>regSR := withCCR carry n (regSR (reg c) AND flagZ \<noteq> 0 \<and> r = 0) v carry (regSR (reg c))\<rparr>\<rparr>)"
  by (cases carry; cases n; cases v; cases "r = 0"; cases "regSR (reg c) AND flagZ = 0") (simp_all add: withCCR_def bits16)

lemma two_digit_value:
  assumes "0 \<le> h" "h \<le> 9" "0 \<le> l" "l \<le> 9"
  shows "validBCD (word_of_int (16 * h + l))" "bcdVal (word_of_int (16 * h + l)) = 10 * h + l"
proof -
  have "uint (word_of_int (16 * h + l) :: u32) = 16 * h + l"
    using assms by (simp only: unsigned_of_int) (simp add: take_bit_int_eq_self)
  then show "validBCD (word_of_int (16 * h + l))" "bcdVal (word_of_int (16 * h + l)) = 10 * h + l"
    using assms by (simp_all add: validBCD_def bcdVal_def byte_of_digits del: of_int_add of_int_mult)
qed

lemma validBCD_byte: "validBCD r \<Longrightarrow> r AND 0xFF = r"
proof -
  assume "validBCD r"
  then obtain h l where r: "r = word_of_int (16 * h + l)" "0 \<le> h" "h \<le> 9" "0 \<le> l" "l \<le> 9"
    by (rule digits)
  then have "(16 * h + l) mod 256 = 16 * h + l" by simp
  then show ?thesis unfolding r(1) by (simp only: word_digits)
qed

lemma decimal_mod:
  assumes "k = 10 * h + l" "0 \<le> l" "l < (10 :: int)"
  shows "k mod 100 = 10 * (h mod 10) + l"
proof -
  have "k mod 10 = l" "k div 10 = h" using assms by simp_all
  then show ?thesis using zmod_zmult2_eq [of 10 k 10] by simp
qed

lemma bcd_add_arith:
  fixes dh dl sh sl x :: int
  assumes "0 \<le> sh" "sh \<le> 9" "0 \<le> sl" "sl \<le> 9" "0 \<le> dh" "dh \<le> 9" "0 \<le> dl" "dl \<le> 9" "x = 0 \<or> x = 1"
  defines "lo \<equiv> sl + dl + x" and "hi \<equiv> sh + dh + (sl + dl + x) div 10"
  shows "0 \<le> lo" "lo < 100" "0 \<le> hi" "hi < 100" "10 * sh + sl + (10 * dh + dl) + x = 10 * hi + lo mod 10"
proof -
  show lo: "0 \<le> lo" "lo < 100" using assms(1-9) by (auto simp: lo_def)
  then have "0 \<le> lo div 10" "lo div 10 \<le> 9" by (auto simp: div_int_pos_iff)
  then show "0 \<le> hi" "hi < 100" using assms(1-9) by (auto simp: hi_def lo_def)
  have "10 * hi + lo mod 10 = 10 * (sh + dh) + (lo div 10 * 10 + lo mod 10)" by (simp only: hi_def lo_def) algebra
  also have "\<dots> = 10 * (sh + dh) + lo" by (simp only: div_mult_mod_eq)
  finally show "10 * sh + sl + (10 * dh + dl) + x = 10 * hi + lo mod 10" by (simp add: lo_def)
qed

lemma bcdAdd_run:
  fixes c :: "'b CPU"
  assumes "validBCD s" "validBCD d"
  defines "k \<equiv> bcdVal s + bcdVal d + extendIn c"
  shows "\<exists>r sr'. run_state (bcdAdd s d) c = (r, c\<lparr>reg := (reg c)\<lparr>regSR := sr'\<rparr>\<rparr>) \<and>
    validBCD r \<and> bcdVal r = k mod 100 \<and> bcdFlags (100 \<le> k) r (regSR (reg c)) sr'"
proof -
  obtain sh sl where s: "s = word_of_int (16 * sh + sl)" "0 \<le> sh" "sh \<le> 9" "0 \<le> sl" "sl \<le> 9" "bcdVal s = 10 * sh + sl"
    using assms(1) by (rule digits)
  obtain dh dl where d: "d = word_of_int (16 * dh + dl)" "0 \<le> dh" "dh \<le> 9" "0 \<le> dl" "dl \<le> 9" "bcdVal d = 10 * dh + dl"
    using assms(2) by (rule digits)
  define x where "x = extendIn c"
  have x: "x = 0 \<or> x = 1" unfolding x_def by (rule extendIn_cases)
  define lo where "lo = sl + dl + x"
  define hi where "hi = sh + dh + lo div 10"
  define r :: u32 where "r = word_of_int (16 * (hi mod 10) + lo mod 10)"
  note code = bcdAdd_code [OF s(2-5) d(2-5) x, folded s(1) d(1) lo_def, folded hi_def, folded r_def]
  note arith = bcd_add_arith [OF s(2-5) d(2-5) x, folded lo_def, folded hi_def]
  note lo = arith(1,2) and hi = arith(3,4)
  have k: "k = 10 * hi + lo mod 10" using arith(5) by (simp only: k_def s(6) d(6) x_def)
  have l: "0 \<le> lo mod 10" "lo mod 10 < 10" by simp_all
  have carry: "(9 :: u32) < word_of_int hi \<longleftrightarrow> 100 \<le> k"
  proof -
    have "9 < hi \<longleftrightarrow> 100 \<le> k" by (rule iffI; use k l in linarith)
    then show ?thesis using less_word_of_int [of 9 hi] hi by simp
  qed
  define n v where "n \<longleftrightarrow> r AND 0x80 \<noteq> 0" and "v \<longleftrightarrow> (s + d + word_of_int x) AND 0x80 = 0 \<and> r AND 0x80 \<noteq> 0"
  have "run_state (bcdAdd s d) c = run_state (do {
     srClr (flagC OR flagX OR flagN OR flagV);
     whenM (100 \<le> k) (srSet (flagC OR flagX));
     whenM n (srSet flagN);
     whenM v (srSet flagV);
     whenM (r \<noteq> 0) (srClr flagZ);
     return r }) c"
    unfolding bcdAdd_def Let_def run_state_bind extendFlag_run x_def [symmetric] prod.case code(1)
    unfolding if_adjust [OF lo] code(2)
    unfolding if_adjust [OF hi] code(3)
    unfolding carry n_def v_def ..
  moreover have "validBCD r" "bcdVal r = 10 * (hi mod 10) + lo mod 10"
    unfolding r_def by (rule two_digit_value; simp)+
  moreover have "k mod 100 = 10 * (hi mod 10) + lo mod 10"
    using k l by (rule decimal_mod)
  ultimately show ?thesis
    unfolding bcd_flags_run bcdFlags_def by auto
qed

subsection \<open>Subtraction\<close>

lemma bit_sign:
  assumes "- (2 ^ n) \<le> k" "k < (2 ^ n :: int)" "n < 32"
  shows "(word_of_int k :: u32) AND 2 ^ n = 0 \<longleftrightarrow> 0 \<le> k"
proof -
  have "k div 2 ^ n = (if 0 \<le> k then 0 else - 1)"
    using assms int_div_pos_eq [of k "2 ^ n" "- 1" "k + 2 ^ n"] by auto
  then have "bit k n \<longleftrightarrow> k < 0" by (simp add: bit_iff_odd)
  moreover have "bit (word_of_int k :: u32) n \<longleftrightarrow> bit k n" using assms(3) by (simp add: bit_simps)
  ultimately show ?thesis by (simp add: and_exp_eq_0_iff_not_bit not_less)
qed

lemma bcd_sub_arith:
  fixes dh dl sh sl x :: int
  assumes "0 \<le> sh" "sh \<le> 9" "0 \<le> sl" "sl \<le> 9" "0 \<le> dh" "dh \<le> 9" "0 \<le> dl" "dl \<le> 9" "x = 0 \<or> x = 1"
  defines "L \<equiv> dl - sl - x" and "B \<equiv> (16 * dh + dl) - (16 * sh + sl) - x"
  defines "hi \<equiv> dh - sh - (if dl - sl - x < 0 then 1 else 0)"
  shows "B - (if L < 0 then 6 else 0) = 16 * hi + L mod 10" "B < 0 \<longleftrightarrow> hi < 0" "- 10 \<le> hi" "hi \<le> 9"
    "10 * dh + dl - (10 * sh + sl) - x = 10 * hi + L mod 10"
proof -
  have "- 10 \<le> L" "L < 10" using assms(1-9) by (auto simp: L_def)
  then have m: "L mod 10 = (if 0 \<le> L then L else L + 10)" by (intro mod_borrow) simp_all
  show "B - (if L < 0 then 6 else 0) = 16 * hi + L mod 10"
    unfolding m by (simp add: L_def B_def hi_def)
  show "B < 0 \<longleftrightarrow> hi < 0" "- 10 \<le> hi" "hi \<le> 9"
    using assms(1-9) by (auto simp: L_def B_def hi_def)
  show "10 * dh + dl - (10 * sh + sl) - x = 10 * hi + L mod 10"
    unfolding m by (simp add: L_def hi_def)
qed

text \<open>The tens digit after the correction, with its borrow.\<close>

lemma bcd_sub_adjust:
  fixes hi l :: int
  assumes "- 10 \<le> hi" "hi \<le> 9" "0 \<le> l" "l < 10"
  defines "R \<equiv> word_of_int (16 * hi + l) :: u32"
  shows "(hi < 0 \<or> R AND 0x100 \<noteq> 0) \<longleftrightarrow> hi < 0"
    "(if hi < 0 then R - 0x60 else R) AND 0xFF = word_of_int (16 * (hi mod 10) + l)"
proof -
  show "(hi < 0 \<or> R AND 0x100 \<noteq> 0) \<longleftrightarrow> hi < 0"
  proof (cases "hi < 0")
    case False
    have "0 \<le> 16 * hi + l" "16 * hi + l \<le> 255" using False assms(2-4) by linarith+
    then show ?thesis using bit_sign [of 8 "16 * hi + l"] False by (simp add: R_def)
  qed simp
  let ?h = "if hi < 0 then hi - 6 else hi"
  have "(if hi < 0 then R - 0x60 else R) = (word_of_int (16 * ?h + l) :: u32)" by (simp add: R_def)
  moreover have "?h mod 16 = (if 0 \<le> hi then hi else hi + 10)"
    using mod_borrow [of 16 ?h] assms(1,2) by auto
  moreover have "hi mod 10 = (if 0 \<le> hi then hi else hi + 10)"
    using assms(1,2) by (intro mod_borrow) simp_all
  ultimately show "(if hi < 0 then R - 0x60 else R) AND 0xFF = word_of_int (16 * (hi mod 10) + l)"
    using assms(3,4) byte_of_digits(3) [of l ?h] by (simp only: word_digits(2))
qed

text \<open>The subtraction of the source on the digits.\<close>

lemma bcdSub_code:
  fixes dh dl sh sl x :: int
  assumes "0 \<le> sh" "sh \<le> 9" "0 \<le> sl" "sl \<le> 9" "0 \<le> dh" "dh \<le> 9" "0 \<le> dl" "dl \<le> 9" "x = 0 \<or> x = 1"
  defines "s \<equiv> word_of_int (16 * sh + sl) :: u32" and "d \<equiv> word_of_int (16 * dh + dl) :: u32"
    and "L \<equiv> dl - sl - x" and "B \<equiv> (16 * dh + dl) - (16 * sh + sl) - x"
    and "hi \<equiv> dh - sh - (if dl - sl - x < 0 then 1 else 0)"
  shows "(d AND 0x0F) - (s AND 0x0F) - word_of_int x = word_of_int L"
    "(word_of_int L :: u32) AND 0x10 \<noteq> 0 \<longleftrightarrow> L < 0" "d - s - word_of_int x = word_of_int B"
    "(if L < 0 then word_of_int B - 6 else word_of_int B) = (word_of_int (16 * hi + L mod 10) :: u32)"
    "d < s + word_of_int x \<longleftrightarrow> hi < 0"
proof -
  note arith = bcd_sub_arith [OF assms(1-9), folded L_def B_def hi_def]
  show "(d AND 0x0F) - (s AND 0x0F) - word_of_int x = word_of_int L"
    unfolding s_def d_def two_digits [OF assms(1-4)] two_digits [OF assms(5-8)] by (simp add: L_def)
  have "- (2 ^ 4) \<le> L" "L < 2 ^ 4" using assms(1-9) unfolding L_def by auto
  from bit_sign [OF this] show "(word_of_int L :: u32) AND 0x10 \<noteq> 0 \<longleftrightarrow> L < 0" by (simp add: not_le)
  show "d - s - word_of_int x = word_of_int B" by (simp add: s_def d_def B_def)
  show "(if L < 0 then word_of_int B - 6 else word_of_int B) = (word_of_int (16 * hi + L mod 10) :: u32)"
    unfolding arith(1) [symmetric] by simp
  have "d < s + word_of_int x \<longleftrightarrow> 16 * dh + dl < 16 * sh + sl + x"
    unfolding s_def d_def of_int_add [symmetric] by (rule less_word_of_int) (use assms(1-9) in auto)
  then show "d < s + word_of_int x \<longleftrightarrow> hi < 0" using arith(2) by (simp add: B_def algebra_simps)
qed

lemma bcdSub_run:
  fixes c :: "'b CPU"
  assumes "validBCD s" "validBCD d"
  defines "k \<equiv> bcdVal d - bcdVal s - extendIn c"
  shows "\<exists>r sr'. run_state (bcdSub s d) c = (r, c\<lparr>reg := (reg c)\<lparr>regSR := sr'\<rparr>\<rparr>) \<and>
    validBCD r \<and> bcdVal r = k mod 100 \<and> bcdFlags (k < 0) r (regSR (reg c)) sr'"
proof -
  obtain sh sl where s: "s = word_of_int (16 * sh + sl)" "0 \<le> sh" "sh \<le> 9" "0 \<le> sl" "sl \<le> 9" "bcdVal s = 10 * sh + sl"
    using assms(1) by (rule digits)
  obtain dh dl where d: "d = word_of_int (16 * dh + dl)" "0 \<le> dh" "dh \<le> 9" "0 \<le> dl" "dl \<le> 9" "bcdVal d = 10 * dh + dl"
    using assms(2) by (rule digits)
  define x where "x = extendIn c"
  have x: "x = 0 \<or> x = 1" unfolding x_def by (rule extendIn_cases)
  define L B where "L = dl - sl - x" and "B = (16 * dh + dl) - (16 * sh + sl) - x"
  define hi where "hi = dh - sh - (if L < 0 then 1 else 0)"
  note arith = bcd_sub_arith [OF s(2-5) d(2-5) x, folded L_def B_def, folded hi_def]
  note code = bcdSub_code [OF s(2-5) d(2-5) x, folded s(1) d(1) L_def B_def, folded hi_def]
  have k: "k = 10 * hi + L mod 10" using arith(5) by (simp only: k_def s(6) d(6) x_def)
  have m: "0 \<le> L mod 10" "L mod 10 < 10" by simp_all
  have neg: "hi < 0 \<longleftrightarrow> k < 0" by (rule iffI; use k m in linarith)
  define r :: u32 where "r = word_of_int (16 * (hi mod 10) + L mod 10)"
  note adjust = bcd_sub_adjust [OF arith(3,4) m, folded r_def]
  define n v where "n \<longleftrightarrow> r AND 0x80 \<noteq> 0" and "v \<longleftrightarrow> (word_of_int B :: u32) AND 0x80 \<noteq> 0 \<and> r AND 0x80 = 0"
  have "run_state (bcdSub s d) c = run_state (do {
     srClr (flagC OR flagX OR flagN OR flagV);
     whenM (k < 0) (srSet (flagC OR flagX));
     whenM n (srSet flagN);
     whenM v (srSet flagV);
     whenM (r \<noteq> 0) (srClr flagZ);
     return r }) c"
    unfolding bcdSub_def Let_def run_state_bind extendFlag_run x_def [symmetric] prod.case code
    unfolding adjust
    unfolding neg n_def v_def ..
  moreover have "validBCD r" "bcdVal r = 10 * (hi mod 10) + L mod 10"
    unfolding r_def by (rule two_digit_value; simp)+
  moreover have "k mod 100 = 10 * (hi mod 10) + L mod 10"
    using k m by (rule decimal_mod)
  ultimately show ?thesis
    unfolding bcd_flags_run bcdFlags_def by auto
qed


subsection \<open>Properties\<close>

lemma ABCD_register:
  assumes "wf_cpu c" "rx = unat (drop_bit 9 (ir c) AND 7)" "ry = unat (ir c AND 7)"
    and "s = regD (reg c) ! ry AND 0xFF" "d = regD (reg c) ! rx AND 0xFF" "validBCD s" "validBCD d"
  shows "\<exists>r sr'. run_state opABCDreg c = ((), c\<lparr>reg := (reg c)\<lparr>regSR := sr',
        regD := (regD (reg c))[rx := (regD (reg c) ! rx AND 0xFFFFFF00) OR r]\<rparr>, cycles := cycles c + 6\<rparr>) \<and>
      validBCD r \<and> bcdVal r = (bcdVal s + bcdVal d + extendIn c) mod 100 \<and>
      bcdFlags (100 \<le> bcdVal s + bcdVal d + extendIn c) r (regSR (reg c)) sr'"
proof -
  obtain r sr' where r: "run_state (bcdAdd s d) c = (r, c\<lparr>reg := (reg c)\<lparr>regSR := sr'\<rparr>\<rparr>)" "validBCD r"
    and "bcdVal r = (bcdVal s + bcdVal d + extendIn c) mod 100"
      "bcdFlags (100 \<le> bcdVal s + bcdVal d + extendIn c) r (regSR (reg c)) sr'"
    using bcdAdd_run [OF assms(6,7), of c] by blast
  moreover have "run_state opABCDreg c = ((), c\<lparr>reg := (reg c)\<lparr>regSR := sr',
        regD := (regD (reg c))[rx := (regD (reg c) ! rx AND 0xFFFFFF00) OR r]\<rparr>, cycles := cycles c + 6\<rparr>)"
    using r(1) assms(1-5) validBCD_byte [OF r(2)] by (simp add: opABCDreg_def Let_def wf_cpu_def)
  ultimately show ?thesis by blast
qed

lemma SBCD_register:
  assumes "wf_cpu c" "rx = unat (drop_bit 9 (ir c) AND 7)" "ry = unat (ir c AND 7)"
    and "s = regD (reg c) ! ry AND 0xFF" "d = regD (reg c) ! rx AND 0xFF" "validBCD s" "validBCD d"
  shows "\<exists>r sr'. run_state opSBCDreg c = ((), c\<lparr>reg := (reg c)\<lparr>regSR := sr',
        regD := (regD (reg c))[rx := (regD (reg c) ! rx AND 0xFFFFFF00) OR r]\<rparr>, cycles := cycles c + 6\<rparr>) \<and>
      validBCD r \<and> bcdVal r = (bcdVal d - bcdVal s - extendIn c) mod 100 \<and>
      bcdFlags (bcdVal d - bcdVal s - extendIn c < 0) r (regSR (reg c)) sr'"
proof -
  obtain r sr' where r: "run_state (bcdSub s d) c = (r, c\<lparr>reg := (reg c)\<lparr>regSR := sr'\<rparr>\<rparr>)" "validBCD r"
    and "bcdVal r = (bcdVal d - bcdVal s - extendIn c) mod 100"
      "bcdFlags (bcdVal d - bcdVal s - extendIn c < 0) r (regSR (reg c)) sr'"
    using bcdSub_run [OF assms(6,7), of c] by blast
  moreover have "run_state opSBCDreg c = ((), c\<lparr>reg := (reg c)\<lparr>regSR := sr',
        regD := (regD (reg c))[rx := (regD (reg c) ! rx AND 0xFFFFFF00) OR r]\<rparr>, cycles := cycles c + 6\<rparr>)"
    using r(1) assms(1-5) validBCD_byte [OF r(2)] by (simp add: opSBCDreg_def Let_def wf_cpu_def)
  ultimately show ?thesis by blast
qed

text \<open>
  C39. ABCD and SBCD on data registers are decimal addition and subtraction: if the low bytes of both
  registers are two decimal digits, the low byte of the destination becomes the two digits of the
  sum of the two numbers and the extend flag, or of the difference, modulo 100; carry and extend say
  whether the sum needed a third digit or the difference was negative, and zero is cleared by a
  result that is not zero. The other 24 bits of the register are kept.
\<close>

theorem decimal_arithmetic:
  assumes "wf_cpu c" "rx = unat (drop_bit 9 (ir c) AND 7)" "ry = unat (ir c AND 7)"
    and "s = regD (reg c) ! ry AND 0xFF" "d = regD (reg c) ! rx AND 0xFF" "validBCD s" "validBCD d"
  shows "(\<exists>r sr'. run_state opABCDreg c = ((), c\<lparr>reg := (reg c)\<lparr>regSR := sr',
        regD := (regD (reg c))[rx := (regD (reg c) ! rx AND 0xFFFFFF00) OR r]\<rparr>, cycles := cycles c + 6\<rparr>) \<and>
      validBCD r \<and> bcdVal r = (bcdVal s + bcdVal d + extendIn c) mod 100 \<and>
      bcdFlags (100 \<le> bcdVal s + bcdVal d + extendIn c) r (regSR (reg c)) sr') \<and>
    (\<exists>r sr'. run_state opSBCDreg c = ((), c\<lparr>reg := (reg c)\<lparr>regSR := sr',
        regD := (regD (reg c))[rx := (regD (reg c) ! rx AND 0xFFFFFF00) OR r]\<rparr>, cycles := cycles c + 6\<rparr>) \<and>
      validBCD r \<and> bcdVal r = (bcdVal d - bcdVal s - extendIn c) mod 100 \<and>
      bcdFlags (bcdVal d - bcdVal s - extendIn c < 0) r (regSR (reg c)) sr')"
  using ABCD_register [OF assms] SBCD_register [OF assms] by (rule conjI)

theorem decimal_arithmetic_witness:
  "let c = (zeroCPU testBus (\<lambda>_. 0))\<lparr>ir := 0xC101, reg := zeroRegisters\<lparr>regD := [0x45, 0x58, 0, 0, 0, 0, 0, 0]\<rparr>\<rparr>
   in bcdVal (regD (reg (snd (run_state opABCDreg c))) ! 0) = 3 \<and> bcdVal (regD (reg (snd (run_state opSBCDreg c))) ! 0) = 87"
  using decimal_arithmetic [of "(zeroCPU testBus (\<lambda>_. 0))\<lparr>ir := 0xC101,
     reg := zeroRegisters\<lparr>regD := [0x45, 0x58, 0, 0, 0, 0, 0, 0]\<rparr>\<rparr>" 0 1 "0x58" "0x45"]
  by (auto simp: wf_cpu_def zeroCPU_def zeroRegisters_def validBCD_def extendIn_def bcdVal_def Let_def)

end
