(* ===== verification/Spec_Shift.thy ===== *)
theory Spec_Shift
  imports Ops_Logic M68k_Alu
begin

text \<open>
  The shifts and rotates of \<open>doShift\<close> against arithmetic: shifting left multiplies, shifting right
  divides (towards minus infinity for the arithmetic shift), rotating moves the digits that leave
  at one end to the other, and the rotates through the extend flag do so on one more digit.
\<close>

subsection \<open>Specification\<close>

text \<open>
  A \<open>k\<close>-bit number rotated by \<open>d\<close> places, to the left if \<open>d\<close> is positive: its bit \<open>i\<close> is the bit
  \<open>i - d\<close> of the original, counted modulo \<open>k\<close>.
\<close>

definition rot :: "nat \<Rightarrow> int \<Rightarrow> int \<Rightarrow> int" where
  "rot k d e = horner_sum of_bool 2 (map (\<lambda>i. bit e (nat ((int i - d) mod int k))) [0..<k])"

text \<open>
  \<open>shiftSpec dir ty sz n val x\<close> gives the result of a shift by \<open>n\<close> places, the new extend flag,
  the overflow and the carry. \<open>dir\<close> is 1 for left; \<open>ty\<close> is 0 for arithmetic, 1 for logical
  shifts, 2 for rotates through the extend flag and 3 for rotates.
\<close>

definition shiftSpec :: "u16 \<Rightarrow> u16 \<Rightarrow> msize \<Rightarrow> nat \<Rightarrow> u32 \<Rightarrow> bool \<Rightarrow> int \<times> bool \<times> bool \<times> bool" where
  "shiftSpec dir ty sz n val x =
    (let w = width sz; u = uval sz val; s = sval sz val
     in if n = 0 then (u, x, False, ty = 2 \<and> x)
        else if ty = 0 \<and> dir = 1 then
          (let c = odd (u * 2 ^ n div 2 ^ w) in ((u * 2 ^ n) mod 2 ^ w, c, \<not> fits sz (s * 2 ^ n), c))
        else if ty = 0 then
          (let c = odd (s div 2 ^ (n - 1)) in ((s div 2 ^ n) mod 2 ^ w, c, False, c))
        else if ty = 1 \<and> dir = 1 then
          (let c = odd (u * 2 ^ n div 2 ^ w) in ((u * 2 ^ n) mod 2 ^ w, c, False, c))
        else if ty = 1 then
          (let c = odd (u div 2 ^ (n - 1)) in (u div 2 ^ n, c, False, c))
        else if ty = 2 then
          (let e = u + (if x then 2 ^ w else 0);
               r = rot (w + 1) (if dir = 1 then int n else - int n) e;
               c = bit r w
           in (r mod 2 ^ w, c, False, c))
        else
          (let r = rot w (if dir = 1 then int n else - int n) u
           in (r, x, False, if dir = 1 then odd r else bit r (w - 1))))"

subsection \<open>Condition codes set one by one\<close>

lemma withCCR_self:
  "withCCR (sr AND flagX \<noteq> 0) (sr AND flagN \<noteq> 0) (sr AND flagZ \<noteq> 0) (sr AND flagV \<noteq> 0) (sr AND flagC \<noteq> 0) sr = sr"
  by (simp add: withCCR_def bits16)

definition ccrState :: "'b CPU \<Rightarrow> bool \<Rightarrow> bool \<Rightarrow> bool \<Rightarrow> bool \<Rightarrow> bool \<Rightarrow> 'b CPU" where
  "ccrState c x n z v k = c\<lparr>reg := (reg c)\<lparr>regSR := withCCR x n z v k (regSR (reg c))\<rparr>\<rparr>"

lemma ccrState_exists: "\<exists>n z v k. ccrState c (regSR (reg c) AND flagX \<noteq> 0) n z v k = c"
  unfolding ccrState_def by (intro exI, subst withCCR_self) simp

lemma withCCR_set:
  "withCCR x n z v c sr OR 17 = withCCR True n z v True sr"
  "withCCR x n z v c sr OR 1 = withCCR x n z v True sr"
  "withCCR x n z v c sr OR 2 = withCCR x n z True c sr"
  "withCCR x n z v c sr OR 4 = withCCR x n True v c sr"
  "withCCR x n z v c sr OR 8 = withCCR x True z v c sr"
  by (cases x; cases n; cases z; cases v; cases c; simp add: withCCR_def bits16)+

lemma withCCR_clear:
  "withCCR x n z v c sr AND - 18 = withCCR False n z v False sr"
  "withCCR x n z v c sr AND - 2 = withCCR x n z v False sr"
  "withCCR x n z v c sr AND - 3 = withCCR x n z False c sr"
  "withCCR x n z v c sr AND - 13 = withCCR x False False v c sr"
  "withCCR x n z v c sr AND - 16 = withCCR x False False False False sr"
  by (cases x; cases n; cases z; cases v; cases c; simp add: withCCR_def bits16)+

lemma run_ccrState [simp]:
  "run_state (srSet 17) (ccrState c x n z v k) = ((), ccrState c True n z v True)"
  "run_state (srSet 1) (ccrState c x n z v k) = ((), ccrState c x n z v True)"
  "run_state (srSet 2) (ccrState c x n z v k) = ((), ccrState c x n z True k)"
  "run_state (srSet 4) (ccrState c x n z v k) = ((), ccrState c x n True v k)"
  "run_state (srSet 8) (ccrState c x n z v k) = ((), ccrState c x True z v k)"
  "run_state (srClr 17) (ccrState c x n z v k) = ((), ccrState c False n z v False)"
  "run_state (srClr 1) (ccrState c x n z v k) = ((), ccrState c x n z v False)"
  "run_state (srClr 2) (ccrState c x n z v k) = ((), ccrState c x n z False k)"
  "run_state (srClr 12) (ccrState c x n z v k) = ((), ccrState c x False False v k)"
  "run_state (srClr 15) (ccrState c x n z v k) = ((), ccrState c x False False False False)"
  "run_state getSR (ccrState c x n z v k) = (withCCR x n z v k (regSR (reg c)), ccrState c x n z v k)"
  by (simp_all add: ccrState_def withCCR_set withCCR_clear)

text \<open>In this theory the status register is updated through \<open>ccrState\<close> only.\<close>

declare run_special [simp del]

lemma run_setCX [simp]: "run_state (setCX b) (ccrState c x n z v k) = ((), ccrState c b n z v b)"
  by (simp add: setCX_def)

lemma run_extendFlag [simp]:
  "run_state extendFlag (ccrState c x n z v k) = (if x then 1 else 0, ccrState c x n z v k)"
  by (simp add: extendFlag_def)

subsection \<open>The loops\<close>

lemma foldM_const_Suc:
  "run_state (foldM (\<lambda>_ r. f r) [0..<Suc n] a) c =
    (case run_state (foldM (\<lambda>_ r. f r) [0..<n] a) c of (a', c') \<Rightarrow> run_state (f a') c')"
proof -
  have "run_state (foldM (\<lambda>_ r. f r) (xs @ [y]) a) c =
    (case run_state (foldM (\<lambda>_ r. f r) xs a) c of (a', c') \<Rightarrow> run_state (f a') c')" for xs :: "nat list" and y a c
    by (induction xs arbitrary: a c) (auto simp: split_def)
  then show ?thesis by simp
qed


lemma uval_push_bit:
  assumes "sz \<noteq> sizeZero"
  shows "uval sz (push_bit m x) = (uval sz x * 2 ^ m) mod 2 ^ width sz"
    and "uval sz (push_bit m x) = (sval sz x * 2 ^ m) mod 2 ^ width sz"
proof -
  have "uval sz (push_bit m x) = take_bit (width sz) (uint x * 2 ^ m)"
    using width_le_32 [of sz]
    by (simp only: uval_def unsigned_push_bit_eq) (simp add: push_bit_eq_mult min_absorb1)
  then have *: "uval sz (push_bit m x) = (uint x * 2 ^ m) mod 2 ^ width sz"
    by (simp add: take_bit_eq_mod)
  show "uval sz (push_bit m x) = (uval sz x * 2 ^ m) mod 2 ^ width sz"
    unfolding * by (simp add: uval_def take_bit_eq_mod mod_simps)
  have "sval sz x mod 2 ^ width sz = uint x mod 2 ^ width sz"
    using take_bit_sval [OF assms, of x] by (simp add: take_bit_eq_mod uval_def)
  then show "uval sz (push_bit m x) = (sval sz x * 2 ^ m) mod 2 ^ width sz"
    unfolding * by (metis mod_mult_left_eq)
qed

lemma uval_take_bit [simp]: "uval sz (take_bit (width sz) x) = uval sz x"
  by (simp add: uval_def unsigned_take_bit_eq)

lemma asl_overflow:
  assumes "sz \<noteq> sizeZero"
  shows "fits sz (sval sz val * 2 ^ Suc j) \<longleftrightarrow> fits sz (sval sz val * 2 ^ j) \<and>
    bit (push_bit j val) (width sz - 1) = bit (push_bit (Suc j) val) (width sz - 1)"
proof -
  define H :: int where "H = 2 ^ (width sz - 1)"
  define T where "T = sval sz val * 2 ^ j"
  have T2: "sval sz val * 2 ^ Suc j = 2 * T" by (simp add: T_def)
  have b: "bit (push_bit j val) (width sz - 1) \<longleftrightarrow> H \<le> T mod (2 * H)"
    "bit (push_bit (Suc j) val) (width sz - 1) \<longleftrightarrow> H \<le> (2 * T) mod (2 * H)"
    unfolding bit_uval [OF assms] uval_push_bit(2) [OF assms] pow_width [OF assms] T2 H_def [symmetric]
    by (simp_all add: T_def)
  show ?thesis
  proof (cases "- H \<le> T \<and> T < H")
    case True
    then have "T mod (2 * H) = (if 0 \<le> T then T else T + 2 * H)"
      "(2 * T) mod (2 * H) = (if 0 \<le> 2 * T then 2 * T else 2 * T + 2 * H)"
      by (intro mod_borrow; simp)+
    then show ?thesis using True unfolding b T2 fits_def H_def [symmetric] T_def [symmetric] by auto
  next
    case False
    then show ?thesis unfolding b T2 fits_def H_def [symmetric] T_def [symmetric] by auto
  qed
qed

lemma MSB_eq_iff:
  assumes "sz \<noteq> sizeZero"
  shows "a AND MSB sz \<noteq> b AND MSB sz \<longleftrightarrow> bit a (width sz - 1) \<noteq> bit b (width sz - 1)"
proof -
  have m: "MSB sz = 2 ^ (width sz - 1)" using assms by (cases sz) simp_all
  have "width sz - 1 < 32" using width_Suc [OF assms] by auto
  then show ?thesis unfolding m by (auto simp: bit_eq_iff [of "a AND _"] bit_simps)
qed

lemma asl_loop:
  assumes "sz \<noteq> sizeZero" "val AND Mask sz = val"
  shows "run_state (foldM (\<lambda>_ r. aslStep sz r) [0..<j] val) (ccrState c x n z False k) =
    (take_bit (width sz) (push_bit j val), ccrState c x n z (\<not> fits sz (sval sz val * 2 ^ j)) k)"
proof (induction j)
  case 0
  have "take_bit (width sz) val = val" using assms(2) by (simp add: and_Mask_eq_take_bit)
  moreover have "fits sz (sval sz val)" using sval_bounds [OF assms(1), of val] by (simp add: fits_def)
  ultimately show ?case by simp
next
  case (Suc j)
  define r where "r = take_bit (width sz) (push_bit j val)"
  have step: "push_bit 1 r AND Mask sz = take_bit (width sz) (push_bit (Suc j) val)"
    unfolding r_def and_Mask_eq_take_bit
    by (rule bit_word_eqI) (simp add: bit_take_bit_iff bit_push_bit_iff Suc_le_eq del: push_bit_Suc; auto)
  have change: "(take_bit (width sz) (push_bit (Suc j) val) AND MSB sz \<noteq> r AND MSB sz) \<longleftrightarrow>
      bit (push_bit j val) (width sz - 1) \<noteq> bit (push_bit (Suc j) val) (width sz - 1)"
    unfolding r_def MSB_eq_iff [OF assms(1)] using width_Suc [OF assms(1)] by (auto simp: bit_take_bit_iff)
  show ?case
    unfolding foldM_const_Suc Suc.IH prod.case r_def [symmetric]
    unfolding aslStep_def Let_def step asl_overflow [OF assms(1)]
    using change by (auto simp del: push_bit_Suc)
qed

lemma masked_bit: "val AND Mask sz = val \<Longrightarrow> bit val i \<Longrightarrow> i < width sz"
  unfolding and_Mask_eq_take_bit by (metis bit_take_bit_iff)

lemma bit_MSB: "sz \<noteq> sizeZero \<Longrightarrow> bit (MSB sz) i \<longleftrightarrow> i = width sz - 1"
proof -
  assume "sz \<noteq> sizeZero"
  then have "MSB sz = 2 ^ (width sz - 1)" "width sz - 1 < 32" by (cases sz; simp)+
  then show ?thesis by (auto simp: bit_exp_iff)
qed

lemma bit_sval: "sz \<noteq> sizeZero \<Longrightarrow> bit (sval sz x) i \<longleftrightarrow> bit x (min (width sz - 1) i)"
  using width_Suc [of sz] by (auto simp: sval_def bit_signed_take_bit_iff bit_uint_iff min_less_iff_disj)

lemma asr_loop:
  assumes "sz \<noteq> sizeZero" "val AND Mask sz = val"
  shows "((\<lambda>r. drop_bit 1 r OR (val AND MSB sz)) ^^ j) val = take_bit (width sz) (word_of_int (drop_bit j (sval sz val)))"
proof -
  obtain m where m: "width sz = Suc m" "m < 32" using width_Suc [OF assms(1)] by blast
  have "bit (((\<lambda>r. drop_bit 1 r OR (val AND MSB sz)) ^^ j) val) i \<longleftrightarrow> i < width sz \<and> bit (sval sz val) (j + i)" for i
  proof (induction j arbitrary: i)
    case 0
    show ?case using masked_bit [OF assms(2), of i] by (auto simp: bit_sval assms(1) m min_absorb2 less_Suc_eq_le)
  next
    case (Suc j)
    have "bit (((\<lambda>r. drop_bit 1 r OR (val AND MSB sz)) ^^ Suc j) val) i \<longleftrightarrow>
        bit (((\<lambda>r. drop_bit 1 r OR (val AND MSB sz)) ^^ j) val) (Suc i) \<or> (bit val i \<and> i = m)"
      by (simp add: bit_or_iff bit_and_iff bit_drop_bit_eq bit_MSB assms(1) m)
    then show ?case unfolding Suc.IH by (cases "i = m") (auto simp: bit_sval assms(1) m min_def)
  qed
  then show ?thesis
    using width_le_32 [of sz] by (intro bit_word_eqI) (simp add: bit_simps)
qed

lemma bit_rot: "bit (rot k d e) i \<longleftrightarrow> i < k \<and> bit e (nat ((int i - d) mod int k))"
  by (auto simp: rot_def bit_horner_sum_bit_iff)

definition extended :: "msize \<Rightarrow> u32 \<Rightarrow> bool \<Rightarrow> int" where
  "extended sz val x = uval sz val + (if x then 2 ^ width sz else 0)"

lemma bit_extended:
  "bit (extended sz val x) i \<longleftrightarrow> (if i < width sz then bit val i else i = width sz \<and> x)"
proof -
  have "extended sz val x = uval sz val OR (if x then 2 ^ width sz else 0)"
    unfolding extended_def by (rule disjunctive_add) (auto simp: uval_def bit_simps)
  then show ?thesis using width_le_32 [of sz] by (auto simp: uval_def bit_simps)
qed

text \<open>The bits of a rotated number, indexed by integers modulo its length.\<close>

definition ring :: "msize \<Rightarrow> u32 \<Rightarrow> bool \<Rightarrow> int \<Rightarrow> bool" where
  "ring sz val x t = bit (extended sz val x) (nat (t mod (int (width sz) + 1)))"

lemma ring_period: "ring sz val x (t + (int (width sz) + 1)) = ring sz val x t"
  by (simp add: ring_def)

lemma ring_base: "i < width sz \<Longrightarrow> ring sz val x (int i) = bit val i" "ring sz val x (int (width sz)) = x"
  by (simp_all add: ring_def bit_extended mod_pos_pos_trivial)

lemma run_roxlStep:
  "run_state (roxlStep sz r) (ccrState c x n z v k) =
    ((push_bit 1 r OR (if x then 1 else 0)) AND Mask sz, ccrState c (r AND MSB sz \<noteq> 0) n z v (r AND MSB sz \<noteq> 0))"
  by (simp add: roxlStep_def)

lemma run_roxrStep:
  "run_state (roxrStep sz r) (ccrState c x n z v k) =
    (drop_bit 1 r OR push_bit (unat (Bits sz - 1)) (if x then 1 else 0), ccrState c (r AND 1 \<noteq> 0) n z v (r AND 1 \<noteq> 0))"
  by (simp add: roxrStep_def)

lemma roxl_loop:
  assumes "sz \<noteq> sizeZero" "val AND Mask sz = val"
  shows "\<exists>r. run_state (foldM (\<lambda>_ r. roxlStep sz r) [0..<j] val) (ccrState c x n z v k) =
      (r, ccrState c (ring sz val x (int (width sz) - int j)) n z v
           (if j = 0 then k else ring sz val x (int (width sz) - int j))) \<and>
      (\<forall>i. bit r i \<longleftrightarrow> i < width sz \<and> ring sz val x (int i - int j))"
proof (induction j)
  case 0
  show ?case using masked_bit [OF assms(2)] by (auto simp: ring_base)
next
  case (Suc j)
  obtain m where m: "width sz = Suc m" "m < 32" using width_Suc [OF assms(1)] by blast
  obtain r where run: "run_state (foldM (\<lambda>_ r. roxlStep sz r) [0..<j] val) (ccrState c x n z v k) =
      (r, ccrState c (ring sz val x (int (width sz) - int j)) n z v
           (if j = 0 then k else ring sz val x (int (width sz) - int j)))"
    and r: "bit r i \<longleftrightarrow> i < width sz \<and> ring sz val x (int i - int j)" for i
    using Suc.IH by blast
  define x' where "x' = ring sz val x (int (width sz) - int j)"
  have top: "r AND MSB sz \<noteq> 0 \<longleftrightarrow> ring sz val x (int (width sz) - int (Suc j))"
    using and_MSB [OF assms(1), of r] r [of "width sz - 1"] by (simp add: m algebra_simps)
  have bits: "bit ((push_bit 1 r OR (if x' then 1 else 0)) AND Mask sz) i \<longleftrightarrow>
      i < width sz \<and> ring sz val x (int i - int (Suc j))" for i
  proof (cases i)
    case 0
    have "x' = ring sz val x (- 1 - int j)"
      using ring_period [of sz val x "- 1 - int j"] by (simp add: x'_def algebra_simps)
    then show ?thesis using 0 m
      by (simp add: and_Mask_eq_take_bit bit_take_bit_iff bit_or_iff bit_push_bit_iff del: push_bit_Suc)
  next
    case (Suc i')
    then show ?thesis using m r [of i']
      by (auto simp: and_Mask_eq_take_bit bit_take_bit_iff bit_or_iff bit_push_bit_iff bit_1_iff simp del: push_bit_Suc)
  qed
  show ?case
    unfolding foldM_const_Suc run prod.case x'_def [symmetric] run_roxlStep top
    by (intro exI [of _ "(push_bit 1 r OR (if x' then 1 else 0)) AND Mask sz"] conjI allI bits) simp
qed

lemma roxr_loop:
  assumes "sz \<noteq> sizeZero" "val AND Mask sz = val"
  shows "\<exists>r. run_state (foldM (\<lambda>_ r. roxrStep sz r) [0..<j] val) (ccrState c x n z v k) =
      (r, ccrState c (ring sz val x (int (width sz) + int j)) n z v
           (if j = 0 then k else ring sz val x (int (width sz) + int j))) \<and>
      (\<forall>i. bit r i \<longleftrightarrow> i < width sz \<and> ring sz val x (int i + int j))"
proof (induction j)
  case 0
  show ?case using masked_bit [OF assms(2)] by (auto simp: ring_base)
next
  case (Suc j)
  obtain m where m: "width sz = Suc m" "m < 32" using width_Suc [OF assms(1)] by blast
  obtain r where run: "run_state (foldM (\<lambda>_ r. roxrStep sz r) [0..<j] val) (ccrState c x n z v k) =
      (r, ccrState c (ring sz val x (int (width sz) + int j)) n z v
           (if j = 0 then k else ring sz val x (int (width sz) + int j)))"
    and r: "bit r i \<longleftrightarrow> i < width sz \<and> ring sz val x (int i + int j)" for i
    using Suc.IH by blast
  define x' where "x' = ring sz val x (int (width sz) + int j)"
  have low: "r AND 1 \<noteq> 0 \<longleftrightarrow> ring sz val x (int (width sz) + int (Suc j))"
    using ring_period [of sz val x "int j"] r [of 0] by (simp add: m and_one_eq bit_0 algebra_simps odd_iff_mod_2_eq_one)
  have top: "unat (Bits sz - 1) = m" using m assms(1) by (cases sz) simp_all
  have bits: "bit (drop_bit 1 r OR push_bit (unat (Bits sz - 1)) (if x' then 1 else 0)) i \<longleftrightarrow>
      i < width sz \<and> ring sz val x (int i + int (Suc j))" for i
    using r [of "Suc i"] m
    by (cases "i = m") (auto simp: top bit_or_iff bit_drop_bit_eq bit_push_bit_iff bit_1_iff x'_def algebra_simps simp del: drop_bit_Suc)
  show ?case
    unfolding foldM_const_Suc run prod.case x'_def [symmetric] run_roxrStep low
    by (intro exI [of _ "drop_bit 1 r OR push_bit (unat (Bits sz - 1)) (if x' then 1 else 0)"] conjI allI bits) simp
qed

subsection \<open>The whole of \<open>doShift\<close>\<close>

lemma shift_tail:
  assumes "sz \<noteq> sizeZero" "r AND Mask sz = r"
  shows "run_state (do { srClr (flagN OR flagZ); whenM (r AND MSB sz \<noteq> 0) (srSet flagN);
      whenM (r AND Mask sz = 0) (srSet flagZ); return r }) (ccrState c x n z v k) =
    (word_of_int (uval sz r), ccrState c x (2 ^ (width sz - 1) \<le> uval sz r) (uval sz r = 0) v k)"
proof -
  have "word_of_int (uval sz r) = r"
    using assms(2) by (metis uval_def and_Mask_eq_take_bit unsigned_take_bit_eq word_of_int_uint)
  then show ?thesis
    unfolding sign_test [OF assms(1)] and_Mask_0 by (simp del: of_int_power)
qed

lemma last_out_left:
  assumes "sz \<noteq> sizeZero" "val AND Mask sz = val" "unat count < 64"
  shows "drop_bit (unat (Bits sz - count)) val AND 1 \<noteq> 0 \<longleftrightarrow> odd (uval sz val * 2 ^ unat count div 2 ^ width sz)"
proof -
  have "odd (uval sz val * 2 ^ unat count div 2 ^ width sz) \<longleftrightarrow> bit (push_bit (unat count) (uval sz val)) (width sz)"
    by (simp add: bit_iff_odd push_bit_eq_mult)
  also have "\<dots> \<longleftrightarrow> unat count \<le> width sz \<and> bit val (width sz - unat count)"
    by (auto simp: bit_push_bit_iff uval_def bit_take_bit_iff bit_uint_iff possible_bit_def
      dest: masked_bit [OF assms(2)] bit_imp_le_length)
  also have "\<dots> \<longleftrightarrow> bit val (unat (Bits sz - count))"
    using assms(1,3) by (cases sz) (auto simp: unat_sub_if' dest: bit_imp_le_length)
  finally show ?thesis by (simp add: bit_iff_odd_drop_bit and_one_eq odd_iff_mod_2_eq_one)
qed

lemma last_out_right:
  assumes "sz \<noteq> sizeZero" "val AND Mask sz = val" "count \<noteq> 0"
  shows "drop_bit (unat (count - 1)) val AND 1 \<noteq> 0 \<longleftrightarrow> odd (uval sz val div 2 ^ (unat count - 1))"
    and "(if count \<ge> Bits sz then drop_bit (unat (Bits sz - 1)) val AND 1 else drop_bit (unat (count - 1)) val AND 1) \<noteq> 0 \<longleftrightarrow>
      odd (sval sz val div 2 ^ (unat count - 1))"
proof -
  have pred: "unat (count - 1) = unat count - 1"
    using assms(3) by (simp add: unat_minus_one)
  have test: "drop_bit i val AND 1 \<noteq> 0 \<longleftrightarrow> bit val i" for i
    by (simp add: bit_iff_odd_drop_bit and_one_eq odd_iff_mod_2_eq_one)
  have "odd (uval sz val div 2 ^ j) \<longleftrightarrow> bit val j" for j
    unfolding bit_iff_odd [symmetric]
    by (auto simp: uval_def bit_take_bit_iff bit_uint_iff dest: masked_bit [OF assms(2)] bit_imp_le_length)
  then show "drop_bit (unat (count - 1)) val AND 1 \<noteq> 0 \<longleftrightarrow> odd (uval sz val div 2 ^ (unat count - 1))"
    unfolding test pred by simp
  have "unat (Bits sz - 1) = width sz - 1" "unat (Bits sz) = width sz" using assms(1) by (cases sz; simp)+
  then show "(if count \<ge> Bits sz then drop_bit (unat (Bits sz - 1)) val AND 1 else drop_bit (unat (count - 1)) val AND 1) \<noteq> 0 \<longleftrightarrow>
      odd (sval sz val div 2 ^ (unat count - 1))"
    unfolding if_distrib [of "\<lambda>y. y \<noteq> (0 :: u32)"] test pred bit_iff_odd [symmetric] bit_sval [OF assms(1)]
    by (auto simp: word_le_nat_alt min_def)
qed

lemma rot_index:
  assumes "i < w"
  shows "nat ((int i - int n) mod int w) = (if n mod w \<le> i then i - n mod w else i + w - n mod w)"
    "nat ((int i + int n) mod int w) = (if i + n mod w < w then i + n mod w else i + n mod w - w)"
proof -
  have m: "n mod w < w" using assms by simp
  have "(int i - int n) mod int w = (int i - int (n mod w)) mod int w"
    by (simp add: zmod_int mod_simps)
  also have "\<dots> = (if 0 \<le> int i - int (n mod w) then int i - int (n mod w) else int i - int (n mod w) + int w)"
    by (rule mod_borrow) (use m assms in linarith)+
  finally show "nat ((int i - int n) mod int w) = (if n mod w \<le> i then i - n mod w else i + w - n mod w)"
    using m by auto
  have "(int i + int n) mod int w = (int i + int (n mod w)) mod int w"
    by (simp add: zmod_int mod_simps)
  also have "\<dots> = (if int i + int (n mod w) < int w then int i + int (n mod w) else int i + int (n mod w) - int w)"
    by (rule mod_carry) (use m assms in linarith)+
  finally show "nat ((int i + int n) mod int w) = (if i + n mod w < w then i + n mod w else i + n mod w - w)"
    using m assms by (auto simp: nat_diff_distrib nat_add_distrib)
qed

lemma uval_eq_bits:
  assumes "\<And>i. bit r i \<longleftrightarrow> i < width sz \<and> bit (k :: int) i" "\<And>i. bit k i \<Longrightarrow> i < width sz"
  shows "uval sz r = k" "r AND Mask sz = r"
proof -
  show "uval sz r = k"
    using assms width_le_32 [of sz] by (intro bit_eqI) (auto simp: uval_def bit_take_bit_iff bit_uint_iff intro: less_le_trans)
  show "r AND Mask sz = r"
    unfolding and_Mask_eq_take_bit using assms(1) by (auto simp: bit_eq_iff bit_take_bit_iff)
qed

lemma bit_uval_iff: "val AND Mask sz = val \<Longrightarrow> bit (uval sz val) i \<longleftrightarrow> bit val i"
  by (auto simp: uval_def bit_take_bit_iff bit_uint_iff dest: masked_bit bit_imp_le_length)

lemma rotate_words:
  fixes count :: u32
  assumes "sz \<noteq> sizeZero" "val AND Mask sz = val" "n = unat count"
  defines "w \<equiv> width sz" and "m \<equiv> unat (count mod Bits sz)"
  shows "uval sz ((push_bit m val OR drop_bit (unat (Bits sz - count mod Bits sz)) val) AND Mask sz) =
      rot w (int n) (uval sz val)"
    and "uval sz ((drop_bit m val OR push_bit (unat (Bits sz - count mod Bits sz)) val) AND Mask sz) =
      rot w (- int n) (uval sz val)"
proof -
  have B: "unat (Bits sz) = w" using assms(1) by (cases sz) (simp_all add: w_def)
  have m: "m = n mod w" by (simp add: m_def unat_mod B assms(3))
  have w: "0 < w" "w \<le> 32" using assms(1) by (cases sz; simp add: w_def)+
  have mw: "m < w" using w by (simp add: m)
  have r: "unat (Bits sz - count mod Bits sz) = w - m"
    using mw by (simp add: unat_sub_if' B m_def)
  have wrap: "bit val (i + w - m) \<Longrightarrow> i < m" for i
    using masked_bit [OF assms(2), of "i + w - m"] w by (auto simp: w_def)
  note bits = bit_take_bit_iff bit_or_iff bit_push_bit_iff bit_drop_bit_eq bit_rot bit_uval_iff [OF assms(2)]
  have left: "bit (push_bit m val OR drop_bit (w - m) val) i \<longleftrightarrow> bit val (if m \<le> i then i - m else i + w - m)"
    if "i < w" for i
    using wrap [of i] that mw w by (cases "m \<le> i") (auto simp: bits add.commute)
  have right: "bit (drop_bit m val OR push_bit (w - m) val) i \<longleftrightarrow> bit val (if i + m < w then i + m else i + m - w)"
    if "i < w" for i
    using masked_bit [OF assms(2), of "i + m"] that mw w
    by (cases "i + m < w") (auto simp: bits add.commute w_def [symmetric])
  show "uval sz ((push_bit m val OR drop_bit (unat (Bits sz - count mod Bits sz)) val) AND Mask sz) =
      rot w (int n) (uval sz val)"
    unfolding r and_Mask_eq_take_bit using w mw
    by (intro uval_eq_bits(1)) (simp_all add: bit_take_bit_iff left bit_rot bit_uval_iff [OF assms(2)] rot_index
        m [symmetric] w_def [symmetric] cong: conj_cong del: take_bit_or)
  show "uval sz ((drop_bit m val OR push_bit (unat (Bits sz - count mod Bits sz)) val) AND Mask sz) =
      rot w (- int n) (uval sz val)"
    unfolding r and_Mask_eq_take_bit using w mw
    by (intro uval_eq_bits(1)) (simp_all add: bit_take_bit_iff right bit_rot bit_uval_iff [OF assms(2)] rot_index
        m [symmetric] w_def [symmetric] cong: conj_cong del: take_bit_or)
qed

text \<open>The middle part of \<open>doShift\<close>: the result and the flags before the common tail.\<close>

lemma bit_ring_rot:
  assumes "sz \<noteq> sizeZero" "i < width sz + 1"
  shows "bit (rot (width sz + 1) d (extended sz val x)) i = ring sz val x (int i - d)"
  using assms by (simp add: bit_rot ring_def add.commute)

lemma rox_result:
  assumes "sz \<noteq> sizeZero" "\<And>i. bit r i \<longleftrightarrow> i < width sz \<and> ring sz val x (int i - d)"
  shows "uval sz r = rot (width sz + 1) d (extended sz val x) mod 2 ^ width sz" "r AND Mask sz = r"
proof -
  have bits: "bit r i \<longleftrightarrow> i < width sz \<and> bit (take_bit (width sz) (rot (width sz + 1) d (extended sz val x))) i" for i
    using assms(2) [of i] bit_ring_rot [OF assms(1), of i] by (auto simp: bit_take_bit_iff)
  show "uval sz r = rot (width sz + 1) d (extended sz val x) mod 2 ^ width sz" "r AND Mask sz = r"
    unfolding take_bit_eq_mod [symmetric] by (rule uval_eq_bits [OF bits]; simp add: bit_take_bit_iff)+
qed

definition shiftPart :: "u32 \<Rightarrow> u32 \<Rightarrow> u16 \<Rightarrow> u16 \<Rightarrow> msize \<Rightarrow> ('b, u32) cpuM" where
  "shiftPart val count dir ty sz =
    (if ty = 0 then
       (if dir = 1 then do {
          srClr flagV;
          result \<leftarrow> foldM (\<lambda>_ r. aslStep sz r) [0..<unat count] val;
          setCX (drop_bit (unat (Bits sz - count)) val AND 1 \<noteq> 0);
          return result }
        else do {
          setCX ((if count \<ge> Bits sz then drop_bit (unat (Bits sz - 1)) val AND 1
                  else drop_bit (unat (count - 1)) val AND 1) \<noteq> 0);
          srClr flagV;
          return (((\<lambda>r. drop_bit 1 r OR (val AND MSB sz)) ^^ unat count) val AND Mask sz) })
     else if ty = 1 then
       (if dir = 1 then do {
          setCX (drop_bit (unat (Bits sz - count)) val AND 1 \<noteq> 0);
          srClr flagV;
          return (push_bit (unat count) val AND Mask sz) }
        else do {
          setCX (drop_bit (unat (count - 1)) val AND 1 \<noteq> 0);
          srClr flagV;
          return (drop_bit (unat count) (val AND Mask sz)) })
     else if ty = 2 then
       (if dir = 1 then do {
          result \<leftarrow> foldM (\<lambda>_ r. roxlStep sz r) [0..<unat count] val;
          srClr flagV;
          return result }
        else do {
          result \<leftarrow> foldM (\<lambda>_ r. roxrStep sz r) [0..<unat count] val;
          srClr flagV;
          return (result AND Mask sz) })
     else
       (let shift = count mod Bits sz;
            result = (if dir = 1
              then (push_bit (unat shift) val OR drop_bit (unat (Bits sz - shift)) val) AND Mask sz
              else (drop_bit (unat shift) val OR push_bit (unat (Bits sz - shift)) val) AND Mask sz)
        in do {
          (if dir = 1 then (if result AND 1 \<noteq> 0 then srSet flagC else srClr flagC)
           else (if result AND MSB sz \<noteq> 0 then srSet flagC else srClr flagC));
          srClr flagV;
          return result }))"

lemma doShift_split:
  assumes "sz \<noteq> sizeZero" "count \<noteq> 0" "ty = 0 \<or> ty = 1 \<or> ty = 2 \<or> ty = 3"
  shows "doShift val count dir ty sz = do {
    r \<leftarrow> shiftPart val count dir ty sz;
    srClr (flagN OR flagZ); whenM (r AND MSB sz \<noteq> 0) (srSet flagN);
    whenM (r AND Mask sz = 0) (srSet flagZ); return r }"
  using assms Bits_eq_0 [of sz] by (auto simp: doShift_def shiftPart_def Let_def)

lemma doShift_part:
  assumes "sz \<noteq> sizeZero" "count \<noteq> 0" "ty = 0 \<or> ty = 1 \<or> ty = 2 \<or> ty = 3"
    and "run_state (shiftPart val count dir ty sz) s = (r, ccrState c x n z v k)" "r AND Mask sz = r"
  shows "run_state (doShift val count dir ty sz) s =
    (word_of_int (uval sz r), ccrState c x (2 ^ (width sz - 1) \<le> uval sz r) (uval sz r = 0) v k)"
  unfolding doShift_split [OF assms(1-3)] run_state_bind [of "shiftPart _ _ _ _ _"] assms(4) prod.case
  by (rule shift_tail [OF assms(1,5)])

definition afterShift :: "'b CPU \<Rightarrow> msize \<Rightarrow> int \<times> bool \<times> bool \<times> bool \<Rightarrow> u32 \<times> 'b CPU" where
  "afterShift c sz = (\<lambda>(r, x, v, k).
     (word_of_int r, ccrState c x (2 ^ (width sz - 1) \<le> r) (r = 0) v k))"

lemma doShift_left:
  assumes "sz \<noteq> sizeZero" "val AND Mask sz = val" "unat count < 64" "count \<noteq> 0" "ty = 0 \<or> ty = 1"
  shows "run_state (doShift val count 1 ty sz) (ccrState c x n z v k) =
    afterShift c sz (shiftSpec 1 ty sz (unat count) val x)"
proof -
  define C where "C \<longleftrightarrow> odd (uval sz val * 2 ^ unat count div 2 ^ width sz)"
  define V where "V \<longleftrightarrow> ty = 0 \<and> \<not> fits sz (sval sz val * 2 ^ unat count)"
  have n0: "unat count \<noteq> 0" using assms(4) by (simp add: unat_eq_0)
  have ty: "ty = 0 \<or> ty = 1 \<or> ty = 2 \<or> ty = 3" using assms(5) by blast
  have "run_state (shiftPart val count 1 ty sz) (ccrState c x n z v k) =
      (take_bit (width sz) (push_bit (unat count) val), ccrState c C n z V C)"
    using assms(5) unfolding shiftPart_def last_out_left [OF assms(1-3)] C_def [symmetric] and_Mask_eq_take_bit
    by (auto simp: asl_loop [OF assms(1,2)] V_def)
  from doShift_part [OF assms(1,4) ty this] show ?thesis
    using assms(5) n0 unfolding shiftSpec_def Let_def afterShift_def
    by (auto simp: uval_push_bit(1) [OF assms(1)] and_Mask_eq_take_bit C_def V_def)
qed

lemma doShift_right:
  assumes "sz \<noteq> sizeZero" "val AND Mask sz = val" "count \<noteq> 0" "ty = 0 \<or> ty = 1"
  shows "run_state (doShift val count 0 ty sz) (ccrState c x n z v k) =
    afterShift c sz (shiftSpec 0 ty sz (unat count) val x)"
proof -
  have n0: "unat count \<noteq> 0" using assms(3) by (simp add: unat_eq_0)
  have ty: "ty = 0 \<or> ty = 1 \<or> ty = 2 \<or> ty = 3" using assms(4) by blast
  define C where "C \<longleftrightarrow> odd ((if ty = 0 then sval sz val else uval sz val) div 2 ^ (unat count - 1))"
  define r where "r = (if ty = 0 then take_bit (width sz) (word_of_int (drop_bit (unat count) (sval sz val)))
    else drop_bit (unat count) val)"
  have part: "run_state (shiftPart val count 0 ty sz) (ccrState c x n z v k) = (r, ccrState c C n z False C)"
    using assms(4) unfolding shiftPart_def last_out_right [OF assms(1-3)] asr_loop [OF assms(1,2)] assms(2)
    by (auto simp: C_def r_def and_Mask_eq_take_bit)
  have b1: "bit (drop_bit (unat count) val) i \<longleftrightarrow> i < width sz \<and> bit (drop_bit (unat count) (uval sz val)) i" for i
    using masked_bit [OF assms(2), of "unat count + i"] by (auto simp: bit_drop_bit_eq bit_uval_iff [OF assms(2)])
  have b2: "bit (drop_bit (unat count) (uval sz val)) i \<Longrightarrow> i < width sz" for i
    using masked_bit [OF assms(2), of "unat count + i"] by (auto simp: bit_drop_bit_eq bit_uval_iff [OF assms(2)])
  note logical = uval_eq_bits [OF b1 b2]
  have masked: "r AND Mask sz = r"
    using logical(2) by (simp add: r_def and_Mask_eq_take_bit)
  have "uval sz (word_of_int k) = take_bit (width sz) k" for k
    using width_le_32 [of sz] by (simp add: uval_def unsigned_of_int min_absorb1)
  then have val: "uval sz r = (if ty = 0 then (sval sz val div 2 ^ unat count) mod 2 ^ width sz
      else uval sz val div 2 ^ unat count)"
    unfolding drop_bit_eq_div [symmetric] take_bit_eq_mod [symmetric] by (simp add: r_def logical(1))
  from doShift_part [OF assms(1,3) ty part masked] show ?thesis
    using assms(4) n0 unfolding shiftSpec_def Let_def afterShift_def val C_def by auto
qed

lemma doShift_rox:
  assumes "sz \<noteq> sizeZero" "val AND Mask sz = val" "count \<noteq> 0" "dir = 0 \<or> dir = 1"
  shows "run_state (doShift val count dir 2 sz) (ccrState c x n z v k) =
    afterShift c sz (shiftSpec dir 2 sz (unat count) val x)"
proof -
  define d where "d = (if dir = 1 then int (unat count) else - int (unat count))"
  have n0: "unat count \<noteq> 0" using assms(3) by (simp add: unat_eq_0)
  have "\<exists>r. run_state (shiftPart val count dir 2 sz) (ccrState c x n z v k) =
      (r, ccrState c (ring sz val x (int (width sz) - d)) n z False (ring sz val x (int (width sz) - d))) \<and>
      (\<forall>i. bit r i \<longleftrightarrow> i < width sz \<and> ring sz val x (int i - d))"
  proof (cases "dir = 1")
    case True
    obtain r where "run_state (foldM (\<lambda>_ r. roxlStep sz r) [0..<unat count] val) (ccrState c x n z v k) =
        (r, ccrState c (ring sz val x (int (width sz) - d)) n z v (ring sz val x (int (width sz) - d)))"
      "\<forall>i. bit r i \<longleftrightarrow> i < width sz \<and> ring sz val x (int i - d)"
      using roxl_loop [OF assms(1,2), of "unat count"] n0 True unfolding d_def by fastforce
    then show ?thesis using True by (auto simp: shiftPart_def)
  next
    case False
    obtain r where run: "run_state (foldM (\<lambda>_ r. roxrStep sz r) [0..<unat count] val) (ccrState c x n z v k) =
        (r, ccrState c (ring sz val x (int (width sz) - d)) n z v (ring sz val x (int (width sz) - d)))"
      and bits: "\<forall>i. bit r i \<longleftrightarrow> i < width sz \<and> ring sz val x (int i - d)"
      using roxr_loop [OF assms(1,2), of "unat count"] n0 False unfolding d_def by fastforce
    have "r AND Mask sz = r" using rox_result(2) [OF assms(1), of r] bits by blast
    then show ?thesis using False run bits by (auto simp: shiftPart_def)
  qed
  then obtain r where part: "run_state (shiftPart val count dir 2 sz) (ccrState c x n z v k) =
      (r, ccrState c (ring sz val x (int (width sz) - d)) n z False (ring sz val x (int (width sz) - d)))"
    and bits: "\<And>i. bit r i \<longleftrightarrow> i < width sz \<and> ring sz val x (int i - d)"
    by blast
  note res = rox_result [OF assms(1) bits]
  from doShift_part [OF assms(1,3) _ part res(2)] show ?thesis
    unfolding shiftSpec_def Let_def afterShift_def res(1) extended_def [symmetric] d_def [symmetric]
    using n0 bit_ring_rot [OF assms(1), of "width sz" d val x] by simp
qed

lemma doShift_rot:
  assumes "sz \<noteq> sizeZero" "val AND Mask sz = val" "count \<noteq> 0" "dir = 0 \<or> dir = 1"
  shows "run_state (doShift val count dir 3 sz) (ccrState c x n z v k) =
    afterShift c sz (shiftSpec dir 3 sz (unat count) val x)"
proof -
  define d where "d = (if dir = 1 then int (unat count) else - int (unat count))"
  define r where "r = (if dir = 1
    then (push_bit (unat (count mod Bits sz)) val OR drop_bit (unat (Bits sz - count mod Bits sz)) val) AND Mask sz
    else (drop_bit (unat (count mod Bits sz)) val OR push_bit (unat (Bits sz - count mod Bits sz)) val) AND Mask sz)"
  define C where "C \<longleftrightarrow> (if dir = 1 then odd (uval sz r) else bit (uval sz r) (width sz - 1))"
  have n0: "unat count \<noteq> 0" using assms(3) by (simp add: unat_eq_0)
  have val: "uval sz r = rot (width sz) d (uval sz val)"
    using rotate_words [OF assms(1,2) refl, of count] by (simp add: r_def d_def)
  have masked: "r AND Mask sz = r" by (simp add: r_def and.assoc)
  have part: "run_state (shiftPart val count dir 3 sz) (ccrState c x n z v k) = (r, ccrState c x n z False C)"
  proof -
    have "r AND 1 \<noteq> 0 \<longleftrightarrow> odd (uval sz r)"
      using bit_uval_iff [OF masked, of 0] by (simp add: bit_0 and_one_eq odd_iff_mod_2_eq_one)
    moreover have "r AND MSB sz \<noteq> 0 \<longleftrightarrow> bit (uval sz r) (width sz - 1)"
      using bit_uval_iff [OF masked] and_MSB [OF assms(1), of r] by simp
    ultimately show ?thesis
      unfolding shiftPart_def Let_def r_def [symmetric] using assms(4) by (auto simp: C_def)
  qed
  from doShift_part [OF assms(1,3) _ part masked] show ?thesis
    unfolding shiftSpec_def Let_def afterShift_def C_def val d_def [symmetric] using n0 by simp
qed

lemma doShift_zero:
  assumes "sz \<noteq> sizeZero" "val AND Mask sz = val"
  shows "run_state (doShift val 0 dir ty sz) (ccrState c x n z v k) = afterShift c sz (shiftSpec dir ty sz 0 val x)"
proof -
  have val: "word_of_int (uval sz val) = val"
    using assms(2) by (metis uval_def and_Mask_eq_take_bit unsigned_take_bit_eq word_of_int_uint)
  show ?thesis
    unfolding doShift_def setFlagsLogical_def shiftSpec_def Let_def afterShift_def sign_test [OF assms(1)] and_Mask_0
    by (simp add: val)
qed

declare run_special [simp]

subsection \<open>Properties\<close>

text \<open>
  C35. The shifts and rotates compute what the specification says, for every width, direction and
  kind and for every count that an instruction can give (0 to 63). Shifting left multiplies by a
  power of two and keeps the low bits, shifting right divides, the arithmetic shift right of the
  signed number; rotates permute the bits, those through the extend flag one bit more. Carry and
  extend are the last bit that leaves; overflow is set by the arithmetic shift left alone, exactly
  when the product does not fit the signed range, also on the way; zero and negative are those of
  the result. Nothing else of the processor changes.
\<close>

theorem doShift_spec:
  assumes "sz \<noteq> sizeZero" "val AND Mask sz = val" "unat count < 64" "ty < 4" "dir < 2"
  shows "run_state (doShift val count dir ty sz) c =
    (case shiftSpec dir ty sz (unat count) val (regSR (reg c) AND flagX \<noteq> 0) of (r, x, v, k) \<Rightarrow>
       (word_of_int r, c\<lparr>reg := (reg c)\<lparr>regSR :=
          withCCR x (2 ^ (width sz - 1) \<le> r) (r = 0) v k (regSR (reg c))\<rparr>\<rparr>))"
proof -
  obtain n z v k where c: "ccrState c (regSR (reg c) AND flagX \<noteq> 0) n z v k = c"
    using ccrState_exists [of c] by blast
  have ty: "ty = 0 \<or> ty = 1 \<or> ty = 2 \<or> ty = 3" and dir: "dir = 0 \<or> dir = 1"
    using assms(4,5) less_8_cases [of ty] less_8_cases [of dir] by (auto simp: word_less_nat_alt)
  have "run_state (doShift val count dir ty sz) (ccrState c (regSR (reg c) AND flagX \<noteq> 0) n z v k) =
      afterShift c sz (shiftSpec dir ty sz (unat count) val (regSR (reg c) AND flagX \<noteq> 0))"
  proof (cases "count = 0")
    case True
    then show ?thesis using doShift_zero [OF assms(1,2)] by simp
  next
    case False
    note run = doShift_left [OF assms(1-3) False] doShift_right [OF assms(1,2) False]
      doShift_rox [OF assms(1,2) False] doShift_rot [OF assms(1,2) False]
    from ty dir show ?thesis by (elim disjE) (simp_all add: run)
  qed
  then show ?thesis unfolding c by (simp add: afterShift_def ccrState_def split_def)
qed

theorem doShift_spec_witness:
  "fst (run_state (doShift 0x40 2 1 0 sizeByte) (zeroCPU testBus (\<lambda>_. 0))) = 0 \<and>
   regSR (reg (snd (run_state (doShift 0x40 2 1 0 sizeByte) (zeroCPU testBus (\<lambda>_. 0))))) = 0x17"
  using doShift_spec [of sizeByte "0x40" 2 0 1 "zeroCPU testBus (\<lambda>_. 0)"]
  by (simp add: shiftSpec_def Let_def uval_def sval_def fits_def zeroCPU_def zeroRegisters_def withCCR_def)

end
