(* ===== verification/Spec_Multi.thy ===== *)
theory Spec_Multi
  imports Spec_Alu M68k_Opcode
begin

text \<open>
  Multi-precision arithmetic. A chain of ADDX or SUBX on long words adds or subtracts numbers of
  any length held in data registers, least significant register first: the extend flag carries
  from limb to limb, and the zero flag tells at the end whether the whole result is zero.
\<close>

subsection \<open>One limb\<close>

datatype xop = XAdd | XSub

fun xhandler :: "xop \<Rightarrow> 'b opFunc" where
  "xhandler XAdd = opADDXreg"
| "xhandler XSub = opSUBXreg"

text \<open>The opcode of \<open>ADDX.L Dy, Dx\<close> or \<open>SUBX.L Dy, Dx\<close>.\<close>

fun xcode :: "xop \<Rightarrow> u16 \<Rightarrow> u16 \<Rightarrow> u16" where
  "xcode XAdd x y = 0xD180 OR push_bit 9 x OR y"
| "xcode XSub x y = 0x9180 OR push_bit 9 x OR y"

fun sign :: "xop \<Rightarrow> int" where
  "sign XAdd = 1"
| "sign XSub = - 1"

definition zero :: "'b CPU \<Rightarrow> bool" where
  "zero c \<longleftrightarrow> regSR (reg c) AND flagZ \<noteq> 0"

definition limbStep :: "xop \<Rightarrow> u16 \<Rightarrow> u16 \<Rightarrow> 'b CPU \<Rightarrow> 'b CPU" where
  "limbStep k x y c = snd (run_state (dispatch (xcode k x y)) (c\<lparr>ir := xcode k x y\<rparr>))"

lemma xcode_fields:
  assumes "x < 8" "y < 8"
  shows "drop_bit 9 (xcode k x y) AND 7 = x" "xcode k x y AND 7 = y" "drop_bit 6 (xcode k x y) AND 3 = 2"
    "unat (drop_bit 9 (xcode k x y)) mod 8 = unat x" "unat (xcode k x y) mod 8 = unat y"
    "sizeEncoding (drop_bit 6 (xcode k x y) AND 3) = sizeLong"
proof -
  show f: "drop_bit 9 (xcode k x y) AND 7 = x" "xcode k x y AND 7 = y" "drop_bit 6 (xcode k x y) AND 3 = 2"
    using assms by (cases k; auto simp: bits16 dest!: lessDs)+
  show "unat (drop_bit 9 (xcode k x y)) mod 8 = unat x" "unat (xcode k x y) mod 8 = unat y"
    using arg_cong [OF f(1), of unat] arg_cong [OF f(2), of unat] by (simp_all del: xcode.simps)
  show "sizeEncoding (drop_bit 6 (xcode k x y) AND 3) = sizeLong" unfolding f(3) by (simp add: sizeEncoding_def)
qed

lemma dispatch_xcode:
  assumes "x < 8" "y < 8"
  shows "dispatch (xcode k x y) = (xhandler k :: 'a opFunc)"
proof -
  have r: "x \<in> set (range16 0 8)" "y \<in> set (range16 0 8)" "2 \<in> set (range16 0 3)" using assms by auto
  have "0xD100 OR push_bit 9 x OR push_bit 6 2 OR y = xcode XAdd x y" "0x9100 OR push_bit 9 x OR push_bit 6 2 OR y = xcode XSub x y"
    by (auto simp: bits16)
  then have "(xcode XAdd x y, opADDXreg) \<in> set (registerADDX :: 'a stores)"
    "(xcode XSub x y, opSUBXreg) \<in> set (registerSUBX :: 'a stores)"
    unfolding registerADDX_def registerSUBX_def set_concat set_map
    using r by (simp_all del: set_range16 xcode.simps)
      (rule bexI [of _ x], rule bexI [of _ y], rule bexI [of _ 2], simp_all del: set_range16 xcode.simps)+
  then have "(xcode k x y, xhandler k) \<in> set (all_stores :: 'a stores)"
    by (cases k) (simp_all add: all_stores_def init_arith_def)
  then have "decode (xcode k x y) = Some (xhandler k :: 'a opFunc)" by (simp add: in_all_stores)
  then show ?thesis by (simp add: dispatch_def opcodeTable_eq_decode)
qed

lemma withCCR_XZ:
  "withCCR x n z v cc sr AND flagX \<noteq> 0 \<longleftrightarrow> x" "withCCR x n z v cc sr AND flagZ \<noteq> 0 \<longleftrightarrow> z"
  by (simp_all add: withCCR_def bits16)

lemma long_word: "x AND Mask sizeLong = x" "y AND NOT (Mask sizeLong) = 0" "uval sizeLong x = uint x"
proof -
  show "x AND Mask sizeLong = x" "y AND NOT (Mask sizeLong) = 0" by (simp_all add: bits32)
  have "uint x < 2 ^ LENGTH(32)" by (rule unsigned_less)
  then show "uval sizeLong x = uint x" by (simp add: uval_def take_bit_int_eq_self)
qed

text \<open>The two handlers on long words, with the flags in terms of \<open>addCCR\<close> and \<open>subCCR\<close>.\<close>

definition sticky :: "u16 \<Rightarrow> u32 \<Rightarrow> u16 \<Rightarrow> u16" where
  "sticky old r sr = (if r = 0 then (sr AND NOT flagZ) OR (old AND flagZ) else sr)"

lemma run_keepZ:
  "run_state (keepZ (old AND flagZ) r sizeLong) c =
    ((), c\<lparr>reg := (reg c)\<lparr>regSR := sticky old r (regSR (reg c))\<rparr>\<rparr>)"
  unfolding keepZ_def long_word by (simp add: sticky_def)

lemma sticky_XZ:
  "sticky old r (withCCR x n z v cc sr) AND flagX \<noteq> 0 \<longleftrightarrow> x"
  "z = (r = 0) \<Longrightarrow> sticky old r (withCCR x n z v cc sr) AND flagZ \<noteq> 0 \<longleftrightarrow> old AND flagZ \<noteq> 0 \<and> r = 0"
  by (auto simp: sticky_def withCCR_def bits16)

lemma run_storeD_long:
  "i < length (regD (reg c)) \<Longrightarrow> run_state (storeD i sizeLong r) c =
     ((), c\<lparr>reg := (reg c)\<lparr>regD := (regD (reg c))[i := r]\<rparr>\<rparr>)"
  unfolding storeD_def Let_def long_word by simp

lemma limbStep_add:
  assumes "wf_cpu c" "x < 8" "y < 8"
  defines "s \<equiv> regD (reg c) ! unat y" and "d \<equiv> regD (reg c) ! unat x" and "e \<equiv> word_of_int (extendIn c)"
  shows "limbStep XAdd x y c = c\<lparr>ir := xcode XAdd x y,
      reg := (reg c)\<lparr>regSR := sticky (regSR (reg c)) (s + d + e) (addCCR sizeLong s d (extendIn c) (regSR (reg c))),
        regD := (regD (reg c))[unat x := s + d + e]\<rparr>, cycles := cycles c + 8\<rparr>"
proof -
  have l: "length (regD (reg c)) = 8" "unat x < 8" "unat y < 8"
    using assms(1-3) by (simp_all add: wf_cpu_def word_less_nat_alt)
  have e: "e \<le> 1" "uint e = extendIn c" using extendIn_cases [of c] by (auto simp: e_def)
  have f: "run_state (setFlagsAdd s d (s + d + e) sizeLong) c' =
      ((), c'\<lparr>reg := (reg c')\<lparr>regSR := addCCR sizeLong s d (extendIn c) (regSR (reg c'))\<rparr>\<rparr>)" for c' :: "'a CPU"
    using setFlagsAdd_run [of sizeLong s d e c'] e by (simp add: immediate_masks)
  have x: "run_state extendFlag (c\<lparr>ir := i\<rparr>) = (e, c\<lparr>ir := i\<rparr>)" for i
    by (simp add: extendFlag_run e_def extendIn_def)
  show ?thesis
    unfolding limbStep_def dispatch_xcode [OF assms(2,3)] xhandler.simps opADDXreg_def
    by (simp add: xcode_fields(4-6) [OF assms(2,3)] Let_def x long_word f run_keepZ run_storeD_long l
      s_def [symmetric] d_def [symmetric] add.commute [of d s]
      del: xcode.simps Mask_simps)
qed

lemma limbStep_sub:
  assumes "wf_cpu c" "x < 8" "y < 8"
  defines "s \<equiv> regD (reg c) ! unat y" and "d \<equiv> regD (reg c) ! unat x" and "e \<equiv> word_of_int (extendIn c)"
  shows "limbStep XSub x y c = c\<lparr>ir := xcode XSub x y,
      reg := (reg c)\<lparr>regSR := sticky (regSR (reg c)) (d - s - e) (subCCR sizeLong s d (extendIn c) (regSR (reg c))),
        regD := (regD (reg c))[unat x := d - s - e]\<rparr>, cycles := cycles c + 8\<rparr>"
proof -
  have l: "length (regD (reg c)) = 8" "unat x < 8" "unat y < 8"
    using assms(1-3) by (simp_all add: wf_cpu_def word_less_nat_alt)
  have e: "e \<le> 1" "uint e = extendIn c" using extendIn_cases [of c] by (auto simp: e_def)
  have f: "run_state (setFlagsSub s d (d - s - e) sizeLong) c' =
      ((), c'\<lparr>reg := (reg c')\<lparr>regSR := subCCR sizeLong s d (extendIn c) (regSR (reg c'))\<rparr>\<rparr>)" for c' :: "'a CPU"
    using setFlagsSub_run [of sizeLong e s d c'] e by simp
  have x: "run_state extendFlag (c\<lparr>ir := i\<rparr>) = (e, c\<lparr>ir := i\<rparr>)" for i
    by (simp add: extendFlag_run e_def extendIn_def)
  show ?thesis
    unfolding limbStep_def dispatch_xcode [OF assms(2,3)] xhandler.simps opSUBXreg_def
    by (simp add: xcode_fields(4-6) [OF assms(2,3)] Let_def x long_word f run_keepZ run_storeD_long l
      s_def [symmetric] d_def [symmetric]
      del: xcode.simps Mask_simps)
qed

lemma long_carry:
  fixes s d :: u32
  assumes "e = 0 \<or> e = 1"
  shows "uint (s + d + word_of_int e) = uint d + (uint s + e) - 2 ^ 32 * (if 2 ^ 32 \<le> uint s + uint d + e then 1 else 0)"
    "s + d + word_of_int e = 0 \<longleftrightarrow> take_bit 32 (uint s + uint d + e) = 0"
    "uint (d - s - word_of_int e) = uint d - (uint s + e) + 2 ^ 32 * (if uint d - uint s - e < 0 then 1 else 0)"
    "d - s - word_of_int e = 0 \<longleftrightarrow> take_bit 32 (uint d - uint s - e) = 0"
proof -
  define A D where "A = uint s" and "D = uint d"
  have "uint s < 2 ^ LENGTH(32)" "uint d < 2 ^ LENGTH(32)" by (rule unsigned_less)+
  then have b: "0 \<le> A" "A < 2 ^ 32" "0 \<le> D" "D < 2 ^ 32" by (simp_all add: A_def D_def)
  have a: "uint (s + d + word_of_int e) = (A + D + e) mod 2 ^ 32"
    "uint (d - s - word_of_int e) = (D - A - e) mod 2 ^ 32"
    by (simp_all add: A_def D_def uint_word_ariths uint_word_of_int mod_simps)
  have m: "(A + D + e) mod 2 ^ 32 = (if A + D + e < 2 ^ 32 then A + D + e else A + D + e - 2 ^ 32)"
    using b assms by (intro mod_carry) auto
  have n: "(D - A - e) mod 2 ^ 32 = (if 0 \<le> D - A - e then D - A - e else D - A - e + 2 ^ 32)"
    using b assms by (intro mod_borrow) auto
  show "uint (s + d + word_of_int e) = uint d + (uint s + e) - 2 ^ 32 * (if 2 ^ 32 \<le> uint s + uint d + e then 1 else 0)"
    unfolding a m A_def [symmetric] D_def [symmetric] by simp
  show "uint (d - s - word_of_int e) = uint d - (uint s + e) + 2 ^ 32 * (if uint d - uint s - e < 0 then 1 else 0)"
    unfolding a n A_def [symmetric] D_def [symmetric] by simp
  show "s + d + word_of_int e = 0 \<longleftrightarrow> take_bit 32 (uint s + uint d + e) = 0"
    "d - s - word_of_int e = 0 \<longleftrightarrow> take_bit 32 (uint d - uint s - e) = 0"
    unfolding take_bit_eq_mod A_def [symmetric] D_def [symmetric] a [symmetric] by (simp_all add: unsigned_eq_0_iff)
qed

lemma limbStep_run:
  assumes "wf_cpu c" "x < 8" "y < 8"
  shows "\<exists>r sr. limbStep k x y c = c\<lparr>ir := xcode k x y,
      reg := (reg c)\<lparr>regSR := sr, regD := (regD (reg c))[unat x := r]\<rparr>, cycles := cycles c + 8\<rparr> \<and>
    uint r = uint (regD (reg c) ! unat x) + sign k * (uint (regD (reg c) ! unat y) + extendIn c)
      - sign k * 2 ^ 32 * (if sr AND flagX \<noteq> 0 then 1 else 0) \<and>
    (sr AND flagZ \<noteq> 0 \<longleftrightarrow> zero c \<and> r = 0)"
proof (cases k)
  case XAdd
  note c = long_carry(1,2) [OF extendIn_cases [of c], of "regD (reg c) ! unat y" "regD (reg c) ! unat x"]
  show ?thesis
    unfolding XAdd limbStep_add [OF assms] addCCR_def Let_def long_word width_simps(3) c(2) [symmetric]
    by (intro exI conjI, rule refl)
      (unfold sticky_XZ(1) sticky_XZ(2) [OF refl] zero_def, simp_all add: c(1))
next
  case XSub
  note c = long_carry(3,4) [OF extendIn_cases [of c], where s = "regD (reg c) ! unat y" and d = "regD (reg c) ! unat x"]
  show ?thesis
    unfolding XSub limbStep_sub [OF assms] subCCR_def Let_def long_word width_simps(3) c(2) [symmetric]
    by (intro exI conjI, rule refl)
      (unfold sticky_XZ(1) sticky_XZ(2) [OF refl] zero_def, simp_all add: c(1))
qed

subsection \<open>Chains of limbs\<close>

fun chain :: "xop \<Rightarrow> (u16 \<times> u16) list \<Rightarrow> 'b CPU \<Rightarrow> 'b CPU" where
  "chain k [] c = c"
| "chain k ((x, y) # ps) c = chain k ps (limbStep k x y c)"

text \<open>The number held in a list of registers, least significant first.\<close>

fun limbs :: "u32 list \<Rightarrow> u16 list \<Rightarrow> int" where
  "limbs ds [] = 0"
| "limbs ds (x # xs) = uint (ds ! unat x) + 2 ^ 32 * limbs ds xs"

lemma limbs_bounds: "0 \<le> limbs ds xs \<and> limbs ds xs < 2 ^ (32 * length xs)"
proof (induction xs)
  case (Cons x xs)
  have "uint (ds ! unat x) < 2 ^ LENGTH(32)" by (rule unsigned_less)
  then have u: "uint (ds ! unat x) < 2 ^ 32" by simp
  have "2 ^ 32 * (limbs ds xs + 1) \<le> (2 :: int) ^ 32 * 2 ^ (32 * length xs)"
    using Cons.IH by (intro mult_left_mono) auto
  then have "2 ^ 32 * limbs ds xs + 2 ^ 32 \<le> (2 :: int) ^ (32 * length (x # xs))"
    by (simp add: power_add distrib_left)
  then show ?case using u Cons.IH by simp
qed simp

lemma limbs_cong: "(\<And>x. x \<in> set xs \<Longrightarrow> ds ! unat x = es ! unat x) \<Longrightarrow> limbs ds xs = limbs es xs"
  by (induction xs) auto

lemma limbs_update: "x \<notin> set xs \<Longrightarrow> limbs (ds[unat x := r]) xs = limbs ds xs"
proof (rule limbs_cong)
  fix y assume "x \<notin> set xs" "y \<in> set xs"
  then have "x \<noteq> y" by auto
  then have "unat x \<noteq> unat y" by (simp add: word_unat_eq_iff)
  then show "ds[unat x := r] ! unat y = ds ! unat y" by simp
qed

lemma limbStep_effect:
  assumes "wf_cpu c" "x < 8" "y < 8"
  shows "\<exists>r. uint r = uint (regD (reg c) ! unat x) + sign k * (uint (regD (reg c) ! unat y) + extendIn c)
      - sign k * 2 ^ 32 * extendIn (limbStep k x y c) \<and>
    (zero (limbStep k x y c) \<longleftrightarrow> zero c \<and> r = 0) \<and> wf_cpu (limbStep k x y c) \<and>
    regD (reg (limbStep k x y c)) = (regD (reg c))[unat x := r] \<and>
    regA (reg (limbStep k x y c)) = regA (reg c) \<and> busState (limbStep k x y c) = busState c"
proof -
  obtain r sr where l: "limbStep k x y c = c\<lparr>ir := xcode k x y,
      reg := (reg c)\<lparr>regSR := sr, regD := (regD (reg c))[unat x := r]\<rparr>, cycles := cycles c + 8\<rparr>"
    and r: "uint r = uint (regD (reg c) ! unat x) + sign k * (uint (regD (reg c) ! unat y) + extendIn c)
      - sign k * 2 ^ 32 * (if sr AND flagX \<noteq> 0 then 1 else 0)" "sr AND flagZ \<noteq> 0 \<longleftrightarrow> zero c \<and> r = 0"
    using limbStep_run [OF assms] by blast
  have "extendIn (limbStep k x y c) = (if sr AND flagX \<noteq> 0 then 1 else 0)"
    by (simp add: l extendIn_def del: xcode.simps)
  then show ?thesis
    using assms(1) r by (intro exI [of _ r]) (simp add: l wf_cpu_def zero_def del: xcode.simps)
qed

lemma limbs_zero: "uint r + 2 ^ 32 * limbs ds xs = 0 \<longleftrightarrow> r = 0 \<and> limbs ds xs = 0"
  using limbs_bounds [of ds xs] unsigned_greater_eq [of r]
  by (auto simp: add_nonneg_eq_0_iff unsigned_eq_0_iff)

lemma chain_run:
  assumes "wf_cpu c" "\<forall>(x, y) \<in> set ps. x < 8 \<and> y < 8" "distinct (map fst ps)"
    and "set (map fst ps) \<inter> set (map snd ps) = {}"
  shows "limbs (regD (reg (chain k ps c))) (map fst ps) = limbs (regD (reg c)) (map fst ps) +
      sign k * (limbs (regD (reg c)) (map snd ps) + extendIn c) - sign k * 2 ^ (32 * length ps) * extendIn (chain k ps c) \<and>
    (zero (chain k ps c) \<longleftrightarrow> zero c \<and> limbs (regD (reg (chain k ps c))) (map fst ps) = 0) \<and>
    (\<forall>x. x \<notin> set (map fst ps) \<longrightarrow> regD (reg (chain k ps c)) ! unat x = regD (reg c) ! unat x) \<and>
    regA (reg (chain k ps c)) = regA (reg c) \<and> busState (chain k ps c) = busState c"
  using assms
proof (induction ps arbitrary: c)
  case Nil
  then show ?case by simp
next
  case (Cons p ps)
  obtain x y where p: "p = (x, y)" by fastforce
  have xy: "x < 8" "y < 8" "x \<notin> set (map fst ps)" "x \<notin> set (map snd ps)" "x \<noteq> y"
    using Cons.prems(2-4) by (auto simp: p)
  let ?d = "limbStep k x y c"
  obtain r where r: "uint r = uint (regD (reg c) ! unat x) + sign k * (uint (regD (reg c) ! unat y) + extendIn c)
      - sign k * 2 ^ 32 * extendIn ?d"
    and d: "zero ?d \<longleftrightarrow> zero c \<and> r = 0" "wf_cpu ?d" "regD (reg ?d) = (regD (reg c))[unat x := r]"
      "regA (reg ?d) = regA (reg c)" "busState ?d = busState c"
    using limbStep_effect [OF Cons.prems(1) xy(1,2)] by blast
  let ?c' = "chain k ps ?d"
  have ih: "limbs (regD (reg ?c')) (map fst ps) = limbs (regD (reg ?d)) (map fst ps) +
      sign k * (limbs (regD (reg ?d)) (map snd ps) + extendIn ?d) - sign k * 2 ^ (32 * length ps) * extendIn ?c'"
    "zero ?c' \<longleftrightarrow> zero ?d \<and> limbs (regD (reg ?c')) (map fst ps) = 0"
    "\<forall>x. x \<notin> set (map fst ps) \<longrightarrow> regD (reg ?c') ! unat x = regD (reg ?d) ! unat x"
    "regA (reg ?c') = regA (reg ?d)" "busState ?c' = busState ?d"
    using Cons.IH [OF d(2)] Cons.prems(2-4) by auto
  have lx: "unat x < length (regD (reg c))"
    using xy(1) Cons.prems(1) by (simp add: wf_cpu_def word_less_nat_alt)
  have x: "regD (reg ?c') ! unat x = r" using ih(3) xy(3) lx by (simp add: d(3))
  have u: "limbs (regD (reg ?d)) (map fst ps) = limbs (regD (reg c)) (map fst ps)"
    "limbs (regD (reg ?d)) (map snd ps) = limbs (regD (reg c)) (map snd ps)"
    unfolding d(3) using limbs_update [OF xy(3)] limbs_update [OF xy(4)] .
  have "uint r + 2 ^ 32 * limbs (regD (reg ?c')) (map fst ps) =
      uint (regD (reg c) ! unat x) + 2 ^ 32 * limbs (regD (reg c)) (map fst ps) +
      sign k * (uint (regD (reg c) ! unat y) + 2 ^ 32 * limbs (regD (reg c)) (map snd ps) + extendIn c) -
      sign k * (2 ^ 32 * 2 ^ (32 * length ps)) * extendIn ?c'"
    unfolding ih(1) u r by (simp add: algebra_simps)
  moreover have "(2 :: int) ^ (32 * length (p # ps)) = 2 ^ 32 * 2 ^ (32 * length ps)"
    by (simp add: power_add)
  moreover have "regD (reg ?c') ! unat z = regD (reg c) ! unat z" if "z \<noteq> x" "z \<notin> set (map fst ps)" for z
    using ih(3) that by (simp add: d(3) word_unat_eq_iff)
  ultimately show ?case
    using ih(2,4,5) d(1,4,5) x limbs_zero [of r "regD (reg ?c')" "map fst ps"] by (simp add: p)
qed

text \<open>
  C34. ADDX and SUBX compute with numbers of several long words. For any list of pairs of data registers, the
  destinations distinct and different from the sources, executing ADDX.L or SUBX.L on the pairs
  from the least significant one adds the number in the sources and the extend flag to, or
  subtracts them from, the number in the destinations: the new number lies between 0 and
  \<open>2 ^ (32 n)\<close>, and differs from the exact sum or difference by \<open>2 ^ (32 n)\<close> times the extend flag at
  the end. The zero flag is set at the end exactly if it was set before and the whole result is
  zero, and no other register changes.
\<close>

theorem multi_precision:
  assumes "wf_cpu c" "\<forall>(x, y) \<in> set ps. x < 8 \<and> y < 8" "distinct (map fst ps)"
    and "set (map fst ps) \<inter> set (map snd ps) = {}" "c' = chain k ps c"
  shows "limbs (regD (reg c')) (map fst ps) = limbs (regD (reg c)) (map fst ps) +
      sign k * (limbs (regD (reg c)) (map snd ps) + extendIn c) - sign k * 2 ^ (32 * length ps) * extendIn c' \<and>
    0 \<le> limbs (regD (reg c')) (map fst ps) \<and> limbs (regD (reg c')) (map fst ps) < 2 ^ (32 * length ps) \<and>
    (zero c' \<longleftrightarrow> zero c \<and> limbs (regD (reg c')) (map fst ps) = 0) \<and>
    (\<forall>x. x \<notin> set (map fst ps) \<longrightarrow> regD (reg c') ! unat x = regD (reg c) ! unat x) \<and>
    regA (reg c') = regA (reg c) \<and> busState c' = busState c"
  using chain_run [OF assms(1-4), of k] limbs_bounds [of "regD (reg c')" "map fst ps"]
  unfolding assms(5) by simp

text \<open>A 64-bit addition with a carry between the limbs.\<close>

definition wideCPU :: "testMem CPU" where
  "wideCPU = (zeroCPU testBus (\<lambda>_. 0))\<lparr>reg := zeroRegisters\<lparr>regD := [0xFFFFFFFF, 1, 1, 0, 0, 0, 0, 0]\<rparr>\<rparr>"

theorem multi_precision_witness:
  "limbs (regD (reg (chain XAdd [(0, 2), (1, 3)] wideCPU))) [0, 1] = 0x200000000"
proof -
  let ?c' = "chain XAdd [(0, 2), (1, 3)] wideCPU"
  have "wf_cpu wideCPU" "extendIn wideCPU = 0" "regD (reg wideCPU) = [0xFFFFFFFF, 1, 1, 0, 0, 0, 0, 0]"
    by (simp_all add: wideCPU_def wf_cpu_def zeroCPU_def zeroRegisters_def extendIn_def)
  moreover from this have "limbs (regD (reg wideCPU)) [0, 1] = 0x1FFFFFFFF" "limbs (regD (reg wideCPU)) [2, 3] = 1"
    by simp_all
  ultimately show ?thesis
    using multi_precision [of wideCPU "[(0, 2), (1, 3)]" ?c' XAdd] extendIn_cases [of ?c']
    by (auto simp del: chain.simps limbs.simps)
qed

end
