(* ===== verification/M68k_Memory.thy ===== *)
theory M68k_Memory
  imports M68k_TestBus
begin

text \<open>
  Buses that behave like memory. The locale \<open>ram_bus\<close> is the contract of a bus whose addresses
  are backed by bytes: reads do not change it and return the bytes in big-endian order, writes
  replace them. The CPU's accesses, its stack and its instruction fetch are then reads and
  updates of a function from addresses to bytes. The bus of the repository's tests satisfies the
  contract.
\<close>

subsection \<open>Big-endian access to bytes\<close>

type_synonym bytes = "u32 \<Rightarrow> u8"

definition rd16 :: "bytes \<Rightarrow> u32 \<Rightarrow> u16" where
  "rd16 m a = push_bit 8 (ucast (m a)) OR ucast (m (a + 1))"

definition rd32 :: "bytes \<Rightarrow> u32 \<Rightarrow> u32" where
  "rd32 m a = push_bit 24 (ucast (m a)) OR push_bit 16 (ucast (m (a + 1))) OR
     push_bit 8 (ucast (m (a + 2))) OR ucast (m (a + 3))"

definition wr16 :: "bytes \<Rightarrow> u32 \<Rightarrow> u16 \<Rightarrow> bytes" where
  "wr16 m a v = m(a := ucast (drop_bit 8 v), a + 1 := ucast v)"

definition wr32 :: "bytes \<Rightarrow> u32 \<Rightarrow> u32 \<Rightarrow> bytes" where
  "wr32 m a v = m(a := ucast (drop_bit 24 v), a + 1 := ucast (drop_bit 16 v),
     a + 2 := ucast (drop_bit 8 v), a + 3 := ucast v)"

lemma rd16_wr16 [simp]: "rd16 (wr16 m a v) a = v"
  by (simp add: rd16_def wr16_def bits16)

lemma rd32_wr32 [simp]: "rd32 (wr32 m a v) a = v"
proof -
  have "push_bit 24 (ucast (ucast (drop_bit 24 v) :: u8)) OR push_bit 16 (ucast (ucast (drop_bit 16 v) :: u8)) OR
      push_bit 8 (ucast (ucast (drop_bit 8 v) :: u8)) OR ucast (ucast v :: u8) = v"
    by (simp add: bits32)
  then show ?thesis by (simp add: rd32_def wr32_def)
qed

text \<open>An access is not affected by a write elsewhere.\<close>

definition apart :: "u32 \<Rightarrow> nat \<Rightarrow> u32 \<Rightarrow> nat \<Rightarrow> bool" where
  "apart a n b k \<longleftrightarrow> (\<forall>i<n. \<forall>j<k. a + of_nat i \<noteq> b + of_nat j)"

lemma all_less_2: "(\<forall>n<2. P n) \<longleftrightarrow> P 0 \<and> P (1::nat)"
  by (simp add: numeral_eq_Suc All_less_Suc conj_ac)

lemma all_less_4: "(\<forall>n<4. P n) \<longleftrightarrow> P 0 \<and> P 1 \<and> P 2 \<and> P (3::nat)"
  by (simp add: numeral_eq_Suc All_less_Suc conj_ac)

lemmas apart_bytes = apart_def all_less_2 all_less_4

lemma rd_wr_apart [simp]:
  "apart a 2 b 2 \<Longrightarrow> rd16 (wr16 m b v) a = rd16 m a"
  "apart a 2 b 4 \<Longrightarrow> rd16 (wr32 m b w) a = rd16 m a"
  "apart a 4 b 2 \<Longrightarrow> rd32 (wr16 m b v) a = rd32 m a"
  "apart a 4 b 4 \<Longrightarrow> rd32 (wr32 m b w) a = rd32 m a"
  by (simp_all add: apart_bytes rd16_def rd32_def wr16_def wr32_def)

lemma unat_add_small: "unat a + k < 2 ^ 32 \<Longrightarrow> unat ((a :: u32) + of_nat k) = unat a + k"
proof -
  assume k: "unat a + k < 2 ^ 32"
  have "a + of_nat k = of_nat (unat a + k)" by simp
  then show ?thesis using k by (simp only: unat_of_nat) (simp add: take_bit_nat_eq_self)
qed

lemma apart_below:
  assumes "unat a + n \<le> unat b" "unat b + k \<le> 2 ^ 32"
  shows "apart a n b k" "apart b k a n"
proof -
  have "a + of_nat i \<noteq> b + of_nat j" if "i < n" "j < k" for i j
  proof
    assume "a + of_nat i = b + of_nat j"
    then have "unat a + i = unat b + j"
      using unat_add_small [of a i] unat_add_small [of b j] assms that by simp
    then show False using assms(1) that by simp
  qed
  then show "apart a n b k" "apart b k a n" unfolding apart_def by metis+
qed

text \<open>The block of \<open>k\<close> bytes at \<open>d\<close> does not meet the \<open>l\<close> bytes at \<open>a\<close>.\<close>

definition outside :: "nat \<Rightarrow> u32 \<Rightarrow> nat \<Rightarrow> u32 \<Rightarrow> bool" where
  "outside k d l a \<longleftrightarrow> unat d + k \<le> unat a \<or> unat a + l \<le> unat d"

lemma outside_apart: "outside k d l a \<Longrightarrow> unat a + l \<le> 2 ^ 32 \<Longrightarrow> unat d + k \<le> 2 ^ 32 \<Longrightarrow> apart a l d k"
  unfolding outside_def by (auto intro: apart_below)

lemma bus_address: "a \<le> 0xFFFFFF \<Longrightarrow> a AND 0xFFFFFF = (a :: u32)"
proof -
  assume "a \<le> 0xFFFFFF"
  then have "take_bit 24 a = a"
    by (simp add: word_unat_eq_iff unsigned_take_bit_eq take_bit_nat_eq_self word_le_nat_alt)
  then show ?thesis by (simp add: take_bit_eq_mask mask_eq_exp_minus_1)
qed

lemma bus_address_long: "a \<le> 0xFFFFFC \<Longrightarrow> a AND 0xFFFFFF = (a :: u32)"
  by (rule bus_address) (rule order_trans, assumption, simp)

subsection \<open>The contract\<close>

locale ram_bus =
  fixes B :: "'b Bus" and mem :: "'b \<Rightarrow> bytes"
  assumes ram_read8: "a \<le> 0xFFFFFF \<Longrightarrow> Read8 B s a = (mem s a, s)"
    and ram_read16: "a \<le> 0xFFFFFF \<Longrightarrow> a AND 1 = 0 \<Longrightarrow> Read16 B s a = (rd16 (mem s) a, s)"
    and ram_read32: "a \<le> 0xFFFFFC \<Longrightarrow> a AND 1 = 0 \<Longrightarrow> Read32 B s a = (rd32 (mem s) a, s)"
    and ram_write8: "a \<le> 0xFFFFFF \<Longrightarrow> mem (Write8 B s a v8) = (mem s)(a := v8)"
    and ram_write16: "a \<le> 0xFFFFFF \<Longrightarrow> a AND 1 = 0 \<Longrightarrow> mem (Write16 B s a v16) = wr16 (mem s) a v16"
    and ram_write32: "a \<le> 0xFFFFFC \<Longrightarrow> a AND 1 = 0 \<Longrightarrow> mem (Write32 B s a v32) = wr32 (mem s) a v32"
begin

lemma run_readWord:
  assumes "bus c = B" "\<not> halted c" "a \<le> 0xFFFFFF" "a AND 1 = 0"
  shows "run_state (readBus sizeWord a) c = (ucast (rd16 (mem (busState c)) a), c)"
  using assms by (simp add: readBus_def busRead16_def bus_address ram_read16)

lemma run_readLong:
  assumes "bus c = B" "\<not> halted c" "a \<le> 0xFFFFFC" "a AND 1 = 0"
  shows "run_state (readBus sizeLong a) c = (rd32 (mem (busState c)) a, c)"
  using assms by (simp add: readBus_def busRead32_def bus_address_long ram_read32)

lemma run_writeWord:
  assumes "bus c = B" "\<not> halted c" "a \<le> 0xFFFFFF" "a AND 1 = 0"
  shows "run_state (writeBus sizeWord a (ucast v)) c = ((), c\<lparr>busState := Write16 B (busState c) a v\<rparr>)"
proof -
  have "ucast ((ucast v :: u32) AND 0xFFFF) = v" by (simp add: bits16)
  then show ?thesis using assms by (simp add: writeBus_def busWrite16_def bus_address)
qed

lemma run_writeLong:
  assumes "bus c = B" "\<not> halted c" "a \<le> 0xFFFFFC" "a AND 1 = 0"
  shows "run_state (writeBus sizeLong a v) c = ((), c\<lparr>busState := Write32 B (busState c) a v\<rparr>)"
proof -
  have "v AND 0xFFFFFFFF = v" by (simp add: bits32)
  then show ?thesis using assms by (simp add: writeBus_def busWrite32_def bus_address_long)
qed

lemma run_fetch:
  assumes "bus c = B" "\<not> halted c" "regPC (reg c) \<le> 0xFFFFFF" "regPC (reg c) AND 1 = 0"
  shows "run_state fetchPC c =
    (rd16 (mem (busState c)) (regPC (reg c)), c\<lparr>reg := (reg c)\<lparr>regPC := regPC (reg c) + 2\<rparr>\<rparr>)"
proof -
  have "ucast (ucast w :: u32) = (w :: u16)" for w by (simp add: bits16)
  then show ?thesis using assms by (simp add: fetchPC_def run_readWord)
qed

end

subsection \<open>The stack\<close>

text \<open>There is room for \<open>k\<close> bytes below the even address \<open>a\<close>, outside the 1 KB of the vector table.\<close>

definition stack_ok :: "nat \<Rightarrow> u32 \<Rightarrow> bool" where
  "stack_ok k a \<longleftrightarrow> a AND 1 = 0 \<and> 1024 + k \<le> unat a \<and> a \<le> 0x1000000"

lemma even_diff: "(a :: u32) AND 1 = 0 \<Longrightarrow> even d \<Longrightarrow> (a - of_nat d) AND 1 = 0"
  by (simp add: and_one_eq flip: even_iff_mod_2_eq_zero)

lemma unat_diff: "d \<le> unat a \<Longrightarrow> unat (a - of_nat d :: u32) = unat a - d"
proof -
  assume d: "d \<le> unat a"
  have "unat a < 2 ^ LENGTH(32)" by (rule unsigned_less)
  then have "d < 2 ^ 32" using d by simp
  then have "unat (of_nat d :: u32) = d" by (simp add: unat_of_nat take_bit_nat_eq_self)
  then show ?thesis using d by (simp add: unat_sub_if')
qed

lemma stack_okD:
  assumes "stack_ok k a" "d \<le> k" "even d"
  shows "(a - of_nat d) AND 1 = 0" "unat (a - of_nat d) = unat a - d" "2 \<le> d \<Longrightarrow> a - of_nat d \<le> 0xFFFFFF"
    "4 \<le> d \<Longrightarrow> a - of_nat d \<le> 0xFFFFFC"
proof -
  show *: "unat (a - of_nat d) = unat a - d" using assms by (intro unat_diff) (simp add: stack_ok_def)
  show "(a - of_nat d) AND 1 = 0" using assms by (intro even_diff) (simp_all add: stack_ok_def)
  show "2 \<le> d \<Longrightarrow> a - of_nat d \<le> 0xFFFFFF" "4 \<le> d \<Longrightarrow> a - of_nat d \<le> 0xFFFFFC"
    using assms unfolding word_le_nat_alt * by (auto simp: stack_ok_def word_le_nat_alt)
qed

interpretation test_ram: ram_bus testBus "\<lambda>m. m"
  by unfold_locales
    (simp_all add: testBus_def tb_Read8_def tb_Read16_def tb_Read32_def tb_Write8_def tb_Write16_def
      tb_Write32_def Let_def rd16_def rd32_def wr16_def wr32_def
      bus_address bus_address_long)

text \<open>The example machine of the witnesses: a program at \<open>pc\<close> with both stacks set up.\<close>

definition ramCPU :: "testMem \<Rightarrow> u32 \<Rightarrow> u16 \<Rightarrow> testMem CPU" where
  "ramCPU m pc sr = (zeroCPU testBus m)\<lparr>reg := zeroRegisters\<lparr>regA := [0, 0, 0, 0, 0, 0, 0, 0x3000],
     regPC := pc, regSR := sr, regUSP := 0x4000, regSSP := 0x2000\<rparr>\<rparr>"

lemma ramCPU_simps [simp]:
  "reg (ramCPU m pc sr) = zeroRegisters\<lparr>regA := [0, 0, 0, 0, 0, 0, 0, 0x3000],
     regPC := pc, regSR := sr, regUSP := 0x4000, regSSP := 0x2000\<rparr>"
  "bus (ramCPU m pc sr) = testBus" "busState (ramCPU m pc sr) = m" "halted (ramCPU m pc sr) = False"
  "stopped (ramCPU m pc sr) = False" "cycles (ramCPU m pc sr) = 0" "pendingIPL (ramCPU m pc sr) = 0"
  "pendingVec (ramCPU m pc sr) = None" "prevPC (ramCPU m pc sr) = 0" "panicked (ramCPU m pc sr) = False"
  by (simp_all add: ramCPU_def zeroCPU_def)

end
