(* ===== verification/Spec_Rmw.thy ===== *)
theory Spec_Rmw
  imports Spec_Alu M68k_Memory
begin

text \<open>
  Instructions that combine an operand with a destination in place: ADD, SUB, AND, OR and EOR from
  a data register to memory, and their immediate forms to a data register or to memory. On a bus
  that behaves like memory they replace the addressed bytes, and only those, by the number the
  specification computes, with the condition codes of the integer operation and the tabulated
  time.
\<close>

subsection \<open>Operands in memory\<close>

fun peek :: "msize \<Rightarrow> bytes \<Rightarrow> u32 \<Rightarrow> u32" where
  "peek sizeByte m a = ucast (m a)"
| "peek sizeWord m a = ucast (rd16 m a)"
| "peek sizeLong m a = rd32 m a"
| "peek sizeZero m a = 0"

fun poke :: "msize \<Rightarrow> bytes \<Rightarrow> u32 \<Rightarrow> u32 \<Rightarrow> bytes" where
  "poke sizeByte m a v = m(a := ucast v)"
| "poke sizeWord m a v = wr16 m a (ucast v)"
| "poke sizeLong m a v = wr32 m a v"
| "poke sizeZero m a v = m"

fun busStore :: "'b Bus \<Rightarrow> msize \<Rightarrow> 'b \<Rightarrow> u32 \<Rightarrow> u32 \<Rightarrow> 'b" where
  "busStore B sizeByte s a v = Write8 B s a (ucast v)"
| "busStore B sizeWord s a v = Write16 B s a (ucast v)"
| "busStore B sizeLong s a v = Write32 B s a v"
| "busStore B sizeZero s a v = s"

text \<open>The operand can be accessed: it is aligned and does not wrap around the 24-bit address space.\<close>

definition operand_ok :: "msize \<Rightarrow> u32 \<Rightarrow> bool" where
  "operand_ok sz a \<longleftrightarrow> (sz = sizeByte \<or> a AND 1 = 0) \<and> (sz = sizeLong \<longrightarrow> a AND 0xFFFFFF \<le> 0xFFFFFC)"

lemma peek_Mask: "peek sz m a AND Mask sz = peek sz m a"
  by (cases sz) (simp_all add: ucast_masked)

lemma busStore_Mask: "busStore B sz s a (v AND Mask sz) = busStore B sz s a v"
proof -
  have "ucast (v AND 0xFF) = (ucast v :: u8)" "ucast (v AND 0xFFFF) = (ucast v :: u16)"
    by (simp_all add: bits8 bits16)
  then show ?thesis by (cases sz) (simp_all add: ucast_masked)
qed

lemma and_24_le: "(a :: u32) AND 0xFFFFFF \<le> 0xFFFFFF"
  using and_24_less [of a] by (simp add: word_less_nat_alt word_le_nat_alt)

context ram_bus
begin

lemma run_ram_read:
  assumes "bus c = B" "\<not> halted c" "operand_ok sz a"
  shows "run_state (readBus sz a) c = (peek sz (mem (busState c)) (a AND 0xFFFFFF), c)"
  using assms and_24_even [of a] and_24_le [of a]
  by (cases sz) (auto simp: readBus_def operand_ok_def busRead8_def busRead16_def busRead32_def
      ram_read8 ram_read16 ram_read32)

lemma run_ram_write:
  assumes "bus c = B" "\<not> halted c" "operand_ok sz a"
  shows "run_state (writeBus sz a v) c =
    ((), c\<lparr>busState := busStore B sz (busState c) (a AND 0xFFFFFF) v\<rparr>)"
proof -
  have "run_state (writeBus sz a v) c =
      ((), c\<lparr>busState := busStore B sz (busState c) (a AND 0xFFFFFF) (v AND Mask sz)\<rparr>)"
    using assms by (cases sz) (auto simp: writeBus_def operand_ok_def busWrite8_def busWrite16_def busWrite32_def)
  then show ?thesis by (simp only: busStore_Mask)
qed

lemma mem_busStore:
  "operand_ok sz a \<Longrightarrow> mem (busStore B sz s (a AND 0xFFFFFF) v) = poke sz (mem s) (a AND 0xFFFFFF) v"
  using and_24_even [of a] and_24_le [of a]
  by (cases sz) (auto simp: operand_ok_def ram_write8 ram_write16 ram_write32)

end

interpretation any_bus: bus_client B "\<lambda>_. True"
  by unfold_locales (simp add: bus_closed_def)

lemma bus_kept: "state_io_rel (keeps_bus (bus c) (\<lambda>_. True)) m \<Longrightarrow> run_state m c = (x, c') \<Longrightarrow> bus c' = bus c"
  by (auto simp: keeps_bus_def dest: state_io_relD)

subsection \<open>Specification\<close>

datatype rmwOp = RAdd | RSub | RAnd | ROr | REor

definition rmwValue :: "rmwOp \<Rightarrow> msize \<Rightarrow> u32 \<Rightarrow> u32 \<Rightarrow> int" where
  "rmwValue k sz s d = (case k of
       RAdd \<Rightarrow> (uval sz d + uval sz s) mod 2 ^ width sz
     | RSub \<Rightarrow> (uval sz d - uval sz s) mod 2 ^ width sz
     | RAnd \<Rightarrow> uval sz d AND uval sz s
     | ROr \<Rightarrow> uval sz d OR uval sz s
     | REor \<Rightarrow> uval sz d XOR uval sz s)"

definition rmwCCR :: "rmwOp \<Rightarrow> msize \<Rightarrow> u32 \<Rightarrow> u32 \<Rightarrow> u16 \<Rightarrow> u16" where
  "rmwCCR k sz s d sr = (case k of
       RAdd \<Rightarrow> addCCR sz s d 0 sr
     | RSub \<Rightarrow> subCCR sz s d 0 sr
     | _ \<Rightarrow> logicCCR sz (word_of_int (rmwValue k sz s d)) sr)"

text \<open>The handlers, with a data register and with an immediate operand.\<close>

definition rmwDn :: "rmwOp \<Rightarrow> u16 \<Rightarrow> u16 \<Rightarrow> u16 \<Rightarrow> 'b opFunc" where
  "rmwDn k = (case k of RAdd \<Rightarrow> makeADDtoEA | RSub \<Rightarrow> makeSUBtoEA | RAnd \<Rightarrow> makeANDtoEA
     | ROr \<Rightarrow> makeORtoEA | REor \<Rightarrow> makeEOR)"

definition rmwImm :: "rmwOp \<Rightarrow> u16 \<Rightarrow> u16 \<Rightarrow> 'b opFunc" where
  "rmwImm k = (case k of RAdd \<Rightarrow> makeADDI | RSub \<Rightarrow> makeSUBI | RAnd \<Rightarrow> makeANDI
     | ROr \<Rightarrow> makeORI | REor \<Rightarrow> makeEORI)"

text \<open>The time of an instruction with operand in memory; \<open>short\<close> is the time for bytes and words.\<close>

definition rmwTime :: "u64 \<Rightarrow> u64 \<Rightarrow> msize \<Rightarrow> u16 \<Rightarrow> u16 \<Rightarrow> u64" where
  "rmwTime short lng sz mode rg = (if sz = sizeLong then lng else short) + eaFetchCycles (ucast mode) (ucast rg) sz"

text \<open>The state after the destination in memory has been replaced.\<close>

definition replaced :: "rmwOp \<Rightarrow> msize \<Rightarrow> u32 \<Rightarrow> u32 \<Rightarrow> u32 \<Rightarrow> u64 \<Rightarrow> 'b CPU \<Rightarrow> 'b CPU" where
  "replaced k sz s d a t c = c\<lparr>reg := (reg c)\<lparr>regSR := rmwCCR k sz s d (regSR (reg c))\<rparr>,
     busState := busStore (bus c) sz (busState c) (a AND 0xFFFFFF) (word_of_int (rmwValue k sz s d)),
     cycles := cycles c + t\<rparr>"

subsection \<open>The pieces of the handlers\<close>

lemma rmwValue_code:
  "uval sz (s + d) = rmwValue RAdd sz s d" "uval sz (d - s) = rmwValue RSub sz s d"
  "uval sz (d AND s) = rmwValue RAnd sz s d" "uval sz (d OR s) = rmwValue ROr sz s d"
  "uval sz (d XOR s) = rmwValue REor sz s d"
proof -
  show "uval sz (s + d) = rmwValue RAdd sz s d" "uval sz (d - s) = rmwValue RSub sz s d"
    by (simp_all add: rmwValue_def uval_add uval_diff take_bit_mod_width add.commute)
  show "uval sz (d AND s) = rmwValue RAnd sz s d" "uval sz (d OR s) = rmwValue ROr sz s d"
    "uval sz (d XOR s) = rmwValue REor sz s d"
    by (simp_all add: rmwValue_def uval_def unsigned_and_eq unsigned_or_eq unsigned_xor_eq)
qed

lemma busStore_code: "busStore B sz st a (word_of_int (uval sz r)) = busStore B sz st a r"
  by (simp only: masked_code [symmetric] busStore_Mask)

lemma logicCCR_code:
  assumes "sz \<noteq> sizeZero"
  shows "logicCCR sz (d AND s) sr = rmwCCR RAnd sz s d sr" "logicCCR sz (d OR s) sr = rmwCCR ROr sz s d sr"
    "logicCCR sz (d XOR s) sr = rmwCCR REor sz s d sr" "addCCR sz s d 0 sr = rmwCCR RAdd sz s d sr"
    "subCCR sz s d 0 sr = rmwCCR RSub sz s d sr"
  unfolding rmwCCR_def rmwOp.case rmwValue_code [symmetric] logicCCR_uval [OF assms] by (rule refl)+

lemma run_setFlags_masked:
  assumes "sz \<noteq> sizeZero" "s AND Mask sz = s" "d AND Mask sz = d"
  shows "run_state (setFlagsAdd s d (s + d) sz) c = ((), c\<lparr>reg := (reg c)\<lparr>regSR := rmwCCR RAdd sz s d (regSR (reg c))\<rparr>\<rparr>)"
    "run_state (setFlagsSub s d (d - s) sz) c = ((), c\<lparr>reg := (reg c)\<lparr>regSR := rmwCCR RSub sz s d (regSR (reg c))\<rparr>\<rparr>)"
  using run_setFlags(1,2) [OF assms(1,2), of d c] unfolding assms(3) logicCCR_code [OF assms(1)] .

lemma rmwTime_code:
  assumes "mode < 8" "rg < 8"
  shows "(if sz = sizeLong then t + fst (eaFetchConst mode rg) + snd (eaFetchConst mode rg)
     else u + fst (eaFetchConst mode rg)) = rmwTime u t sz mode rg"
  unfolding rmwTime_def eaFetchCycles_Const [OF assms] by simp

lemma masked_fetchImm: "masked (Mask sz) (fetchImm sz)"
  unfolding fetchImm_def
  by (cases "sz = sizeLong") (simp_all add: masked_def ucast_masked split_def)

lemma regD_kept:
  assumes "wf_cpu c" "state_io_rel keeps_wf m" "run_state m c = (x, c')"
  shows "length (regD (reg c')) = 8" "wf_cpu c'"
  using state_io_relD [OF assms(2,3)] assms(1) by (simp_all add: keeps_wf_def wf_cpu_def)

subsection \<open>Properties\<close>

text \<open>
  C23. ADD, SUB, AND, OR and EOR from a data register to memory do what the specification says.
  On a bus that behaves like memory, once the address has been computed, the bytes at that
  address hold the sum, difference, conjunction, disjunction or exclusive disjunction as a
  number of the operand's width, all other bytes and all registers are as they were, the
  condition codes are those of the integer operation, and the time is the tabulated one.
\<close>

theorem alu_to_memory:
  assumes "ram_bus B mem" "bus c = B" "wf_cpu c" "dn < 8" "memEA mode rg"
    and "sz = sizeEncoding ((drop_bit 6 (ir c) AND 7) - 4)" "sz \<noteq> sizeZero"
    and "run_state (makeEAMemAddr mode rg sz) c = (a, c1)" "\<not> halted c1" "operand_ok sz a"
    and d: "d = peek sz (mem (busState c1)) (a AND 0xFFFFFF)" and s: "s = regD (reg c1) ! unat dn AND Mask sz"
    and "c' = replaced k sz s d a (rmwTime 8 12 sz mode rg) c1"
  shows "run_state (rmwDn k dn mode rg) c = ((), c') \<and>
    mem (busState c') = poke sz (mem (busState c1)) (a AND 0xFFFFFF) (word_of_int (rmwValue k sz s d))"
proof -
  have b: "bus c1 = B" using bus_kept [OF any_bus.io_makeEAMemAddr [OF assms(5)] assms(8)] assms(2) by simp
  have l: "unat dn < length (regD (reg c1))"
    using regD_kept [OF assms(3) keeps_wf.io_makeEAMemAddr [OF assms(5)] assms(8)] assms(4)
    by (simp add: word_less_nat_alt)
  have m: "mode \<noteq> 0" "mode < 8" "rg < 8" using assms(5) by (auto simp: memEA_def)
  have masked: "d AND Mask sz = d" "s AND Mask sz = s" by (simp_all add: d s peek_Mask and.assoc)
  note run = assms(6) [symmetric] assms(8) l b assms(9) ram_bus.run_ram_read [OF assms(1)] ram_bus.run_ram_write [OF assms(1)]
    assms(10) d [symmetric] s [symmetric] run_setFlags_masked [OF assms(7) masked(2,1)]
    setFlagsLogical_run [OF assms(7)] logicCCR_code [OF assms(7)] rmwTime_code [OF m(2,3)]
    replaced_def rmwValue_code [symmetric] busStore_code m(1)
  have "run_state (rmwDn k dn mode rg) c = ((), c')"
    unfolding assms(13) rmwDn_def makeADDtoEA_def makeSUBtoEA_def makeANDtoEA_def makeORtoEA_def makeEOR_def
      Let_def split_def addCycles_if
    by (cases k) (simp_all add: run del: Mask_simps split del: if_split)
  then show ?thesis
    using ram_bus.mem_busStore [OF assms(1,10)] b by (simp add: assms(13) replaced_def)
qed

text \<open>A memory at 0x1000 with the word 0x7FFF, and A0 pointing to it.\<close>

definition rmwCPU :: "testMem CPU" where
  "rmwCPU = (ramCPU ((\<lambda>_. 0)(0x1000 := 0x7F, 0x1001 := 0xFF)) 0x2000 0)\<lparr>ir := 0xD350, reg := zeroRegisters\<lparr>
     regD := [0, 0x12340001, 0, 0, 0, 0, 0, 0], regA := [0x1000, 0, 0, 0, 0, 0, 0, 0x3000]\<rparr>\<rparr>"

lemma rmwCPU_simps [simp]:
  "reg rmwCPU = zeroRegisters\<lparr>regD := [0, 0x12340001, 0, 0, 0, 0, 0, 0], regA := [0x1000, 0, 0, 0, 0, 0, 0, 0x3000]\<rparr>"
  "bus rmwCPU = testBus" "busState rmwCPU = (\<lambda>_. 0)(0x1000 := 0x7F, 0x1001 := 0xFF)" "halted rmwCPU = False"
  "ir rmwCPU = 0xD350" "cycles rmwCPU = 0" "panicked rmwCPU = False"
  by (simp_all add: rmwCPU_def)

theorem alu_to_memory_witness:
  "rd16 (busState (snd (run_state (rmwDn RAdd 1 2 0) rmwCPU))) 0x1000 = 0x8000"
proof -
  have d: "peek sizeWord ((\<lambda>_. 0)(0x1000 := 0x7F, 0x1001 := 0xFF)) 0x1000 = 0x7FFF"
    by (simp add: rd16_def)
  show ?thesis
    using alu_to_memory [OF test_ram.ram_bus_axioms, where c = rmwCPU and dn = 1 and mode = 2 and rg = 0 and
      sz = sizeWord and a = "0x1000" and ?c1.0 = rmwCPU and d = "0x7FFF" and s = 1 and k = RAdd]
    by (simp add: d wf_cpu_def memEA_def sizeEncoding_def makeEAMemAddr_def operand_ok_def
        rmwValue_def uval_def rd16_wr16 del: peek.simps)
qed

text \<open>
  The immediate forms take their operand from the extension words, the quick forms from the opcode,
  where 0 stands for 8.
\<close>

datatype immSource = Imm | Quick u16

fun immOperand :: "immSource \<Rightarrow> msize \<Rightarrow> ('b, u32) cpuM" where
  "immOperand Imm sz = fetchImm sz"
| "immOperand (Quick q) sz = return (if (ucast q :: u32) = 0 then 8 else ucast q)"

fun immHandler :: "rmwOp \<Rightarrow> immSource \<Rightarrow> u16 \<Rightarrow> u16 \<Rightarrow> 'b opFunc" where
  "immHandler k Imm = rmwImm k"
| "immHandler k (Quick q) = (if k = RAdd then makeADDQ q else makeSUBQ q)"

fun immOk :: "rmwOp \<Rightarrow> immSource \<Rightarrow> bool" where
  "immOk k Imm = True"
| "immOk k (Quick q) \<longleftrightarrow> (k = RAdd \<or> k = RSub) \<and> q < 8"

fun immTime :: "immSource \<Rightarrow> msize \<Rightarrow> u16 \<Rightarrow> u16 \<Rightarrow> u64" where
  "immTime Imm sz mode rg = (if mode = 0 then if sz = sizeLong then 16 else 8 else rmwTime 12 20 sz mode rg)"
| "immTime (Quick q) sz mode rg = (if mode = 0 then if sz = sizeLong then 8 else 4 else rmwTime 8 12 sz mode rg)"

lemma immOperand_run:
  assumes "immOk k src" "sz \<noteq> sizeZero" "run_state (immOperand src sz) c = (s, c1)"
  shows "s AND Mask sz = s" "bus c1 = bus c" "wf_cpu c \<Longrightarrow> wf_cpu c1"
proof -
  show "s AND Mask sz = s"
  proof (cases src)
    case Imm
    then show ?thesis using maskedD [OF masked_fetchImm] assms(3) by auto
  next
    case (Quick q)
    then have "q < 8" using assms(1) by simp
    then show ?thesis
      by (cases rule: mode_exhaust) (use assms(2,3) Quick in \<open>cases sz; auto\<close>)+
  qed
  show "bus c1 = bus c"
    using assms(3) bus_kept [OF any_bus.io_fetchImm] by (cases src) auto
  show "wf_cpu c \<Longrightarrow> wf_cpu c1"
    using assms(3) regD_kept(2) [OF _ keeps_wf.io_fetchImm] by (cases src) auto
qed

lemmas imm_unfold = makeADDI_def makeSUBI_def makeANDI_def makeORI_def makeEORI_def makeADDQ_def makeSUBQ_def
  rmwImm_def Let_def split_def addCycles_if

lemma imm_register:
  assumes "wf_cpu c" "rg < 8" "immOk k src"
    and "sz = sizeEncoding (drop_bit 6 (ir c) AND 3)" "sz \<noteq> sizeZero"
    and "run_state (immOperand src sz) c = (s, c1)" "d = regD (reg c1) ! unat rg"
  shows "run_state (immHandler k src 0 rg) c =
    ((), c1\<lparr>reg := (reg c1)\<lparr>regSR := rmwCCR k sz s (d AND Mask sz) (regSR (reg c1)),
                         regD := (regD (reg c1))[unat rg := setLow sz d (rmwValue k sz s (d AND Mask sz))]\<rparr>,
           cycles := cycles c1 + immTime src sz 0 rg\<rparr>)"
proof -
  note imm = immOperand_run [OF assms(3,5,6)]
  have l: "unat rg < length (regD (reg c1))"
    using imm(3) assms(1,2) by (simp add: wf_cpu_def word_less_nat_alt)
  have "(x AND Mask sz) AND Mask sz = x AND Mask sz" for x by (simp add: and.assoc)
  note run = assms(4) [symmetric] l run_setFlags_masked [OF assms(5) imm(1) this] assms(7)
    setFlagsLogical_run [OF assms(5)] logicCCR_code [OF assms(5)] run_storeD rmwValue_code
  show ?thesis
  proof (cases src)
    case Imm
    then show ?thesis using assms(6) unfolding imm_unfold
      by (cases k) (simp_all add: run imm_unfold del: Mask_simps split del: if_split)
  next
    case (Quick q)
    then have e: "c1 = c" "(if (ucast q :: u32) = 0 then 8 else ucast q) = s" using assms(6) by simp_all
    show ?thesis using assms(3) unfolding Quick immHandler.simps imm_unfold e
      by (cases k) (simp_all add: run [unfolded e(1)] del: Mask_simps split del: if_split)
  qed
qed

lemma imm_memory:
  assumes "ram_bus B mem" "bus c = B" "wf_cpu c" "memEA mode rg" "immOk k src"
    and "sz = sizeEncoding (drop_bit 6 (ir c) AND 3)" "sz \<noteq> sizeZero"
    and "run_state (immOperand src sz) c = (s, c1)"
    and "run_state (makeEAMemAddr mode rg sz) c1 = (a, c2)" "\<not> halted c2" "operand_ok sz a"
    and d: "d = peek sz (mem (busState c2)) (a AND 0xFFFFFF)"
    and "c' = replaced k sz s d a (immTime src sz mode rg) c2"
  shows "run_state (immHandler k src mode rg) c = ((), c') \<and>
    mem (busState c') = poke sz (mem (busState c2)) (a AND 0xFFFFFF) (word_of_int (rmwValue k sz s d))"
proof -
  note imm = immOperand_run [OF assms(5,7,8)]
  have b: "bus c2 = B" using bus_kept [OF any_bus.io_makeEAMemAddr [OF assms(4)] assms(9)] imm(2) assms(2) by simp
  have m: "mode \<noteq> 0" "mode \<noteq> 1" "mode < 8" "rg < 8" using assms(4) by (auto simp: memEA_def word_le_nat_alt)
  have masked: "d AND Mask sz = d" by (simp add: d peek_Mask)
  note run = assms(6) [symmetric] assms(9) b assms(10) ram_bus.run_ram_read [OF assms(1)] ram_bus.run_ram_write [OF assms(1)]
    assms(11) d [symmetric] run_setFlags_masked [OF assms(7) imm(1) masked]
    setFlagsLogical_run [OF assms(7)] logicCCR_code [OF assms(7)] rmwTime_code [OF m(3,4)]
    replaced_def rmwValue_code [symmetric] busStore_code m(1,2)
  have "run_state (immHandler k src mode rg) c = ((), c')"
    unfolding assms(13)
  proof (cases src)
    case Imm
    then show "run_state (immHandler k src mode rg) c = ((), replaced k sz s d a (immTime src sz mode rg) c2)"
      using assms(8) by (cases k) (simp_all add: imm_unfold run del: Mask_simps split del: if_split)
  next
    case (Quick q)
    then have e: "c1 = c" "(if (ucast q :: u32) = 0 then 8 else ucast q) = s" using assms(8) by simp_all
    show "run_state (immHandler k src mode rg) c = ((), replaced k sz s d a (immTime src sz mode rg) c2)"
      using assms(5) unfolding Quick immHandler.simps imm_unfold e
      by (cases k) (simp_all add: run [unfolded e(1)] del: Mask_simps split del: if_split)
  qed
  then show ?thesis
    using ram_bus.mem_busStore [OF assms(1,11)] b by (simp add: assms(13) replaced_def)
qed

text \<open>
  C24. ADDI, SUBI, ANDI, ORI, EORI, ADDQ and SUBQ do what the specification says, once their operand
  is known: in a data register the low part is replaced and the rest kept, in memory the addressed
  bytes are replaced, by the number the integer operation gives, with its condition codes and the
  tabulated time, and nothing else changes.
\<close>

theorem alu_immediate:
  assumes "ram_bus B mem" "bus c = B" "wf_cpu c" "altEA mode rg" "immOk k src"
    and "sz = sizeEncoding (drop_bit 6 (ir c) AND 3)" "sz \<noteq> sizeZero"
    and "run_state (immOperand src sz) c = (s, c1)"
  shows "if mode = 0
    then \<exists>d. d = regD (reg c1) ! unat rg \<and> run_state (immHandler k src mode rg) c =
      ((), c1\<lparr>reg := (reg c1)\<lparr>regSR := rmwCCR k sz s (d AND Mask sz) (regSR (reg c1)),
           regD := (regD (reg c1))[unat rg := setLow sz d (rmwValue k sz s (d AND Mask sz))]\<rparr>,
         cycles := cycles c1 + immTime src sz mode rg\<rparr>)
    else \<forall>a c2. run_state (makeEAMemAddr mode rg sz) c1 = (a, c2) \<and> \<not> halted c2 \<and> operand_ok sz a \<longrightarrow>
      (\<exists>d c'. d = peek sz (mem (busState c2)) (a AND 0xFFFFFF) \<and>
        c' = replaced k sz s d a (immTime src sz mode rg) c2 \<and> run_state (immHandler k src mode rg) c = ((), c') \<and>
        mem (busState c') = poke sz (mem (busState c2)) (a AND 0xFFFFFF) (word_of_int (rmwValue k sz s d)))"
proof (cases "mode = 0")
  case True
  then show ?thesis using imm_register [OF assms(3) _ assms(5-8) refl, of rg] assms(4) by (simp add: altEA_def)
next
  case False
  then show ?thesis
    using imm_memory [OF assms(1-3) _ assms(5-8) _ _ _ refl refl] assms(4) by (auto simp: altEA_def)
qed

theorem alu_immediate_witness:
  "rd16 (busState (snd (run_state (immHandler RSub (Quick 0) 2 0) (rmwCPU\<lparr>ir := 0x5150\<rparr>)))) 0x1000 = 0x7FF7"
proof -
  have d: "peek sizeWord ((\<lambda>_. 0)(0x1000 := 0x7F, 0x1001 := 0xFF)) 0x1000 = 0x7FFF"
    by (simp add: rd16_def)
  show ?thesis
    using alu_immediate [OF test_ram.ram_bus_axioms, where c = "rmwCPU\<lparr>ir := 0x5150\<rparr>" and mode = 2 and rg = 0 and
      sz = sizeWord and k = RSub and src = "Quick 0"]
    by (simp add: d wf_cpu_def altEA_def memEA_def sizeEncoding_def makeEAMemAddr_def operand_ok_def
        rmwValue_def uval_def rd16_wr16 del: peek.simps immHandler.simps)
qed

lemma masked_bound: "masked (Mask sz) m \<Longrightarrow> uint (fst (run_state m c)) < 2 ^ width sz"
proof -
  assume "masked (Mask sz) m"
  then have "fst (run_state m c) AND Mask sz = fst (run_state m c)" by (simp add: masked_def)
  then have "uint (fst (run_state m c)) = uval sz (fst (run_state m c))"
    by (metis uval_def and_Mask_eq_take_bit unsigned_take_bit_eq)
  then show ?thesis using uval_bounds [of sz "fst (run_state m c)"] by simp
qed

text \<open>
  Operands have the type their size says. Whatever the state of the CPU and whatever the bus
  returns, a value read as a byte, word or long word, from a register, from memory or from the
  instruction stream, is a number of 8, 16 or 32 bits.
\<close>

lemma operands_typed:
  "uint (fst (run_state (makeEARead mode rg sz) c)) < 2 ^ width sz \<and>
   uint (fst (run_state (readBus sz a) c)) < 2 ^ width sz \<and>
   uint (fst (run_state (fetchImm sz) c)) < 2 ^ width sz"
  by (intro conjI masked_bound masked_makeEARead masked_readBus masked_fetchImm)

end
