(* ===== verification/Spec_Bit.thy ===== *)
theory Spec_Bit
  imports Spec_Rmw
begin

text \<open>
  BTST, BCHG, BCLR and BSET against the bits of a number: the zero flag is the complement of the
  tested bit, and exactly that bit of the destination is inverted, cleared or set.
\<close>

subsection \<open>Specification\<close>

datatype bitOp = BTst | BChg | BClr | BSet

fun bitResult :: "bitOp \<Rightarrow> nat \<Rightarrow> 'a :: len word \<Rightarrow> 'a word" where
  "bitResult BTst n v = v"
| "bitResult BChg n v = flip_bit n v"
| "bitResult BClr n v = unset_bit n v"
| "bitResult BSet n v = set_bit n v"

text \<open>The status register with the zero flag replaced.\<close>

definition withZ :: "bool \<Rightarrow> u16 \<Rightarrow> u16" where
  "withZ z sr = (if z then sr OR flagZ else sr AND NOT flagZ)"

text \<open>The bit number comes from a data register or from an extension word.\<close>

datatype bitSource = BitReg u16 | BitImm

fun bitNumber :: "bitSource \<Rightarrow> ('b, u32) cpuM" where
  "bitNumber (BitReg dn) = getD (unat dn)"
| "bitNumber BitImm = do { w \<leftarrow> fetchPC; return (ucast (w AND 0xFF)) }"

fun bitHandler :: "bitOp \<Rightarrow> bitSource \<Rightarrow> u16 \<Rightarrow> u16 \<Rightarrow> 'b opFunc" where
  "bitHandler BTst (BitReg dn) = makeBTSTdyn dn"
| "bitHandler BChg (BitReg dn) = makeBCHGdyn dn"
| "bitHandler BClr (BitReg dn) = makeBCLRdyn dn"
| "bitHandler BSet (BitReg dn) = makeBSETdyn dn"
| "bitHandler BTst BitImm = makeBTSTstatic"
| "bitHandler BChg BitImm = makeBCHGstatic"
| "bitHandler BClr BitImm = makeBCLRstatic"
| "bitHandler BSet BitImm = makeBSETstatic"

fun bitOk :: "bitSource \<Rightarrow> bool" where
  "bitOk (BitReg dn) \<longleftrightarrow> dn < 8"
| "bitOk BitImm \<longleftrightarrow> True"

text \<open>
  The times on a data register and on memory. The specification leaves the time of BTST with an
  immediate bit number on a data register open: the documentation of the emulator gives another
  number for it than the code (\<open>BTST_immediate_time\<close> below).
\<close>

definition bitTimeD :: "bitOp \<Rightarrow> bitSource \<Rightarrow> nat \<Rightarrow> u64 option" where
  "bitTimeD k src n =
    (if src = BitImm then case k of BTst \<Rightarrow> None | BClr \<Rightarrow> Some 14 | _ \<Rightarrow> Some 12
     else Some (case k of BTst \<Rightarrow> 6 | BClr \<Rightarrow> if n < 16 then 8 else 10 | _ \<Rightarrow> if n < 16 then 6 else 8))"

definition bitTimeM :: "bitOp \<Rightarrow> bitSource \<Rightarrow> u16 \<Rightarrow> u16 \<Rightarrow> u64" where
  "bitTimeM k src mode rg = (if k = BTst then 4 else 8) + (if src = BitImm then 4 else 0) +
     eaFetchCycles (ucast mode) (ucast rg) sizeByte"

subsection \<open>The pieces of the handlers\<close>

lemma setZ_run: "run_state (setZ z) c = ((), c\<lparr>reg := (reg c)\<lparr>regSR := withZ z (regSR (reg c))\<rparr>\<rparr>)"
  by (simp add: setZ_def withZ_def srSet_def srClr_def)

lemma bit_test: "v AND 2 ^ n = 0 \<longleftrightarrow> \<not> bit (v :: u32) n"
  by (simp add: and_exp_eq_0_iff_not_bit)

lemma bit_masks:
  "v XOR 2 ^ n = flip_bit n (v :: u32)" "v AND NOT (2 ^ n) = unset_bit n v"
  "v OR 2 ^ n = set_bit n v"
  by (simp_all add: flip_bit_eq_xor unset_bit_eq_and_not set_bit_eq_or)

lemma bit_number: "unat ((x :: u32) AND 31) = unat x mod 32" "x AND 31 < 16 \<longleftrightarrow> unat x mod 32 < 16"
proof -
  have "x AND 31 = take_bit 5 x" by (simp add: take_bit_eq_mask mask_eq_exp_minus_1)
  then have "unat (x AND 31) = take_bit 5 (unat x)" by (simp only: unsigned_take_bit_eq)
  then show "unat (x AND 31) = unat x mod 32" by (simp add: take_bit_eq_mod)
  then show "x AND 31 < 16 \<longleftrightarrow> unat x mod 32 < 16" by (simp add: word_less_nat_alt)
qed

lemma bitNumber_run:
  assumes "bitOk src" "run_state (bitNumber src) c = (b, c1)"
  shows "bus c1 = bus c" "wf_cpu c \<Longrightarrow> wf_cpu c1" "src = BitReg dn \<Longrightarrow> wf_cpu c \<Longrightarrow> c1 = c \<and> b = regD (reg c) ! unat dn"
proof -
  have io: "state_io_rel (keeps_bus (bus c) (\<lambda>_. True)) (bitNumber src)" "state_io_rel keeps_wf (bitNumber src :: ('a, u32) cpuM)"
    using assms(1) by (cases src; simp; intro io; simp add: word_less_nat_alt)+
  show "bus c1 = bus c" by (rule bus_kept [OF io(1) assms(2)])
  show "wf_cpu c \<Longrightarrow> wf_cpu c1" by (rule regD_kept(2) [OF _ io(2) assms(2)])
  show "src = BitReg dn \<Longrightarrow> wf_cpu c \<Longrightarrow> c1 = c \<and> b = regD (reg c) ! unat dn"
    using assms by (auto simp: wf_cpu_def word_less_nat_alt)
qed

lemma makeEARead_mem:
  assumes "memEA mode rg"
  shows "makeEARead mode rg sz = do { a \<leftarrow> makeEAMemAddr mode rg sz; readBus sz a }"
proof -
  from assms have m: "mode < 8" and r: "rg < 8" and a: "2 \<le> mode" "\<not> (mode = 7 \<and> rg > 3)"
    by (simp_all add: memEA_def)
  from m show ?thesis
  proof (cases rule: mode_exhaust)
    case 8
    have "rg \<in> {0, 1, 2, 3}" using less_8_cases [OF r] a 8 by auto
    then show ?thesis using 8 by (auto simp: makeEARead_def makeEAMemAddr_def)
  qed (use a in \<open>auto simp: makeEARead_def makeEAMemAddr_def word_le_nat_alt\<close>)
qed

lemmas bit_defs = makeBTSTdyn_def makeBTSTstatic_def makeBCHGdyn_def makeBCHGstatic_def
  makeBCLRdyn_def makeBCLRstatic_def makeBSETdyn_def makeBSETstatic_def Let_def split_def addCycles_if

lemma bit_register:
  assumes "wf_cpu c" "rg < 8" "bitOk src" "run_state (bitNumber src) c = (b, c1)"
    and "d = regD (reg c1) ! unat rg" "n = unat b mod 32"
  shows "run_state (bitHandler k src 0 rg) c =
    ((), c1\<lparr>reg := (reg c1)\<lparr>regSR := withZ (\<not> bit d n) (regSR (reg c1)),
                         regD := (regD (reg c1))[unat rg := bitResult k n d]\<rparr>,
           cycles := cycles c1 + (case bitTimeD k src n of Some t \<Rightarrow> t | None \<Rightarrow> 10)\<rparr>)"
proof -
  note b = bitNumber_run [OF assms(3,4)]
  have l: "unat rg < length (regD (reg c1))" using b(2) assms(1,2) by (simp add: wf_cpu_def word_less_nat_alt)
  note run = l bit_number bit_test bit_masks setZ_run assms(5,6) bitTimeD_def
  show ?thesis
  proof (cases src)
    case (BitReg dn)
    with b(3) [OF this assms(1)] assms(1,3) have "c1 = c" "b = regD (reg c) ! unat dn" "unat dn < length (regD (reg c))"
      by (auto simp: wf_cpu_def word_less_nat_alt)
    then show ?thesis unfolding BitReg
      by (cases k) (use l in \<open>simp_all add: bit_defs run split del: if_split\<close>)
  next
    case BitImm
    obtain w where w: "run_state fetchPC c = (w, c1)" "ucast (w AND 0xFF) = b" using assms(4) BitImm by (auto split: prod.splits)
    show ?thesis unfolding BitImm
      by (cases k) (simp_all add: bit_defs w run split del: if_split)
  qed
qed

lemma BTST_immediate_time:
  assumes "wf_cpu c" "rg < 8"
  shows "cycles (snd (run_state (makeBTSTstatic 0 rg) c)) = cycles (snd (run_state (bitNumber BitImm) c)) + 10"
  using bit_register [of c rg BitImm _ _ _ _ BTst] assms by (auto simp: bitTimeD_def split: prod.splits)

lemma bitResult_byte:
  assumes "n < 8"
  shows "ucast (bitResult k n (ucast v :: u32)) = bitResult k n (v :: u8)" "bit (ucast v :: u32) n = bit v n"
  using assms by (cases k; auto simp: bit_eq_iff bit_simps)+

lemma bit_memory:
  assumes "ram_bus B mem" "bus c = B" "wf_cpu c" "memEA mode rg" "bitOk src" "run_state (bitNumber src) c = (b, c1)"
    and "run_state (makeEAMemAddr mode rg sizeByte) c1 = (a, c2)" "\<not> halted c2"
    and d: "d = mem (busState c2) (a AND 0xFFFFFF)" and n: "n = unat b mod 8"
  shows "\<exists>s'. mem s' = (mem (busState c2))(a AND 0xFFFFFF := bitResult k n d) \<and>
    run_state (bitHandler k src mode rg) c =
      ((), c2\<lparr>reg := (reg c2)\<lparr>regSR := withZ (\<not> bit d n) (regSR (reg c2))\<rparr>, busState := s',
             cycles := cycles c2 + bitTimeM k src mode rg\<rparr>)"
proof -
  note b = bitNumber_run [OF assms(5,6)]
  define s' where "s' = (if k = BTst then busState c2 else Write8 B (busState c2) (a AND 0xFFFFFF) (bitResult k n d))"
  have bus: "bus c2 = B" using bus_kept [OF any_bus.io_makeEAMemAddr [OF assms(4)] assms(7)] b(1) assms(2) by simp
  have m: "mode \<noteq> 0" "mode < 8" "rg < 8" using assms(4) by (auto simp: memEA_def)
  have "n < 8" by (simp add: n)
  have t: "fst (eaFetchConst mode rg) = eaFetchCycles (ucast mode) (ucast rg) sizeByte"
    unfolding eaFetchCycles_Const [OF m(2,3)] by simp
  have ok: "operand_ok sizeByte a" by (simp add: operand_ok_def)
  note run = ram_bus.run_ram_read [OF assms(1)] ram_bus.run_ram_write [OF assms(1)] ok bus assms(7,8) m(1) t setZ_run
    bit_test bit_masks bitResult_byte(2) [OF \<open>n < 8\<close>] n [symmetric] d [symmetric] bitTimeM_def s'_def makeEARead_mem [OF assms(4)]
  have "run_state (bitHandler k src mode rg) c =
      ((), c2\<lparr>reg := (reg c2)\<lparr>regSR := withZ (\<not> bit d n) (regSR (reg c2))\<rparr>, busState := s',
             cycles := cycles c2 + bitTimeM k src mode rg\<rparr>)"
  proof (cases src)
    case (BitReg dn)
    with b(3) [OF this assms(3)] assms(3,5) have e: "c = c1" "regD (reg c1) ! unat dn = b" "unat dn < length (regD (reg c1))"
      by (auto simp: wf_cpu_def word_less_nat_alt)
    show ?thesis unfolding BitReg
      by (cases k) (use e(3) bitResult_byte(1) [OF \<open>n < 8\<close>, of k d] in
          \<open>simp_all add: bit_defs e(1,2) run split del: if_split\<close>)
  next
    case BitImm
    obtain w where w: "run_state fetchPC c = (w, c1)" "ucast (w AND 0xFF) = b" using assms(6) BitImm by (auto split: prod.splits)
    show ?thesis unfolding BitImm
      by (cases k) (use bitResult_byte(1) [OF \<open>n < 8\<close>, of k d] in \<open>simp_all add: bit_defs w run split del: if_split\<close>)
  qed
  moreover have "mem s' = (mem (busState c2))(a AND 0xFFFFFF := bitResult k n d)"
    using ram_bus.ram_write8 [OF assms(1) and_24_le] by (auto simp: s'_def d)
  ultimately show ?thesis by blast
qed

subsection \<open>Properties\<close>

text \<open>
  C36. BTST, BCHG, BCLR and BSET do what the specification says, with the bit number from a register
  or an extension word. In a data register the bit number counts modulo 32, in a byte of memory
  modulo 8; the zero flag becomes the complement of that bit, the other flags are kept; that bit
  is left alone, inverted, cleared or set, and no other bit of a register or of memory changes
  except by fetching the operands; and the time is the tabulated one, except that nothing is said of
  the time of BTST with an immediate bit number on a data register.
\<close>

theorem bit_operations:
  assumes "ram_bus B mem" "bus c = B" "wf_cpu c" "altEA mode rg" "bitOk src" "run_state (bitNumber src) c = (b, c1)"
  shows "if mode = 0
    then \<exists>d n t. d = regD (reg c1) ! unat rg \<and> n = unat b mod 32 \<and> bitTimeD k src n \<in> {Some t, None} \<and>
      run_state (bitHandler k src mode rg) c =
      ((), c1\<lparr>reg := (reg c1)\<lparr>regSR := withZ (\<not> bit d n) (regSR (reg c1)),
           regD := (regD (reg c1))[unat rg := bitResult k n d]\<rparr>,
         cycles := cycles c1 + t\<rparr>)
    else \<forall>a c2. run_state (makeEAMemAddr mode rg sizeByte) c1 = (a, c2) \<and> \<not> halted c2 \<longrightarrow>
      (\<exists>d n s'. d = mem (busState c2) (a AND 0xFFFFFF) \<and> n = unat b mod 8 \<and>
        mem s' = (mem (busState c2))(a AND 0xFFFFFF := bitResult k n d) \<and> run_state (bitHandler k src mode rg) c =
        ((), c2\<lparr>reg := (reg c2)\<lparr>regSR := withZ (\<not> bit d n) (regSR (reg c2))\<rparr>, busState := s',
               cycles := cycles c2 + bitTimeM k src mode rg\<rparr>))"
proof (cases "mode = 0")
  case True
  have "bitTimeD k src n \<in> {Some (case bitTimeD k src n of Some t \<Rightarrow> t | None \<Rightarrow> 10), None}" for n
    by (cases "bitTimeD k src n") simp_all
  with True show ?thesis
    using bit_register [OF assms(3) _ assms(5,6) refl refl, of rg] assms(4) unfolding altEA_def by auto
next
  case False
  then have "memEA mode rg" using assms(4) by (simp add: altEA_def)
  then show ?thesis
    using bit_memory [OF assms(1-3) _ assms(5,6) _ _ refl refl] False by auto
qed

theorem bit_operations_witness:
  "regD (reg (snd (run_state (bitHandler BClr (BitReg 1) 0 2) (rmwCPU\<lparr>reg := zeroRegisters\<lparr>
     regD := [0, 33, 7, 0, 0, 0, 0, 0]\<rparr>\<rparr>)))) = [0, 33, 5, 0, 0, 0, 0, 0]"
  using bit_operations [OF test_ram.ram_bus_axioms, of "rmwCPU\<lparr>reg := zeroRegisters\<lparr>regD := [0, 33, 7, 0, 0, 0, 0, 0]\<rparr>\<rparr>"
    0 2 "BitReg 1" 33 "rmwCPU\<lparr>reg := zeroRegisters\<lparr>regD := [0, 33, 7, 0, 0, 0, 0, 0]\<rparr>\<rparr>" BClr]
  by (auto simp: wf_cpu_def altEA_def unset_bit_eq_and_not zeroRegisters_def)

end
