(* ===== verification/Spec_Move.thy ===== *)
theory Spec_Move
  imports Spec_Rmw
begin

text \<open>
  MOVE against its specification: the operand arrives unchanged in the low part of a data register
  or in the addressed bytes of memory, and the condition codes describe it as a number.
\<close>

definition moveTime :: "msize \<Rightarrow> u16 \<Rightarrow> u16 \<Rightarrow> u16 \<Rightarrow> u16 \<Rightarrow> u64" where
  "moveTime sz sm sr dm dr = 4 + eaFetchCycles (ucast sm) (ucast sr) sz + eaWriteCycles (ucast dm) (ucast dr) sz"

lemma moveTime_code:
  assumes "sm < 8" "sr < 8" "dm < 8" "dr < 8"
  shows "moveTime sz sm sr dm dr = 4 + fst (eaFetchConst sm sr) + fst (eaWriteConst dm dr) +
    (if sz = sizeLong then snd (eaFetchConst sm sr) + snd (eaWriteConst dm dr) else 0)"
  unfolding moveTime_def eaFetchCycles_Const [OF assms(1,2)] eaWriteCycles_Const [OF assms(3,4)] by simp

lemma move_register:
  assumes "wf_cpu c" "srcEA sm sr" "dr < 8"
    and "sz = moveSizeMap ! unat (drop_bit 12 (ir c) AND 3)" "sz \<noteq> sizeZero"
    and "run_state (makeEARead sm sr sz) c = (v, c1)"
  shows "run_state (makeMOVE sm sr 0 dr) c = ((), c1\<lparr>reg := (reg c1)\<lparr>regSR := logicCCR sz v (regSR (reg c1)),
       regD := (regD (reg c1))[unat dr := setLow sz (regD (reg c1) ! unat dr) (uval sz v)]\<rparr>,
     cycles := cycles c1 + moveTime sz sm sr 0 dr\<rparr>)"
proof -
  define long where "long \<longleftrightarrow> sz = sizeLong"
  have l: "unat dr < length (regD (reg c1))" by (rule operand_ready(1) [OF assms(1,3,2,6)])
  have m: "sm < 8" "sr < 8" "(0 :: u16) < 8" "dr < 8" using assms(2,3) by (simp_all add: srcEA_def)
  show ?thesis
    unfolding makeMOVE_def Let_def split_def moveTime_code [OF m]
    by (cases long) (simp_all add: assms(4) [symmetric] long_def [symmetric] assms(6) l run_storeD setFlagsLogical_run [OF assms(5)]
        add.assoc del: Mask_simps)
qed

lemma move_memory:
  assumes "ram_bus B mem" "bus c = B" "wf_cpu c" "srcEA sm sr" "memEA dm dr"
    and "sz = moveSizeMap ! unat (drop_bit 12 (ir c) AND 3)" "sz \<noteq> sizeZero"
    and "run_state (makeEARead sm sr sz) c = (v, c1)"
    and "run_state (makeEAMemAddr dm dr sz) c1 = (a, c2)" "\<not> halted c2" "operand_ok sz a"
    and c': "c' = c2\<lparr>reg := (reg c2)\<lparr>regSR := logicCCR sz v (regSR (reg c2))\<rparr>,
      busState := busStore B sz (busState c2) (a AND 0xFFFFFF) v, cycles := cycles c2 + moveTime sz sm sr dm dr\<rparr>"
  shows "run_state (makeMOVE sm sr dm dr) c = ((), c') \<and>
    mem (busState c') = poke sz (mem (busState c2)) (a AND 0xFFFFFF) v"
proof -
  define long where "long \<longleftrightarrow> sz = sizeLong"
  have b: "bus c2 = B"
    using bus_kept [OF any_bus.io_makeEARead [OF assms(4)] assms(8)]
      bus_kept [OF any_bus.io_makeEAMemAddr [OF assms(5)] assms(9)] assms(2) by simp
  have m: "dm \<noteq> 0" "sm < 8" "sr < 8" "dm < 8" "dr < 8" using assms(4,5) by (auto simp: srcEA_def memEA_def)
  have "run_state (makeMOVE sm sr dm dr) c = ((), c')"
    unfolding makeMOVE_def Let_def split_def c' moveTime_code [OF m(2-5)]
    by (cases long) (simp_all add: assms(6) [symmetric] long_def [symmetric] assms(8-11) b m(1) ram_bus.run_ram_write [OF assms(1)]
        setFlagsLogical_run [OF assms(7)] add.assoc del: Mask_simps)
  then show ?thesis
    using ram_bus.mem_busStore [OF assms(1,11)] by (simp add: c')
qed

text \<open>
  C27. MOVE copies its operand. Once the source operand has been read, MOVE to a data register replaces
  the low part of the register by it and keeps the rest; MOVE to memory, on a bus that behaves like
  memory, replaces the addressed bytes, big-endian, and no other byte. The negative and zero flags
  describe the operand as a number, overflow and carry are cleared and extend is kept, the time is
  the one of the two timing tables, and nothing else changes.
\<close>

theorem MOVE_copies:
  assumes "ram_bus B mem" "bus c = B" "wf_cpu c" "srcEA sm sr" "altEA dm dr"
    and "sz = moveSizeMap ! unat (drop_bit 12 (ir c) AND 3)" "sz \<noteq> sizeZero"
    and "run_state (makeEARead sm sr sz) c = (v, c1)"
  shows "if dm = 0
    then run_state (makeMOVE sm sr dm dr) c = ((), c1\<lparr>reg := (reg c1)\<lparr>regSR := logicCCR sz v (regSR (reg c1)),
         regD := (regD (reg c1))[unat dr := setLow sz (regD (reg c1) ! unat dr) (uval sz v)]\<rparr>,
       cycles := cycles c1 + moveTime sz sm sr dm dr\<rparr>)
    else \<forall>a c2. run_state (makeEAMemAddr dm dr sz) c1 = (a, c2) \<and> \<not> halted c2 \<and> operand_ok sz a \<longrightarrow>
      (\<exists>s'. mem s' = poke sz (mem (busState c2)) (a AND 0xFFFFFF) v \<and>
        run_state (makeMOVE sm sr dm dr) c = ((), c2\<lparr>reg := (reg c2)\<lparr>regSR := logicCCR sz v (regSR (reg c2))\<rparr>,
          busState := s', cycles := cycles c2 + moveTime sz sm sr dm dr\<rparr>))"
proof (cases "dm = 0")
  case True
  then show ?thesis using move_register [OF assms(3,4) _ assms(6-8), of dr] assms(5) by (simp add: altEA_def)
next
  case False
  then have "memEA dm dr" using assms(5) by (simp add: altEA_def)
  then show ?thesis
    using move_memory [OF assms(1-4) _ assms(6-8) _ _ _ refl, of dm dr] False by auto
qed

theorem MOVE_copies_witness:
  "rd16 (busState (snd (run_state (makeMOVE 0 1 2 0) (rmwCPU\<lparr>ir := 0x3081\<rparr>)))) 0x1000 = 0x0001"
  using MOVE_copies [OF test_ram.ram_bus_axioms, where c = "rmwCPU\<lparr>ir := 0x3081\<rparr>" and sm = 0 and sr = 1 and
    dm = 2 and dr = 0 and sz = sizeWord]
  by (auto simp: wf_cpu_def srcEA_def altEA_def memEA_def moveSizeMap_def makeEARead_def makeEAMemAddr_def operand_ok_def)

end
