(* ===== verification/M68k_Return.thy ===== *)
theory M68k_Return
  imports M68k_Memory M68k_Privilege
begin

text \<open>
  Exceptions and interrupts return. On a bus that behaves like memory, exception processing and
  interrupt processing save the program counter and the status register in a frame on the
  supervisor stack, and RTE restores from that frame the program that was interrupted: its
  program counter, status register and both stack pointers, in whichever mode it ran.
\<close>

subsection \<open>Vocabulary\<close>

text \<open>The supervisor and the user stack pointer, wherever they are at the moment.\<close>

definition supStack :: "'b CPU \<Rightarrow> u32" where
  "supStack c = (if user c then regSSP (reg c) else regA (reg c) ! 7)"

definition userStack :: "'b CPU \<Rightarrow> u32" where
  "userStack c = (if user c then regA (reg c) ! 7 else regUSP (reg c))"

text \<open>The program counter that exception processing saves.\<close>

definition returnPC :: "nat \<Rightarrow> 'b CPU \<Rightarrow> u32" where
  "returnPC vector c = (if vector \<in> {4, 8, 10, 11} then prevPC c else regPC (reg c))"

definition pushFrame :: "u32 \<Rightarrow> u16 \<Rightarrow> ('b, unit) cpuM" where
  "pushFrame pc sr = do { pushLong pc; pushWord sr }"

text \<open>The state after a frame has been pushed and before the vector is taken.\<close>

definition entered :: "u16 \<Rightarrow> u32 \<Rightarrow> 'b CPU \<Rightarrow> 'b CPU" where
  "entered sr pc c = c\<lparr>reg := (reg c)\<lparr>regSR := sr, regUSP := userStack c,
       regA := (regA (reg c))[7 := supStack c - 6]\<rparr>,
     busState := Write16 (bus c) (Write32 (bus c) (busState c) (supStack c - 4) pc) (supStack c - 6)
       (regSR (reg c))\<rparr>"

text \<open>
  \<open>handled mem c c'\<close>: a handler that was entered in \<open>c\<close> has arrived at \<open>c'\<close> and is about to
  return: it is in supervisor mode, the stack pointers are back where they were and the six bytes
  of the frame are intact. Everything else may have changed.
\<close>

definition handled :: "('b \<Rightarrow> bytes) \<Rightarrow> 'b CPU \<Rightarrow> 'b CPU \<Rightarrow> bool" where
  "handled mem c c' \<longleftrightarrow> bus c' = bus c \<and> \<not> halted c' \<and> length (regA (reg c')) = 8 \<and>
     \<not> user c' \<and> supStack c' = supStack c \<and> userStack c' = userStack c \<and>
     rd16 (mem (busState c')) (supStack c) = rd16 (mem (busState c)) (supStack c) \<and>
     rd32 (mem (busState c')) (supStack c + 2) = rd32 (mem (busState c)) (supStack c + 2)"

text \<open>\<open>c'\<close> continues the program that ran in \<open>c\<close> at \<open>pc\<close>.\<close>

definition resumed :: "u32 \<Rightarrow> 'b CPU \<Rightarrow> 'b CPU \<Rightarrow> bool" where
  "resumed pc c c' \<longleftrightarrow> regPC (reg c') = pc \<and> regSR (reg c') = regSR (reg c) \<and>
     regA (reg c') ! 7 = regA (reg c) ! 7 \<and>
     supStack c' = supStack c \<and> userStack c' = userStack c \<and> \<not> halted c'"

subsection \<open>Entering and leaving supervisor mode\<close>

lemma frame_reads:
  assumes "stack_ok 6 sp"
  shows "rd32 (wr16 (wr32 m (sp - 4) pc) (sp - 6) sr) (sp - 4) = pc"
    "unat a + 4 \<le> 1024 \<Longrightarrow> rd32 (wr16 (wr32 m (sp - 4) pc) (sp - 6) sr) a = rd32 m a"
proof -
  have u: "unat (sp - 4) = unat sp - 4" "unat (sp - 6) = unat sp - 6"
    using stack_okD(2) [OF assms, of 4] stack_okD(2) [OF assms, of 6] by simp_all
  have sp: "1030 \<le> unat sp" "unat sp \<le> 0x1000000" using assms by (auto simp: stack_ok_def word_le_nat_alt)
  have "apart (sp - 4) 4 (sp - 6) 2" by (rule apart_below(2)) (use u sp in simp_all)
  then show "rd32 (wr16 (wr32 m (sp - 4) pc) (sp - 6) sr) (sp - 4) = pc" by (simp add: rd_wr_apart rd32_wr32)
  assume "unat a + 4 \<le> 1024"
  then have "apart a 4 (sp - 6) 2" "apart a 4 (sp - 4) 4"
    using u sp by (auto intro!: apart_below(1))
  then show "rd32 (wr16 (wr32 m (sp - 4) pc) (sp - 6) sr) a = rd32 m a" by (simp add: rd_wr_apart)
qed

lemma run_enterSupervisor:
  assumes "length (regA (reg c)) = 8"
  shows "run_state enterSupervisor c = (regSR (reg c), c\<lparr>reg := (reg c)\<lparr>
      regUSP := userStack c, regA := (regA (reg c))[7 := supStack c],
      regSR := (regSR (reg c) OR flagS) AND NOT flagT\<rparr>\<rparr>)"
  using assms by (simp add: enterSupervisor_def user_def userStack_def supStack_def)

lemma entered_fields [simp]:
  "regSR (reg (entered sr pc c)) = sr" "regUSP (reg (entered sr pc c)) = userStack c"
  "regA (reg (entered sr pc c)) = (regA (reg c))[7 := supStack c - 6]"
  "regPC (reg (entered sr pc c)) = regPC (reg c)" "regSSP (reg (entered sr pc c)) = regSSP (reg c)"
  "bus (entered sr pc c) = bus c" "halted (entered sr pc c) = halted c" "cycles (entered sr pc c) = cycles c"
  by (simp_all add: entered_def)

context ram_bus
begin

lemma run_push_frame:
  assumes "bus c = B" "\<not> halted c" "length (regA (reg c)) = 8" "stack_ok 6 (supStack c)"
  shows "run_state (pushFrame pc (regSR (reg c)))
      (c\<lparr>reg := (reg c)\<lparr>regUSP := userStack c, regA := (regA (reg c))[7 := supStack c], regSR := sr\<rparr>\<rparr>) =
    ((), entered sr pc c)"
proof -
  define sp where "sp = supStack c"
  have sp: "stack_ok 6 sp" using assms(4) by (simp add: sp_def)
  have a: "sp - 4 \<le> 0xFFFFFC" "(sp - 4) AND 1 = 0" "sp - 6 \<le> 0xFFFFFF" "(sp - 6) AND 1 = 0"
    using stack_okD(1,4) [OF sp, of 4] stack_okD(1,3) [OF sp, of 6] by simp_all
  show ?thesis
    using assms(1-3) a unfolding entered_def sp_def [symmetric]
    by (simp add: pushFrame_def pushLong_def pushWord_def run_writeLong run_writeWord)
qed

lemma mem_entered:
  assumes "bus c = B" "stack_ok 6 (supStack c)"
  shows "mem (busState (entered sr pc c)) =
    wr16 (wr32 (mem (busState c)) (supStack c - 4) pc) (supStack c - 6) (regSR (reg c))"
proof -
  define sp where "sp = supStack c"
  have sp: "stack_ok 6 sp" using assms(2) by (simp add: sp_def)
  have "sp - 4 \<le> 0xFFFFFC" "(sp - 4) AND 1 = 0" "sp - 6 \<le> 0xFFFFFF" "(sp - 6) AND 1 = 0"
    using stack_okD(1,4) [OF sp, of 4] stack_okD(1,3) [OF sp, of 6] by simp_all
  then show ?thesis using assms(1) unfolding entered_def sp_def [symmetric]
    by (simp add: ram_write16 ram_write32)
qed

lemma run_RTE:
  assumes "bus c = B" "\<not> halted c" "length (regA (reg c)) = 8" "\<not> user c"
    and sp: "stack_ok 6 sp" "regA (reg c) ! 7 = sp - 6"
  shows "run_state opRTE c = (let sr = rd16 (mem (busState c)) (sp - 6) in
    ((), c\<lparr>reg := (reg c)\<lparr>regPC := rd32 (mem (busState c)) (sp - 4), regSR := sr AND 0xA71F,
        regSSP := (if sr AND flagS = 0 then sp else regSSP (reg c)),
        regA := (regA (reg c))[7 := if sr AND flagS = 0 then regUSP (reg c) else sp]\<rparr>,
      cycles := cycles c + 20\<rparr>))"
proof -
  have a: "sp - 4 \<le> 0xFFFFFC" "(sp - 4) AND 1 = 0" "sp - 6 \<le> 0xFFFFFF" "(sp - 6) AND 1 = 0"
    using stack_okD(1,4) [OF sp(1), of 4] stack_okD(1,3) [OF sp(1), of 6] by simp_all
  have [simp]: "ucast (ucast w :: u32) = (w :: u16)" for w by (simp add: bits16)
  show ?thesis
    using assms(1-4) sp(2) a
    by (simp add: opRTE_def supervisor_def user_def popWord_def popLong_def run_readWord run_readLong
      setSR_def Let_def)
qed

lemma resume:
  assumes "bus c = B" "length (regA (reg c)) = 8" "stack_ok 6 (supStack c)" "sr_ok (regSR (reg c))"
    and sr: "sr AND flagS \<noteq> 0" and h: "handled mem (entered sr pc c) c'"
  shows "resumed pc c (snd (run_state opRTE c'))"
proof -
  define sp where "sp = supStack c"
  have sp: "supStack (entered sr pc c) = sp - 6" "userStack (entered sr pc c) = userStack c"
    using sr assms(2) by (simp_all add: supStack_def [of "entered sr pc c"]
      userStack_def [of "entered sr pc c"] user_def sp_def)
  have ok: "stack_ok 6 sp" using assms(3) by (simp add: sp_def)
  have m: "rd16 (mem (busState c')) (sp - 6) = regSR (reg c)" "rd32 (mem (busState c')) (sp - 4) = pc"
    using h frame_reads(1) [OF ok] mem_entered [OF assms(1,3), of sr pc, folded sp_def]
    by (simp_all add: handled_def sp rd16_wr16)
  have c': "bus c' = B" "\<not> halted c'" "length (regA (reg c')) = 8" "\<not> user c'"
    "regA (reg c') ! 7 = sp - 6" "regUSP (reg c') = userStack c"
    using h assms(1) by (auto simp: handled_def sp supStack_def [of c'] userStack_def [of c'])
  have "regSR (reg c) AND 0xA71F = regSR (reg c)" using assms(4) by (simp add: sr_ok_def bits16)
  then show ?thesis
    using run_RTE [OF c'(1-4) ok c'(5)] c' m
    by (auto simp: resumed_def Let_def supStack_def userStack_def user_def sp_def)
qed

lemma vector_address:
  assumes "v < 256"
  shows "unat (of_nat v * 4 :: u32) = 4 * v" "(of_nat v * 4 :: u32) \<le> 0xFFFFFC" "(of_nat v * 4 :: u32) AND 1 = 0"
proof -
  have "unat (of_nat (v * 4) :: u32) = v * 4"
    using assms by (simp only: unat_of_nat) (simp add: take_bit_nat_eq_self)
  then show u: "unat (of_nat v * 4 :: u32) = 4 * v" by simp
  show "(of_nat v * 4 :: u32) \<le> 0xFFFFFC" using assms by (simp add: word_le_nat_alt u)
  show "(of_nat v * 4 :: u32) AND 1 = 0" by (simp add: and_one_eq flip: even_iff_mod_2_eq_zero)
qed

lemma run_vector:
  assumes "bus c = B" "\<not> halted c" "stack_ok 6 (supStack c)" "v < 256"
  shows "run_state (readBus sizeLong (of_nat v * 4)) (entered sr pc c) =
    (rd32 (mem (busState c)) (of_nat v * 4), entered sr pc c)"
  using assms vector_address [OF assms(4)] frame_reads(2) [OF assms(3)]
  by (simp add: run_readLong mem_entered)

lemma run_exception:
  assumes "bus c = B" "\<not> halted c" "length (regA (reg c)) = 8" "stack_ok 6 (supStack c)" "v < 256"
    and "rd32 (mem (busState c)) (of_nat v * 4) \<noteq> 0"
  shows "run_state (exception v) c =
    ((), (entered ((regSR (reg c) OR flagS) AND NOT flagT) (returnPC v c) c)
       \<lparr>reg := (reg (entered ((regSR (reg c) OR flagS) AND NOT flagT) (returnPC v c) c))
           \<lparr>regPC := rd32 (mem (busState c)) (of_nat v * 4)\<rparr>,
        cycles := cycles c + 34\<rparr>)"
proof -
  have e: "exception v = do {
     pc \<leftarrow> getPC;
     pp \<leftarrow> gets prevPC;
     oldSR \<leftarrow> enterSupervisor;
     pushFrame (if v \<in> {4, 8, 10, 11} then pp else pc) oldSR;
     addr \<leftarrow> readBus sizeLong (of_nat v * 4);
     if addr = 0 then do {
       addr \<leftarrow> readBus sizeLong (vecUninitialized * 4);
       if addr = 0 then setHalted
       else do { putPC addr; addCycles 34 } }
     else do { putPC addr; addCycles 34 } }"
    unfolding exception_enterSupervisor by (simp add: Let_def pushFrame_def)
  show ?thesis unfolding e using assms run_push_frame [OF assms(1-4)]
    by (simp add: run_enterSupervisor run_vector returnPC_def split del: if_split)
qed

lemma run_processInterrupt:
  assumes "bus c = B" "\<not> halted c" "length (regA (reg c)) = 8" "stack_ok 6 (supStack c)"
    and "rd32 (mem (busState c)) (of_nat v * 4) \<noteq> 0"
    and "v = (case pendingVec c of Some n \<Rightarrow> unat n | None \<Rightarrow> 24 + unat (pendingIPL c))"
    and "pendingIPL c \<le> 7"
    and "sr = (((regSR (reg c) OR flagS) AND NOT flagT) AND 0xF8FF) OR push_bit 8 (ucast (pendingIPL c))"
  shows "run_state processInterrupt c =
    ((), (entered sr (regPC (reg c)) c)
       \<lparr>reg := (reg (entered sr (regPC (reg c)) c))\<lparr>regPC := rd32 (mem (busState c)) (of_nat v * 4)\<rparr>,
        pendingIPL := 0, pendingVec := None, stopped := False, cycles := cycles c + 44\<rparr>)"
proof -
  define vn where "vn = (case pendingVec c of Some n \<Rightarrow> n | None \<Rightarrow> 24 + pendingIPL c)"
  have "unat (24 + pendingIPL c) = 24 + unat (pendingIPL c)"
    using assms(7) by (simp add: unat_plus_if' word_le_nat_alt)
  then have v: "v = unat vn" using assms(6) by (auto simp: vn_def split: option.splits)
  then have v256: "v < 256" using unsigned_less [of vn] by simp
  have vec: "(ucast vn :: u32) = of_nat v" by (simp add: v)
  have e: "processInterrupt = do {
     level \<leftarrow> gets pendingIPL;
     vec \<leftarrow> gets pendingVec;
     modify (\<lambda>c. c\<lparr>pendingIPL := 0, pendingVec := None\<rparr>);
     oldSR \<leftarrow> enterSupervisor;
     sr \<leftarrow> getSR;
     putSR ((sr AND 0xF8FF) OR push_bit 8 (ucast level));
     pc \<leftarrow> getPC;
     pushFrame pc oldSR;
     let vectorNum = (case vec of Some v \<Rightarrow> v | None \<Rightarrow> 24 + level);
     addr \<leftarrow> readBus sizeLong (ucast vectorNum * 4);
     addr \<leftarrow> (if addr = 0 then readBus sizeLong (vecSpuriousInterrupt * 4) else return addr);
     putPC addr;
     modify (\<lambda>c. c\<lparr>stopped := False\<rparr>);
     addCycles 44 }"
    unfolding processInterrupt_def enterSupervisor_def pushFrame_def by simp
  let ?c = "c\<lparr>pendingIPL := 0, pendingVec := None\<rparr>"
  have s: "supStack ?c = supStack c" "userStack ?c = userStack c" "entered sr pc ?c =
      (entered sr pc c)\<lparr>pendingIPL := 0, pendingVec := None\<rparr>" for sr pc
    by (simp_all add: supStack_def userStack_def user_def entered_def)
  show ?thesis unfolding e using assms(1-5) run_push_frame [of ?c] run_vector [of ?c v] v256
    by (simp add: run_enterSupervisor s vec vn_def [symmetric] assms(8) split del: if_split)
qed

text \<open>The interrupt check services an accepted interrupt, and RTE returns from it.\<close>

lemma service:
  assumes "bus c = B" "wf_cpu c" "\<not> halted c" "sr_valid c"
    and "stack_ok 6 (supStack c)" "0 < pendingIPL c"
    and "ucast (drop_bit 8 (regSR (reg c)) AND 7) < pendingIPL c \<or> pendingIPL c = 7"
    and "v = (case pendingVec c of Some n \<Rightarrow> unat n | None \<Rightarrow> 24 + unat (pendingIPL c))"
    and "rd32 (mem (busState c)) (of_nat v * 4) \<noteq> 0"
    and c1: "c1 = snd (run_state checkInterrupt c)"
  shows "regPC (reg c1) = rd32 (mem (busState c)) (of_nat v * 4) \<and> \<not> user c1 \<and>
    regSR (reg c1) AND flagT = 0 \<and> drop_bit 8 (regSR (reg c1)) AND 7 = ucast (pendingIPL c) \<and>
    pendingIPL c1 = 0 \<and> \<not> stopped c1 \<and> cycles c1 = cycles c + 44 \<and> \<not> halted c1 \<and>
    (\<forall>c2. handled mem c1 c2 \<longrightarrow> resumed (regPC (reg c)) c (snd (run_state opRTE c2)))"
proof -
  let ?sr = "(((regSR (reg c) OR flagS) AND NOT flagT) AND 0xF8FF) OR push_bit 8 (ucast (pendingIPL c))"
  let ?e = "entered ?sr (regPC (reg c)) c"
  have l: "length (regA (reg c)) = 8" using assms(2) by (simp add: wf_cpu_def)
  have ipl: "pendingIPL c \<le> 7" "sr_ok (regSR (reg c))" using assms(4) by (simp_all add: sr_valid_def)
  have c1': "c1 = ?e\<lparr>reg := (reg ?e)\<lparr>regPC := rd32 (mem (busState c)) (of_nat v * 4)\<rparr>,
      pendingIPL := 0, pendingVec := None, stopped := False, cycles := cycles c + 44\<rparr>"
    using run_processInterrupt [OF assms(1,3) l assms(5,9,8) ipl(1) refl] c1 assms(6,7)
    by (auto simp: run_checkInterrupt)
  have sr: "?sr AND flagS \<noteq> 0" "?sr AND flagT = 0" "drop_bit 8 ?sr AND 7 = ucast (pendingIPL c)"
    by (subst le_7_mask [OF ipl(1)], simp add: bits16)+
  have "handled mem c1 c2 \<longleftrightarrow> handled mem ?e c2" for c2
    by (simp add: c1' handled_def supStack_def userStack_def user_def)
  then show ?thesis
    using resume [OF assms(1) l assms(5) ipl(2) sr(1)] sr assms(3)
    by (simp add: c1' user_def)
qed

end

subsection \<open>The properties\<close>

text \<open>
  C10. Exceptions return. On a bus that behaves like memory, exception processing for a vector with
  an entry takes 34 cycles, continues in supervisor mode with tracing off at the address of the
  vector table, and whenever the handler comes to an RTE with the stack pointers and the frame as
  it found them, RTE resumes the interrupted program: at the instruction itself for the illegal
  instruction, privilege violation and line A and F exceptions and at the next instruction
  otherwise, with its status register and both stack pointers.
\<close>

theorem exception_returns:
  assumes "ram_bus B mem" "bus c = B" "wf_cpu c" "\<not> halted c" "sr_ok (regSR (reg c))"
    and "stack_ok 6 (supStack c)" "v < 256" "rd32 (mem (busState c)) (of_nat v * 4) \<noteq> 0"
    and c1: "c1 = snd (run_state (exception v) c)"
  shows "regPC (reg c1) = rd32 (mem (busState c)) (of_nat v * 4) \<and> \<not> user c1 \<and>
    regSR (reg c1) AND flagT = 0 \<and> cycles c1 = cycles c + 34 \<and> \<not> halted c1 \<and>
    (\<forall>c2. handled mem c1 c2 \<longrightarrow> resumed (returnPC v c) c (snd (run_state opRTE c2)))"
proof -
  let ?sr = "(regSR (reg c) OR flagS) AND NOT flagT"
  let ?e = "entered ?sr (returnPC v c) c"
  have l: "length (regA (reg c)) = 8" using assms(3) by (simp add: wf_cpu_def)
  have c1': "c1 = ?e\<lparr>reg := (reg ?e)\<lparr>regPC := rd32 (mem (busState c)) (of_nat v * 4)\<rparr>, cycles := cycles c + 34\<rparr>"
    using ram_bus.run_exception [OF assms(1,2,4) l assms(6-8)] c1 by simp
  have sr: "?sr AND flagS \<noteq> 0" "?sr AND flagT = 0" by (simp_all add: bits16)
  have "handled mem c1 c2 \<longleftrightarrow> handled mem ?e c2" for c2
    by (simp add: c1' handled_def supStack_def userStack_def user_def)
  then show ?thesis
    using ram_bus.resume [OF assms(1,2) l assms(6,5) sr(1)] sr assms(4)
    by (simp add: c1' user_def)
qed

definition trapMem :: testMem where
  "trapMem = (\<lambda>_. 0)(0x82 := 0x12)"

theorem exception_returns_witness:
  "let c = ramCPU trapMem 0x5000 0x0004; c1 = snd (run_state (exception 32) c)
   in regPC (reg c1) = 0x1200 \<and> resumed 0x5000 c (snd (run_state opRTE c1))"
proof -
  let ?c = "ramCPU trapMem 0x5000 0x0004"
  let ?c1 = "snd (run_state (exception 32) ?c)"
  have s: "supStack ?c = 0x2000" by (simp add: supStack_def user_def)
  have v: "rd32 trapMem 128 = 0x1200" by (simp add: trapMem_def rd32_def)
  have *: "regPC (reg ?c1) = 0x1200 \<and> \<not> user ?c1 \<and> regSR (reg ?c1) AND flagT = 0 \<and>
    cycles ?c1 = cycles ?c + 34 \<and> \<not> halted ?c1 \<and>
    (\<forall>c2. handled (\<lambda>m. m) ?c1 c2 \<longrightarrow> resumed (returnPC 32 ?c) ?c (snd (run_state opRTE c2)))"
    using exception_returns [OF test_ram.ram_bus_axioms, of ?c 32 ?c1] s v
    by (simp add: wf_cpu_def zeroRegisters_def sr_ok_def stack_ok_def)
  have "wf_cpu ?c1"
    using keeps_wf.io_exception [of 32, THEN state_io_relD, of ?c "()" ?c1]
    by (simp add: keeps_wf_def wf_cpu_def zeroRegisters_def prod_eq_iff)
  with * have "handled (\<lambda>m. m) ?c1 ?c1" by (simp add: handled_def wf_cpu_def)
  with * show ?thesis by (simp add: Let_def returnPC_def)
qed

text \<open>
  C11. Interrupts are serviced and return. On a bus that behaves like memory, the interrupt check
  that every step of a running or stopped CPU makes services a pending interrupt above the mask
  or of level 7: the request is cleared, the CPU leaves the stopped state and continues, 44 cycles
  later, in supervisor mode with tracing off, the mask raised to the level of the request and the
  program counter from the vector table (the autovector unless the device gave a vector). RTE then
  resumes the interrupted program.
\<close>

theorem interrupt_returns:
  assumes "ram_bus B mem" "bus c = B" "wf_cpu c" "\<not> halted c" "sr_valid c"
    and "stack_ok 6 (supStack c)" "0 < pendingIPL c"
    and "ucast (drop_bit 8 (regSR (reg c)) AND 7) < pendingIPL c \<or> pendingIPL c = 7"
    and "v = (case pendingVec c of Some n \<Rightarrow> unat n | None \<Rightarrow> 24 + unat (pendingIPL c))"
    and "rd32 (mem (busState c)) (of_nat v * 4) \<noteq> 0"
    and c1: "c1 = snd (run_state checkInterrupt c)"
  shows "regPC (reg c1) = rd32 (mem (busState c)) (of_nat v * 4) \<and> \<not> user c1 \<and>
    regSR (reg c1) AND flagT = 0 \<and> drop_bit 8 (regSR (reg c1)) AND 7 = ucast (pendingIPL c) \<and>
    pendingIPL c1 = 0 \<and> \<not> stopped c1 \<and> cycles c1 = cycles c + 44 \<and> \<not> halted c1 \<and>
    (\<forall>c2. handled mem c1 c2 \<longrightarrow> resumed (regPC (reg c)) c (snd (run_state opRTE c2)))"
  using ram_bus.service [OF assms] .

definition waitingCPU :: "testMem CPU" where
  "waitingCPU = (ramCPU (trapMem(0x76 := 0x15)) 0x5000 0x2404)\<lparr>pendingIPL := 5, stopped := True\<rparr>"

lemma waitingCPU_simps:
  "bus waitingCPU = testBus" "wf_cpu waitingCPU" "\<not> halted waitingCPU" "sr_valid waitingCPU"
  "stack_ok 6 (supStack waitingCPU)" "pendingIPL waitingCPU = 5" "pendingVec waitingCPU = None"
  "drop_bit 8 (regSR (reg waitingCPU)) AND 7 = 4" "regPC (reg waitingCPU) = 0x5000"
  "rd32 (busState waitingCPU) 116 = 0x1500"
  by (simp_all add: waitingCPU_def supStack_def user_def wf_cpu_def zeroRegisters_def sr_valid_def
    sr_ok_def stack_ok_def trapMem_def rd32_def)

theorem interrupt_returns_witness:
  "let c1 = snd (run_state checkInterrupt waitingCPU)
   in regPC (reg c1) = 0x1500 \<and> \<not> stopped c1 \<and> resumed 0x5000 waitingCPU (snd (run_state opRTE c1))"
proof -
  let ?c1 = "snd (run_state checkInterrupt waitingCPU)"
  have *: "regPC (reg ?c1) = 0x1500 \<and> \<not> user ?c1 \<and> \<not> stopped ?c1 \<and> \<not> halted ?c1 \<and>
    (\<forall>c2. handled (\<lambda>m. m) ?c1 c2 \<longrightarrow> resumed 0x5000 waitingCPU (snd (run_state opRTE c2)))"
    using interrupt_returns [OF test_ram.ram_bus_axioms waitingCPU_simps(1-5), of 29 ?c1]
    by (simp add: waitingCPU_simps)
  have "wf_cpu ?c1"
    using keeps_wf.io_checkInterrupt [THEN state_io_relD, of waitingCPU "()" ?c1] waitingCPU_simps(2)
    by (simp add: keeps_wf_def prod_eq_iff)
  with * have "handled (\<lambda>m. m) ?c1 ?c1" by (simp add: handled_def wf_cpu_def)
  with * show ?thesis by (simp add: Let_def)
qed

end
