(* ===== verification/Spec_Program.thy ===== *)
theory Spec_Program
  imports M68k_Return M68k_Opcode
begin

text \<open>
  Programs in memory. On a bus that behaves like memory, \<open>Step\<close> fetches the word at the program
  counter and runs the handler that the reference decoder assigns to it (\<open>run_Step_ram\<close>); from this
  follows the behaviour of whole instruction sequences. Here counted loops end; other theories add
  STOP, traps, calls and the programs that copy, compare and store.
\<close>

subsection \<open>One step of a program in memory\<close>

text \<open>The CPU executes instructions: it is neither halted nor stopped and no interrupt is accepted.\<close>

definition accepts :: "'b CPU \<Rightarrow> bool" where
  "accepts c \<longleftrightarrow> pendingIPL c \<noteq> 0 \<and>
     (pendingIPL c > ucast (drop_bit 8 (regSR (reg c)) AND 7) \<or> pendingIPL c = 7)"

definition running :: "'b CPU \<Rightarrow> bool" where
  "running c \<longleftrightarrow> \<not> halted c \<and> \<not> stopped c \<and> \<not> accepts c"

definition fetched :: "u16 \<Rightarrow> 'b CPU \<Rightarrow> 'b CPU" where
  "fetched op c = c\<lparr>prevPC := regPC (reg c), ir := op,
     reg := (reg c)\<lparr>regPC := regPC (reg c) + 2, regIR := op\<rparr>\<rparr>"

text \<open>Room for \<open>n\<close> bytes of code at the program counter.\<close>

definition code_ok :: "nat \<Rightarrow> u32 \<Rightarrow> bool" where
  "code_ok n a \<longleftrightarrow> a AND 1 = 0 \<and> unat a + n \<le> 0x1000000"

lemma code_okD:
  assumes "code_ok n a" "d + 2 \<le> n" "even d"
  shows "a + of_nat d \<le> 0xFFFFFF" "(a + of_nat d) AND 1 = 0"
proof -
  have "unat (of_nat (unat a + d) :: u32) \<le> unat a + d"
    unfolding unat_of_nat by (rule mod_less_eq_dividend)
  then have "unat (a + of_nat d) \<le> unat a + d" by simp
  then show "a + of_nat d \<le> 0xFFFFFF" using assms by (simp add: code_ok_def word_le_nat_alt)
  show "(a + of_nat d) AND 1 = 0" using assms by (simp add: code_ok_def and_one_eq flip: even_iff_mod_2_eq_zero)
qed

lemma code_ok_shift: "code_ok n a \<Longrightarrow> d + k \<le> n \<Longrightarrow> even d \<Longrightarrow> 2 \<le> k \<Longrightarrow> code_ok k (a + of_nat d)"
  using code_okD [of n a d] unat_add_small [of a d] by (simp add: code_ok_def)

lemma run_checkInterrupt_idle: "\<not> accepts c \<Longrightarrow> run_state checkInterrupt c = ((), c)"
  by (auto simp: accepts_def run_checkInterrupt)

context ram_bus
begin

lemma run_Step_ram:
  assumes "bus c = B" "running c" "code_ok 2 (regPC (reg c))" "rd16 (mem (busState c)) (regPC (reg c)) = op"
    and "decode op = Some h" "c' = checkPC (snd (run_state h (fetched op c)))"
  shows "run_state Step c = (sint (cycles c' - cycles c), c')"
proof -
  have pc: "regPC (reg c) AND 1 = 0" "regPC (reg c) \<le> 0xFFFFFF"
    using code_okD [OF assms(3), of 0] by simp_all
  have "snd (run_state execute c) = c'"
    using assms(1,2,4-6) pc run_fetch [of "c\<lparr>prevPC := regPC (reg c)\<rparr>"]
    by (simp add: execute_def dispatch_def opcodeTable_eq_decode running_def fetched_def checkPC_def split_def)
  then show ?thesis using assms(2) pc(1) by (simp add: run_Step running_def run_checkInterrupt_idle)
qed

end

subsection \<open>Counted loops\<close>

definition dbcc :: "u16 \<Rightarrow> u16 \<Rightarrow> u16" where
  "dbcc cc dn = 0x50C8 OR push_bit 8 cc OR dn"

text \<open>The CPU is at a DBcc that branches to itself and whose condition is false.\<close>

definition at_DBcc :: "('b \<Rightarrow> bytes) \<Rightarrow> u16 \<Rightarrow> u16 \<Rightarrow> 'b CPU \<Rightarrow> bool" where
  "at_DBcc mem cc dn c \<longleftrightarrow> running c \<and> wf_cpu c \<and> code_ok 4 (regPC (reg c)) \<and>
     rd16 (mem (busState c)) (regPC (reg c)) = dbcc cc dn \<and>
     rd16 (mem (busState c)) (regPC (reg c) + 2) = 0xFFFE \<and>
     \<not> fst (run_state (testCondition cc) c)"

definition counter :: "u16 \<Rightarrow> 'b CPU \<Rightarrow> nat" where
  "counter dn c = unat (ucast (regD (reg c) ! unat dn) :: u16)"

lemma counter_bound: "counter dn c < 65536"
  using unsigned_less [of "ucast (regD (reg c) ! unat dn) :: u16"] by (simp add: counter_def)

lemma low_word_replaced:
  assumes "k < 65536"
  shows "unat (ucast ((d AND 0xFFFF0000) OR of_nat k :: u32) :: u16) = k"
    "((d AND 0xFFFF0000) OR of_nat k) AND 0xFFFF0000 = (d AND 0xFFFF0000 :: u32)"
proof -
  have u: "unat (of_nat k :: u16) = k" using assms by (simp add: unat_of_nat take_bit_nat_eq_self)
  have w: "(of_nat k :: u32) = ucast (of_nat k :: u16)" using of_nat_unat [of "of_nat k :: u16"] by (simp only: u)
  have v: "ucast ((d AND 0xFFFF0000) OR of_nat k) = (of_nat k :: u16)" unfolding w by (simp add: bits16)
  show "unat (ucast ((d AND 0xFFFF0000) OR of_nat k :: u32) :: u16) = k" by (simp only: v u)
  show "((d AND 0xFFFF0000) OR of_nat k) AND 0xFFFF0000 = (d AND 0xFFFF0000 :: u32)"
    unfolding w by (simp add: bits32)
qed

lemma dbcc_fields:
  assumes "cc < 16" "dn < 8"
  shows "decode (dbcc cc dn) = Some opDBcc" "dbcc cc dn AND 7 = dn" "drop_bit 8 (dbcc cc dn) AND 0xF = cc"
proof -
  have "cc \<in> set (range16 0 16)" "dn \<in> set (range16 0 8)" using assms by simp_all
  then have *: "(dbcc cc dn, opDBcc) \<in> set (registerDBcc :: 'a stores)"
    by (auto simp: registerDBcc_def dbcc_def simp del: set_range16)
  have "(dbcc cc dn, opDBcc) \<in> set (all_stores :: 'a stores)"
    using * by (simp add: all_stores_def init_branch_def)
  then show "decode (dbcc cc dn) = Some (opDBcc :: 'a opFunc)" by (simp add: in_all_stores)
  show "dbcc cc dn AND 7 = dn" "drop_bit 8 (dbcc cc dn) AND 0xF = cc"
    using assms by (auto simp: dbcc_def unpack_bits dest!: lessDs)
qed

context ram_bus
begin

lemma step_DBcc:
  assumes "bus c = B" "running c" "wf_cpu c" "code_ok 4 (regPC (reg c))" "cc < 16" "dn < 8"
    and "rd16 (mem (busState c)) (regPC (reg c)) = dbcc cc dn"
    and "rd16 (mem (busState c)) (regPC (reg c) + 2) = disp" "(scast disp :: u32) AND 1 = 0"
    and "\<not> fst (run_state (testCondition cc) c)"
    and k: "k = unat (ucast (regD (reg c) ! unat dn) :: u16)"
  shows "step c = (fetched (dbcc cc dn) c)
    \<lparr>reg := (reg c)\<lparr>regIR := dbcc cc dn, regPC := regPC (reg c) + (if k = 0 then 4 else 2 + scast disp),
       regD := (regD (reg c))[unat dn := (regD (reg c) ! unat dn AND 0xFFFF0000) OR
         (if k = 0 then 0xFFFF else of_nat (k - 1))]\<rparr>,
     cycles := cycles c + (if k = 0 then 14 else 10)\<rparr>"
proof -
  let ?c = "fetched (dbcc cc dn) c"
  let ?w = "ucast (regD (reg c) ! unat dn) :: u16"
  have dn: "unat dn < 8" using assms(6) by (simp add: word_less_nat_alt)
  have l: "length (regD (reg c)) = 8" using assms(3) by (simp add: wf_cpu_def)
  have pc: "regPC (reg c) + 2 \<le> 0xFFFFFF" "(regPC (reg c) + 2) AND 1 = 0" "regPC (reg c) AND 1 = 0"
    using code_okD [OF assms(4), of 2] code_okD [OF assms(4), of 0] by simp_all
  have f: "run_state fetchPC ?c = (disp, ?c\<lparr>reg := (reg ?c)\<lparr>regPC := regPC (reg c) + 4\<rparr>\<rparr>)"
    using run_fetch [of ?c] assms(1,2,8) pc by (simp add: fetched_def running_def add.assoc)
  have t: "run_state (testCondition cc) c' = (False, c')"
    if "regSR (reg c') = regSR (reg c)" for c' :: "'b CPU"
    using assms(10) that by (simp add: testCondition_def Let_def)
  have w: "ucast (regD (reg c) ! unat dn AND 0xFFFF) = ?w" by (simp add: bits16)
  have w1: "?w - 1 = - 1 \<longleftrightarrow> k = 0" by (simp add: k unat_eq_0)
  have w2: "(ucast (?w - 1) :: u32) = (if k = 0 then 0xFFFF else of_nat (k - 1))"
  proof (cases "k = 0")
    case False
    then have "unat (?w - 1) = k - 1" using unat_minus_one [of ?w] by (auto simp: k unat_eq_0)
    moreover have "(ucast (?w - 1) :: u32) = of_nat (unat (?w - 1))" by (simp only: of_nat_unat)
    ultimately show ?thesis using False by simp
  qed (simp add: k unat_eq_0 bits32)
  let ?c' = "?c\<lparr>reg := (reg c)\<lparr>regIR := dbcc cc dn, regPC := regPC (reg c) + (if k = 0 then 4 else 2 + scast disp),
       regD := (regD (reg c))[unat dn := (regD (reg c) ! unat dn AND 0xFFFF0000) OR ucast (?w - 1)]\<rparr>,
     cycles := cycles c + (if k = 0 then 14 else 10)\<rparr>"
  have r: "snd (run_state opDBcc ?c) = ?c'"
    using l dn t f w w1 dbcc_fields(2,3) [OF assms(5,6)]
    by (simp add: opDBcc_def Let_def fetched_def algebra_simps)
  have "(regPC (reg c) + (if k = 0 then 4 else 2 + scast disp)) AND 1 = 0"
    using pc(3) assms(9) by (simp add: and_one_eq flip: even_iff_mod_2_eq_zero)
  then have "?c' = checkPC (snd (run_state opDBcc ?c))" unfolding r by (simp add: checkPC_def)
  moreover have "code_ok 2 (regPC (reg c))" using assms(4) by (simp add: code_ok_def)
  ultimately show ?thesis
    using run_Step_ram [OF assms(1,2) _ assms(7) dbcc_fields(1) [OF assms(5,6)], of ?c']
    unfolding w2 [symmetric] by (simp add: step_def)
qed

lemma at_DBcc_step:
  assumes "bus c = B" "at_DBcc mem cc dn c" "cc < 16" "dn < 8" "counter dn c = k"
  defines "v \<equiv> (regD (reg c) ! unat dn AND 0xFFFF0000) OR (if k = 0 then 0xFFFF else of_nat (k - 1))"
  shows "regPC (reg (step c)) = regPC (reg c) + (if k = 0 then 4 else 0)"
    "cycles (step c) = cycles c + (if k = 0 then 14 else 10)"
    "regD (reg (step c)) = (regD (reg c))[unat dn := v]" "regA (reg (step c)) = regA (reg c)"
    "bus (step c) = B" "busState (step c) = busState c" "\<not> halted (step c)"
    "k \<noteq> 0 \<Longrightarrow> at_DBcc mem cc dn (step c)"
proof -
  have self: "2 + scast (0xFFFE :: u16) = (0 :: u32)" by simp
  have *: "step c = (fetched (dbcc cc dn) c)\<lparr>reg := (reg c)\<lparr>regIR := dbcc cc dn,
       regPC := regPC (reg c) + (if k = 0 then 4 else 0), regD := (regD (reg c))[unat dn := v]\<rparr>,
     cycles := cycles c + (if k = 0 then 14 else 10)\<rparr>"
    unfolding v_def
    by (rule step_DBcc [where disp = "0xFFFE", unfolded self]) (use assms in \<open>simp_all add: at_DBcc_def counter_def\<close>)
  show "regPC (reg (step c)) = regPC (reg c) + (if k = 0 then 4 else 0)"
    "cycles (step c) = cycles c + (if k = 0 then 14 else 10)"
    "regD (reg (step c)) = (regD (reg c))[unat dn := v]" "regA (reg (step c)) = regA (reg c)"
    "bus (step c) = B" "busState (step c) = busState c" "\<not> halted (step c)"
    using assms(1,2) by (simp_all add: * fetched_def at_DBcc_def running_def)
  show "k \<noteq> 0 \<Longrightarrow> at_DBcc mem cc dn (step c)"
    using assms(2) by (simp add: * fetched_def at_DBcc_def running_def accepts_def wf_cpu_def
      testCondition_def Let_def)
qed

lemma counter_step:
  assumes "bus c = B" "at_DBcc mem cc dn c" "cc < 16" "dn < 8" "counter dn c = Suc k"
  shows "counter dn (step c) = k"
    "regD (reg (step c)) ! unat dn AND 0xFFFF0000 = regD (reg c) ! unat dn AND 0xFFFF0000"
proof -
  have "unat dn < length (regD (reg c))"
    using assms(2,4) by (simp add: at_DBcc_def wf_cpu_def word_less_nat_alt)
  then have r: "regD (reg (step c)) ! unat dn = (regD (reg c) ! unat dn AND 0xFFFF0000) OR of_nat k"
    using at_DBcc_step(3) [OF assms] by simp
  have "k < 65536" using counter_bound [of dn c] assms(5) by simp
  note low_word_replaced [OF this, of "regD (reg c) ! unat dn"]
  then show "counter dn (step c) = k"
    "regD (reg (step c)) ! unat dn AND 0xFFFF0000 = regD (reg c) ! unat dn AND 0xFFFF0000"
    by (simp_all only: counter_def r)
qed

lemma DBcc_loop:
  assumes "bus c = B" "at_DBcc mem cc dn c" "cc < 16" "dn < 8" "counter dn c = k"
  shows "let c' = (step ^^ (k + 1)) c; d = regD (reg c) ! unat dn
    in regPC (reg c') = regPC (reg c) + 4 \<and> cycles c' = cycles c + 10 * of_nat k + 14 \<and>
       regD (reg c') = (regD (reg c))[unat dn := (d AND 0xFFFF0000) OR 0xFFFF] \<and>
       regA (reg c') = regA (reg c) \<and> busState c' = busState c \<and> \<not> halted c' \<and>
       (\<forall>j \<le> k. regPC (reg ((step ^^ j) c)) = regPC (reg c))"
  using assms
proof (induction k arbitrary: c)
  case 0
  then show ?case using at_DBcc_step [OF 0] by simp
next
  case (Suc k)
  note s = at_DBcc_step [OF Suc.prems] and n = counter_step [OF Suc.prems]
  have "\<forall>j \<le> Suc k. regPC (reg ((step ^^ j) c)) = regPC (reg c)"
    if "\<forall>j \<le> k. regPC (reg ((step ^^ j) (step c))) = regPC (reg c)"
  proof (intro allI impI)
    fix j assume "j \<le> Suc k"
    then show "regPC (reg ((step ^^ j) c)) = regPC (reg c)"
      using that by (cases j) (simp_all add: funpow_swap1)
  qed
  then show ?case
    using Suc.IH [OF s(5) s(8) Suc.prems(3,4) n(1)] s(1-7) n(2)
    by (simp add: Let_def funpow_swap1 algebra_simps)
qed

end

text \<open>
  C31. Counted loops end. A DBcc that branches to itself and whose condition is false, in memory at
  the program counter, counts its register down to \<open>- 1\<close>: with the low word \<open>k\<close>, after exactly
  \<open>k + 1\<close> steps and \<open>10 k + 14\<close> cycles the CPU is behind the loop, the low word of the register is
  \<open>0xFFFF\<close> and its high word, the other registers and memory are unchanged; up to then the program
  counter stays at the loop.
\<close>

theorem DBcc_loop_ends:
  assumes "ram_bus B mem" "bus c = B" "at_DBcc mem cc dn c" "cc < 16" "dn < 8" "counter dn c = k"
  shows "let c' = (step ^^ (k + 1)) c; d = regD (reg c) ! unat dn
    in regPC (reg c') = regPC (reg c) + 4 \<and> cycles c' = cycles c + 10 * of_nat k + 14 \<and>
       regD (reg c') = (regD (reg c))[unat dn := (d AND 0xFFFF0000) OR 0xFFFF] \<and>
       regA (reg c') = regA (reg c) \<and> busState c' = busState c \<and> \<not> halted c' \<and>
       (\<forall>j \<le> k. regPC (reg ((step ^^ j) c)) = regPC (reg c))"
  using ram_bus.DBcc_loop [OF assms] .

text \<open>The loop \<open>DBRA D3, *\<close> at address \<open>0x1000\<close> with five as the low word of D3.\<close>

definition loopCPU :: "testMem CPU" where
  "loopCPU = (ramCPU ((\<lambda>_. 0)(0x1000 := 0x51, 0x1001 := 0xCB, 0x1002 := 0xFF, 0x1003 := 0xFE)) 0x1000 0x2000)
     \<lparr>reg := zeroRegisters\<lparr>regPC := 0x1000, regD := [0, 0, 0, 0x70005, 0, 0, 0, 0]\<rparr>\<rparr>"

theorem DBcc_loop_ends_witness:
  "regPC (reg ((step ^^ 6) loopCPU)) = 0x1004 \<and> cycles ((step ^^ 6) loopCPU) = 64 \<and>
   regD (reg ((step ^^ 6) loopCPU)) ! 3 = 0x7FFFF"
proof -
  have "at_DBcc (\<lambda>m. m) 1 3 loopCPU" "counter 3 loopCPU = 5" "bus loopCPU = testBus"
    by (simp_all add: loopCPU_def at_DBcc_def running_def accepts_def wf_cpu_def zeroRegisters_def
      code_ok_def rd16_def dbcc_def testCondition_def counter_def)
  then show ?thesis
    using DBcc_loop_ends [OF test_ram.ram_bus_axioms, of loopCPU 1 3 5]
    by (simp add: loopCPU_def Let_def zeroRegisters_def)
qed

end
