(* ===== verification/Spec_Stop.thy ===== *)
theory Spec_Stop
  imports Spec_Program
begin

text \<open>
  STOP: the CPU waits in the stopped state, at four cycles a step, until an interrupt is accepted.
  The property below does not speak about the program counter of the waiting CPU, which is where the
  code and its comment differ: the code leaves it on STOP, so that RTE continues there (the last
  conjunct of the lemma \<open>STOP_interrupt\<close>).
\<close>

subsection \<open>Waiting\<close>

lemma step_stopped:
  "stopped c \<Longrightarrow> \<not> halted c \<Longrightarrow> step c = snd (run_state checkInterrupt (c\<lparr>cycles := cycles c + 4\<rparr>))"
  by (simp add: step_def run_Step Let_def)

lemma cycles_irrelevant [simp]:
  "accepts (c\<lparr>cycles := n\<rparr>) = accepts c" "supStack (c\<lparr>cycles := n\<rparr>) = supStack c"
  "userStack (c\<lparr>cycles := n\<rparr>) = userStack c"
  by (simp_all add: accepts_def supStack_def userStack_def user_def)

lemma steps_stopped:
  assumes "stopped c" "\<not> halted c" "\<not> accepts c"
  shows "(step ^^ n) c = c\<lparr>cycles := cycles c + 4 * of_nat n\<rparr>"
proof (induction n)
  case (Suc n)
  then show ?case using assms by (simp add: step_stopped run_checkInterrupt_idle algebra_simps)
qed simp

subsection \<open>Executing STOP\<close>

lemma run_setSR_supervisor:
  assumes "wf_cpu c" "\<not> user c"
  shows "run_state (setSR sr) c = ((), c\<lparr>reg := (reg c)\<lparr>regSR := sr AND 0xA71F,
     regSSP := (if sr AND flagS = 0 then regA (reg c) ! 7 else regSSP (reg c)),
     regA := (if sr AND flagS = 0 then (regA (reg c))[7 := regUSP (reg c)] else regA (reg c))\<rparr>\<rparr>)"
  using assms by (simp add: setSR_def wf_cpu_def user_def Let_def)

text \<open>
  \<open>waiting imm c c'\<close>: from \<open>c\<close> the CPU has come to wait in \<open>c'\<close>, with the status register loaded with the
  implemented bits of \<open>imm\<close>, and the data and address registers, both stack pointers, the memory and
  the interrupt request as they were.
\<close>

definition waiting :: "u16 \<Rightarrow> 'b CPU \<Rightarrow> 'b CPU \<Rightarrow> bool" where
  "waiting imm c c' \<longleftrightarrow> stopped c' \<and> \<not> halted c' \<and> bus c' = bus c \<and> busState c' = busState c \<and>
     wf_cpu c' \<and> regSR (reg c') = imm AND 0xA71F \<and> regD (reg c') = regD (reg c) \<and>
     (\<forall>i < 7. regA (reg c') ! i = regA (reg c) ! i) \<and>
     pendingIPL c' = pendingIPL c \<and> pendingVec c' = pendingVec c \<and>
     supStack c' = supStack c \<and> userStack c' = userStack c"

definition stoppedAt :: "u16 \<Rightarrow> 'b CPU \<Rightarrow> 'b CPU \<Rightarrow> bool" where
  "stoppedAt imm c c' \<longleftrightarrow> waiting imm c c' \<and> regPC (reg c') = regPC (reg c)"

context ram_bus
begin

lemma step_STOP:
  assumes "bus c = B" "running c" "wf_cpu c" "\<not> user c" "code_ok 4 (regPC (reg c))"
    and "rd16 (mem (busState c)) (regPC (reg c)) = 0x4E72"
    and "rd16 (mem (busState c)) (regPC (reg c) + 2) = imm"
  shows "stoppedAt imm c (step c)" "cycles (step c) = cycles c + 4"
proof -
  let ?c = "fetched 0x4E72 c"
  have pc: "regPC (reg c) + 2 \<le> 0xFFFFFF" "(regPC (reg c) + 2) AND 1 = 0" "regPC (reg c) AND 1 = 0"
    using code_okD [OF assms(5), of 2] code_okD [OF assms(5), of 0] by simp_all
  have f: "run_state fetchPC ?c = (imm, ?c\<lparr>reg := (reg ?c)\<lparr>regPC := regPC (reg c) + 4\<rparr>\<rparr>)"
    using run_fetch [of ?c] assms(1,2,7) pc by (simp add: fetched_def running_def add.assoc)
  have u: "run_state supervisor ?c = (True, ?c)" "\<not> user (?c\<lparr>reg := (reg ?c)\<lparr>regPC := a\<rparr>\<rparr>)"
    "wf_cpu (?c\<lparr>reg := (reg ?c)\<lparr>regPC := a\<rparr>\<rparr>)" for a
    using assms(3,4) by (simp_all add: supervisor_def user_def fetched_def wf_cpu_def)
  have d: "decode 0x4E72 = Some opSTOP" by (simp add: decode_def decodeLine4_def Let_def)
  have sm: "(imm AND 0xA71F) AND 0x2000 = imm AND 0x2000" by (simp add: and.assoc)
  let ?c' = "snd (run_state opSTOP ?c)"
  have c': "stoppedAt imm c ?c'" "cycles ?c' = cycles c + 4"
    using f u assms(2,3,4) sm
    by (simp_all add: opSTOP_def run_setSR_supervisor stoppedAt_def waiting_def fetched_def running_def wf_cpu_def
      supStack_def userStack_def user_def)
  then have "?c' = checkPC ?c'" using pc by (simp add: checkPC_def stoppedAt_def)
  then have "step c = ?c'"
    using run_Step_ram [OF assms(1,2) _ assms(6) d, of ?c'] assms(5) by (simp add: step_def code_ok_def)
  then show "stoppedAt imm c (step c)" "cycles (step c) = cycles c + 4" using c' by simp_all
qed

lemma STOP_interrupt:
  assumes "bus c = B" "wf_cpu c" "running c" "pendingIPL c = 0" "\<not> user c" "code_ok 4 (regPC (reg c))"
    and "rd16 (mem (busState c)) (regPC (reg c)) = 0x4E72"
    and "rd16 (mem (busState c)) (regPC (reg c) + 2) = imm"
    and "0 < l" "l \<le> 7" "ucast (drop_bit 8 imm AND 7) < l \<or> l = 7"
    and "stack_ok 6 (supStack c)" "rd32 (mem (busState c)) (of_nat (24 + unat l) * 4) \<noteq> 0"
    and c1: "c1 = (step ^^ n) (step c)" and c2: "c2 = step (snd (run_state (RequestInterrupt l None) c1))"
  shows "stoppedAt imm c c1 \<and> cycles c1 = cycles c + 4 + 4 * of_nat n \<and>
    \<not> stopped c2 \<and> \<not> halted c2 \<and> regPC (reg c2) = rd32 (mem (busState c)) (of_nat (24 + unat l) * 4) \<and>
    \<not> user c2 \<and> drop_bit 8 (regSR (reg c2)) AND 7 = ucast l \<and> pendingIPL c2 = 0 \<and> cycles c2 = cycles c1 + 48 \<and>
    (\<forall>c3. handled mem c2 c3 \<longrightarrow> resumed (regPC (reg c)) c1 (snd (run_state opRTE c3)))"
proof -
  note s = step_STOP [OF assms(1,3,2,5-8)]
  then have "\<not> accepts (step c)" using assms(4) by (simp add: stoppedAt_def waiting_def accepts_def)
  then have c1': "c1 = (step c)\<lparr>cycles := cycles c + 4 + 4 * of_nat n\<rparr>"
    using s by (simp add: c1 stoppedAt_def waiting_def steps_stopped)
  then have at: "stoppedAt imm c c1"
    using s(1) assms(2) by (simp add: stoppedAt_def waiting_def wf_cpu_def)
  let ?c = "c1\<lparr>pendingIPL := l, pendingVec := None, cycles := cycles c1 + 4\<rparr>"
  have c2': "c2 = snd (run_state checkInterrupt ?c)"
    using at assms(4,9) unfolding c2 by (simp add: stoppedAt_def waiting_def RequestInterrupt_def step_stopped)
  have sp: "supStack ?c = supStack c1" "userStack ?c = userStack c1" "regPC (reg ?c) = regPC (reg c)"
    using at by (simp_all add: supStack_def userStack_def user_def stoppedAt_def)
  have m: "ucast (drop_bit 8 (regSR (reg ?c)) AND 7) < l \<or> l = 7"
    using assms(11) at by (simp add: stoppedAt_def waiting_def and.assoc drop_bit_and)
  have pre: "bus ?c = B" "wf_cpu ?c" "\<not> halted ?c" "sr_valid ?c" "stack_ok 6 (supStack ?c)" "0 < pendingIPL ?c"
    "ucast (drop_bit 8 (regSR (reg ?c)) AND 7) < pendingIPL ?c \<or> pendingIPL ?c = 7"
    "rd32 (mem (busState ?c)) (of_nat (24 + unat l) * 4) \<noteq> 0"
    using m at sp assms(1,2,9,10,12,13)
    by (simp_all add: stoppedAt_def waiting_def wf_cpu_def sr_valid_def sr_ok_setSR)
  have r: "resumed pc ?c d \<longleftrightarrow> resumed pc c1 d" for pc d
    using sp by (simp add: resumed_def)
  have v: "24 + unat l = (case pendingVec ?c of Some n \<Rightarrow> unat n | None \<Rightarrow> 24 + unat (pendingIPL ?c))" by simp
  have cyc: "cycles ?c + 44 = cycles c1 + 48" "busState ?c = busState c" "pendingIPL ?c = l"
    using at by (simp_all add: stoppedAt_def waiting_def)
  show ?thesis
    using service [OF pre(1-7) v pre(8) c2', unfolded r sp(3) cyc] at c1' by simp
qed

end

text \<open>
  C32. STOP waits for an interrupt. In supervisor mode, STOP in memory at the program counter loads the
  status register and stops the CPU, and it stays so, four cycles a step, for as many steps as there is
  no interrupt, with registers, stacks and memory as they were. An autovectored interrupt above the
  new mask takes the CPU out of the stopped state: 48 cycles later it is in the handler, in supervisor
  mode, with the mask raised to the level of the interrupt and the request cleared; and the RTE of the
  handler brings back the status register that STOP loaded and the stacks.
\<close>

theorem STOP_waits:
  assumes "ram_bus B mem" "bus c = B" "wf_cpu c" "running c" "pendingIPL c = 0" "\<not> user c"
    and "code_ok 4 (regPC (reg c))" "rd16 (mem (busState c)) (regPC (reg c)) = 0x4E72"
    and "rd16 (mem (busState c)) (regPC (reg c) + 2) = imm"
    and "0 < l" "l \<le> 7" "ucast (drop_bit 8 imm AND 7) < l \<or> l = 7"
    and "stack_ok 6 (supStack c)" "rd32 (mem (busState c)) (of_nat (24 + unat l) * 4) \<noteq> 0"
    and "c1 = (step ^^ n) (step c)" and "c2 = step (snd (run_state (RequestInterrupt l None) c1))"
  shows "waiting imm c c1 \<and> cycles c1 = cycles c + 4 + 4 * of_nat n \<and>
    \<not> stopped c2 \<and> \<not> halted c2 \<and> regPC (reg c2) = rd32 (mem (busState c)) (of_nat (24 + unat l) * 4) \<and>
    \<not> user c2 \<and> drop_bit 8 (regSR (reg c2)) AND 7 = ucast l \<and> pendingIPL c2 = 0 \<and> cycles c2 = cycles c1 + 48 \<and>
    (\<forall>c3. handled mem c2 c3 \<longrightarrow> (\<exists>pc. resumed pc c1 (snd (run_state opRTE c3))))"
  using ram_bus.STOP_interrupt [OF assms] unfolding stoppedAt_def by blast

text \<open>\<open>STOP #$2000\<close> at address \<open>0x1000\<close>; the handler of level 5 is at \<open>0x1500\<close>.\<close>

definition stopCPU :: "testMem CPU" where
  "stopCPU = ramCPU ((\<lambda>_. 0)(0x1000 := 0x4E, 0x1001 := 0x72, 0x1002 := 0x20, 0x76 := 0x15)) 0x1000 0x2700"

lemma stopCPU_simps:
  "bus stopCPU = testBus" "wf_cpu stopCPU" "running stopCPU" "pendingIPL stopCPU = 0" "\<not> user stopCPU"
  "code_ok 4 (regPC (reg stopCPU))" "rd16 (busState stopCPU) (regPC (reg stopCPU)) = 0x4E72"
  "rd16 (busState stopCPU) (regPC (reg stopCPU) + 2) = 0x2000" "regPC (reg stopCPU) = 0x1000"
  "stack_ok 6 (supStack stopCPU)" "rd32 (busState stopCPU) 116 = 0x1500" "cycles stopCPU = 0"
  by (simp_all add: stopCPU_def running_def accepts_def user_def wf_cpu_def zeroRegisters_def code_ok_def
    rd16_def rd32_def supStack_def stack_ok_def)

theorem STOP_waits_witness:
  "let c1 = (step ^^ 3) (step stopCPU); c2 = step (snd (run_state (RequestInterrupt 5 None) c1))
   in waiting 0x2000 stopCPU c1 \<and> cycles c1 = 16 \<and> \<not> stopped c2 \<and> regPC (reg c2) = 0x1500"
proof -
  let ?c1 = "(step ^^ 3) (step stopCPU)"
  let ?c2 = "step (snd (run_state (RequestInterrupt 5 None) ?c1))"
  have v: "rd32 (busState stopCPU) (of_nat (24 + unat (5 :: u8)) * 4) = 0x1500"
    using stopCPU_simps(11) by simp
  have "0 < (5 :: u8)" "(5 :: u8) \<le> 7" "ucast (drop_bit 8 (0x2000 :: u16) AND 7) < (5 :: u8) \<or> (5 :: u8) = 7"
    "rd32 (busState stopCPU) (of_nat (24 + unat (5 :: u8)) * 4) \<noteq> 0"
    by (simp_all add: stopCPU_simps(11))
  then show ?thesis
    using STOP_waits [OF test_ram.ram_bus_axioms stopCPU_simps(1-8) _ _ _ stopCPU_simps(10) _ refl refl, of 5 3]
    unfolding v Let_def stopCPU_simps(12) by simp
qed

end
