(* ===== verification/Spec_Call.thy ===== *)
theory Spec_Call
  imports Spec_Program
begin

text \<open>
  Calling conventions, executed from memory: RTS returns behind the BSR that called, and UNLK
  undoes LINK, whatever the code in between did, as long as it left the stack as it found it.
\<close>

subsection \<open>The stack on a memory bus\<close>

context ram_bus
begin

lemma run_pushLong:
  assumes "bus c = B" "\<not> halted c" "length (regA (reg c)) = 8" "stack_ok 4 (regA (reg c) ! 7)"
  shows "run_state (pushLong v) c = ((), c\<lparr>reg := (reg c)\<lparr>regA := (regA (reg c))[7 := regA (reg c) ! 7 - 4]\<rparr>,
    busState := Write32 B (busState c) (regA (reg c) ! 7 - 4) v\<rparr>)"
    "mem (Write32 B (busState c) (regA (reg c) ! 7 - 4) v) = wr32 (mem (busState c)) (regA (reg c) ! 7 - 4) v"
  using assms stack_okD(1,4) [OF assms(4), of 4]
  by (simp_all add: pushLong_def run_writeLong ram_write32)

lemma run_popLong:
  assumes "bus c = B" "\<not> halted c" "length (regA (reg c)) = 8" "stack_ok 4 sp" "regA (reg c) ! 7 = sp - 4"
  shows "run_state popLong c = (rd32 (mem (busState c)) (sp - 4), c\<lparr>reg := (reg c)\<lparr>regA := (regA (reg c))[7 := sp]\<rparr>\<rparr>)"
  using assms stack_okD(1,4) [OF assms(4), of 4]
  by (simp add: popLong_def run_readLong)

end

subsection \<open>BSR and RTS\<close>

text \<open>
  The code between a call in \<open>c\<close> and a return in \<open>c'\<close> has left the stack pointer and the return
  address alone.
\<close>

definition called :: "('b \<Rightarrow> bytes) \<Rightarrow> 'b CPU \<Rightarrow> 'b CPU \<Rightarrow> bool" where
  "called mem c c' \<longleftrightarrow> bus c' = bus c \<and> running c' \<and> wf_cpu c' \<and> code_ok 2 (regPC (reg c')) \<and>
     regA (reg c') ! 7 = regA (reg c) ! 7 \<and>
     rd32 (mem (busState c')) (regA (reg c) ! 7) = rd32 (mem (busState c)) (regA (reg c) ! 7)"

definition bsr :: "u16 \<Rightarrow> u16" where
  "bsr d = 0x6100 OR d"

lemma bsr_fields:
  assumes "d < 256"
  shows "decode (bsr d) = Some opBSR" "bsr d AND 0xFF = d"
proof -
  have "d \<in> set (range16 0 256)" using assms by simp
  then have *: "(bsr d, opBSR) \<in> set (registerBSR :: 'a stores)"
    by (auto simp: registerBSR_def bsr_def simp del: set_range16)
  have "(bsr d, opBSR) \<in> set (all_stores :: 'a stores)"
    using * by (simp add: all_stores_def init_branch_def)
  then show "decode (bsr d) = Some (opBSR :: 'a opFunc)" by (simp add: in_all_stores)
  have "unat d < 256" using assms by (simp add: word_less_nat_alt)
  then have "take_bit 8 d = d"
    by (simp add: word_unat_eq_iff unsigned_take_bit_eq take_bit_nat_eq_self)
  then have "d AND 0xFF = d" by (simp add: take_bit_eq_mask mask_eq_exp_minus_1)
  then show "bsr d AND 0xFF = d" by (simp add: bsr_def bit.conj_disj_distrib2)
qed

lemma short_displacement:
  assumes "d < (256 :: u16)"
  shows "(scast (ucast d :: u8) :: u32) = 0 \<longleftrightarrow> d = 0"
proof -
  let ?x = "ucast d :: u8"
  have "sint ?x = 0" if "(scast ?x :: u32) = 0"
  proof (rule ccontr)
    assume *: "sint ?x \<noteq> 0"
    have "(word_of_int (sint ?x) :: u32) = 0" using that by simp
    then have "2 ^ 32 dvd sint ?x" by (simp only: word_of_int_eq_0_iff) simp
    with * have "2 ^ 32 \<le> \<bar>sint ?x\<bar>" by (metis abs_of_nonneg dvd_imp_le_int zero_le_numeral zero_le_power)
    then show False using sint_ge [of ?x] sint_lt [of ?x] by simp
  qed
  then have "(scast ?x :: u32) = 0 \<longleftrightarrow> ?x = 0" by (auto simp: signed_eq_0_iff)
  moreover have "unat ?x = take_bit 8 (unat d)" by (simp only: unsigned_ucast_eq) simp
  then have "unat ?x = unat d" using assms by (simp add: word_less_nat_alt take_bit_nat_eq_self)
  then have "?x = 0 \<longleftrightarrow> d = 0" by (simp add: unat_eq_0 [symmetric] del: unat_eq_0)
  ultimately show ?thesis by blast
qed

definition bsrReturn :: "u16 \<Rightarrow> u32 \<Rightarrow> u32" where
  "bsrReturn d pc = (if d = 0 then pc + 4 else pc + 2)"

definition bsrTarget :: "u16 \<Rightarrow> u16 \<Rightarrow> u32 \<Rightarrow> u32" where
  "bsrTarget d w pc = pc + 2 + (if d = 0 then scast w else scast (ucast d :: u8))"

context ram_bus
begin

lemma step_BSR:
  assumes "bus c = B" "running c" "wf_cpu c" "code_ok 4 (regPC (reg c))" "d < 256"
    and "rd16 (mem (busState c)) (regPC (reg c)) = bsr d"
    and "stack_ok 4 (regA (reg c) ! 7)"
    and t: "t = bsrTarget d (rd16 (mem (busState c)) (regPC (reg c) + 2)) (regPC (reg c))" "t AND 1 = 0"
  shows "step c = (fetched (bsr d) c)\<lparr>reg := (reg c)\<lparr>regIR := bsr d, regPC := t,
       regA := (regA (reg c))[7 := regA (reg c) ! 7 - 4]\<rparr>,
     busState := Write32 B (busState c) (regA (reg c) ! 7 - 4) (bsrReturn d (regPC (reg c))),
     cycles := cycles c + 18\<rparr>"
proof -
  let ?c = "fetched (bsr d) c"
  let ?w = "rd16 (mem (busState c)) (regPC (reg c) + 2)"
  let ?r = "bsrReturn d (regPC (reg c))"
  have pc: "regPC (reg c) + 2 \<le> 0xFFFFFF" "(regPC (reg c) + 2) AND 1 = 0"
    using code_okD [OF assms(4), of 2] by simp_all
  have l: "length (regA (reg c)) = 8" using assms(3) by (simp add: wf_cpu_def)
  have f: "run_state fetchPC ?c = (?w, ?c\<lparr>reg := (reg ?c)\<lparr>regPC := regPC (reg c) + 4\<rparr>\<rparr>)"
    using run_fetch [of ?c] assms(1,2) pc by (simp add: fetched_def running_def add.assoc)
  let ?c' = "?c\<lparr>reg := (reg c)\<lparr>regIR := bsr d, regPC := t,
       regA := (regA (reg c))[7 := regA (reg c) ! 7 - 4]\<rparr>,
     busState := Write32 B (busState c) (regA (reg c) ! 7 - 4) ?r, cycles := cycles c + 18\<rparr>"
  have r: "snd (run_state opBSR ?c) = ?c'"
    using f l assms(1,2,7) short_displacement [OF assms(5)] bsr_fields(2) [OF assms(5)]
    by (cases "d = 0") (simp_all add: opBSR_def Let_def run_pushLong(1) running_def fetched_def t(1) bsrReturn_def bsrTarget_def)
  then have "?c' = checkPC (snd (run_state opBSR ?c))" using t(2) by (simp add: checkPC_def)
  moreover have "code_ok 2 (regPC (reg c))" using assms(4) by (simp add: code_ok_def)
  ultimately show ?thesis
    using run_Step_ram [OF assms(1,2) _ assms(6) bsr_fields(1) [OF assms(5)], of ?c'] by (simp add: step_def)
qed

lemma step_RTS:
  assumes "bus c = B" "running c" "wf_cpu c" "code_ok 2 (regPC (reg c))"
    and "rd16 (mem (busState c)) (regPC (reg c)) = 0x4E75"
    and "stack_ok 4 sp" "regA (reg c) ! 7 = sp - 4"
  shows "step c = checkPC ((fetched 0x4E75 c)\<lparr>reg := (reg c)\<lparr>regIR := 0x4E75,
      regPC := rd32 (mem (busState c)) (sp - 4), regA := (regA (reg c))[7 := sp]\<rparr>, cycles := cycles c + 16\<rparr>)"
proof -
  have l: "length (regA (reg c)) = 8" using assms(3) by (simp add: wf_cpu_def)
  have d: "decode 0x4E75 = Some opRTS" by (simp add: decode_def decodeLine4_def Let_def)
  have "snd (run_state opRTS (fetched 0x4E75 c)) = (fetched 0x4E75 c)\<lparr>reg := (reg c)\<lparr>regIR := 0x4E75,
      regPC := rd32 (mem (busState c)) (sp - 4), regA := (regA (reg c))[7 := sp]\<rparr>, cycles := cycles c + 16\<rparr>"
    using l assms(1,2,6,7) run_popLong [of _ sp]
    by (simp add: opRTS_def run_popLong [of _ sp] running_def fetched_def)
  then show ?thesis using run_Step_ram [OF assms(1,2,4,5) d refl] by (simp add: step_def)
qed

end

text \<open>
  C15. Subroutines return. A BSR, short or with a word displacement, executed from memory at the
  program counter continues at its target with the address of the next instruction on the stack;
  and whenever the called code comes to an RTS with the stack pointer and the return address as it
  found them, one step later the CPU is at the instruction behind the BSR with the stack pointer
  of the caller.
\<close>

theorem subroutine_returns:
  assumes "ram_bus B mem" "bus c = B" "running c" "wf_cpu c" "code_ok 4 (regPC (reg c))" "d < 256"
    and "rd16 (mem (busState c)) (regPC (reg c)) = bsr d" "stack_ok 4 (regA (reg c) ! 7)"
    and "t = bsrTarget d (rd16 (mem (busState c)) (regPC (reg c) + 2)) (regPC (reg c))" "t AND 1 = 0"
    and c1: "c1 = step c"
  shows "regPC (reg c1) = t \<and> regA (reg c1) = (regA (reg c))[7 := regA (reg c) ! 7 - 4] \<and>
    cycles c1 = cycles c + 18 \<and>
    (\<forall>c2. called mem c1 c2 \<and> rd16 (mem (busState c2)) (regPC (reg c2)) = 0x4E75 \<longrightarrow>
      regPC (reg (step c2)) = bsrReturn d (regPC (reg c)) \<and> \<not> halted (step c2) \<and>
      regA (reg (step c2)) = (regA (reg c2))[7 := regA (reg c) ! 7] \<and> cycles (step c2) = cycles c2 + 16)"
proof -
  note s = ram_bus.step_BSR [OF assms(1-10), folded c1]
  let ?sp = "regA (reg c) ! 7" and ?r = "bsrReturn d (regPC (reg c))"
  have l: "length (regA (reg c)) = 8" using assms(4) by (simp add: wf_cpu_def)
  have m: "mem (busState c1) = wr32 (mem (busState c)) (?sp - 4) ?r"
    using ram_bus.run_pushLong(2) [OF assms(1,2) _ l assms(8)] assms(3) by (simp add: s running_def)
  have even: "?r AND 1 = 0"
    using assms(5) by (simp add: bsrReturn_def code_ok_def and_one_eq flip: even_iff_mod_2_eq_zero)
  have "step c2 = (fetched 0x4E75 c2)\<lparr>reg := (reg c2)\<lparr>regIR := 0x4E75, regPC := ?r,
      regA := (regA (reg c2))[7 := ?sp]\<rparr>, cycles := cycles c2 + 16\<rparr> \<and> \<not> halted c2"
    if "called mem c1 c2" "rd16 (mem (busState c2)) (regPC (reg c2)) = 0x4E75" for c2
  proof -
    have sp: "regA (reg c1) ! 7 = ?sp - 4" using l by (simp add: s)
    have r: "rd32 (mem (busState c2)) (?sp - 4) = ?r" using that(1) by (simp add: called_def sp m rd32_wr32)
    have "step c2 = checkPC ((fetched 0x4E75 c2)\<lparr>reg := (reg c2)\<lparr>regIR := 0x4E75, regPC := ?r,
      regA := (regA (reg c2))[7 := ?sp]\<rparr>, cycles := cycles c2 + 16\<rparr>)"
      using ram_bus.step_RTS [OF assms(1) _ _ _ _ that(2) assms(8)] that(1) assms(2) sp
      by (simp add: called_def s fetched_def r)
    then show ?thesis using that(1) even by (simp add: checkPC_def called_def running_def)
  qed
  then show ?thesis by (simp add: s fetched_def)
qed

text \<open>\<open>BSR.B *+18\<close> at address \<open>0x1000\<close>.\<close>

definition callCPU :: "testMem CPU" where
  "callCPU = ramCPU ((\<lambda>_. 0)(0x1000 := 0x61, 0x1001 := 0x10)) 0x1000 0x2000"

theorem subroutine_returns_witness:
  "regPC (reg (step callCPU)) = 0x1012 \<and> regA (reg (step callCPU)) ! 7 = 0x2FFC"
proof -
  have c: "bus callCPU = testBus" "running callCPU" "wf_cpu callCPU" "code_ok 4 (regPC (reg callCPU))"
    "rd16 (busState callCPU) (regPC (reg callCPU)) = bsr 0x10" "stack_ok 4 (regA (reg callCPU) ! 7)"
    "regA (reg callCPU) = [0, 0, 0, 0, 0, 0, 0, 0x3000]" "regPC (reg callCPU) = 0x1000"
    by (simp_all add: callCPU_def running_def accepts_def wf_cpu_def zeroRegisters_def code_ok_def
      rd16_def bsr_def stack_ok_def)
  have t: "bsrTarget 0x10 (rd16 (busState callCPU) (regPC (reg callCPU) + 2)) (regPC (reg callCPU)) = 0x1012"
    by (simp add: bsrTarget_def c(8))
  show ?thesis
    using subroutine_returns [OF test_ram.ram_bus_axioms c(1-4) _ c(5,6) t [symmetric] _ refl] c(7) by simp
qed

subsection \<open>LINK and UNLK\<close>

definition link :: "u16 \<Rightarrow> u16" where
  "link n = 0x4E50 OR n"

definition unlk :: "u16 \<Rightarrow> u16" where
  "unlk n = 0x4E58 OR n"

lemma link_fields:
  assumes "n < 8"
  shows "decode (link n) = Some (opLINK :: 'a opFunc)" "link n AND 7 = n"
    "decode (unlk n) = Some (opUNLK :: 'a opFunc)" "unlk n AND 7 = n"
    "unat (link n) mod 8 = unat n" "unat (unlk n) mod 8 = unat n"
proof -
  have "n \<in> set (range16 0 8)" using assms by simp
  then have *: "(link n, opLINK) \<in> set (registerLINK :: 'a stores)" "(unlk n, opUNLK) \<in> set (registerUNLK :: 'a stores)"
    by (auto simp: registerLINK_def registerUNLK_def link_def unlk_def simp del: set_range16)
  have "(link n, opLINK) \<in> set (all_stores :: 'a stores)" "(unlk n, opUNLK) \<in> set (all_stores :: 'a stores)"
    using * by (simp_all add: all_stores_def init_ctrl_def)
  then show "decode (link n) = Some (opLINK :: 'a opFunc)" "decode (unlk n) = Some (opUNLK :: 'a opFunc)"
    by (simp_all add: in_all_stores)
  show a: "link n AND 7 = n" "unlk n AND 7 = n"
    using assms by (auto simp: link_def unlk_def bits16 dest!: lessDs)
  show "unat (link n) mod 8 = unat n" "unat (unlk n) mod 8 = unat n"
    using arg_cong [OF a(1), of unat] arg_cong [OF a(2), of unat] by simp_all
qed

text \<open>
  The code between LINK in \<open>c\<close> and UNLK in \<open>c'\<close> has left the frame pointer and the word it points to
  alone; the stack pointer may be anything.
\<close>

definition linked :: "('b \<Rightarrow> bytes) \<Rightarrow> u16 \<Rightarrow> 'b CPU \<Rightarrow> 'b CPU \<Rightarrow> bool" where
  "linked mem n c c' \<longleftrightarrow> bus c' = bus c \<and> running c' \<and> wf_cpu c' \<and> code_ok 2 (regPC (reg c')) \<and>
     regA (reg c') ! unat n = regA (reg c) ! unat n \<and>
     rd32 (mem (busState c')) (regA (reg c) ! unat n) = rd32 (mem (busState c)) (regA (reg c) ! unat n)"

context ram_bus
begin

lemma step_LINK:
  assumes "bus c = B" "running c" "wf_cpu c" "code_ok 4 (regPC (reg c))" "n < 7"
    and "rd16 (mem (busState c)) (regPC (reg c)) = link n" "rd16 (mem (busState c)) (regPC (reg c) + 2) = w"
    and "stack_ok 4 (regA (reg c) ! 7)"
  defines "fp \<equiv> regA (reg c) ! 7 - 4"
  shows "step c = (fetched (link n) c)\<lparr>reg := (reg c)\<lparr>regIR := link n, regPC := regPC (reg c) + 4,
       regA := (regA (reg c))[7 := fp, unat n := fp, 7 := fp + scast w]\<rparr>,
     busState := Write32 B (busState c) fp (regA (reg c) ! unat n), cycles := cycles c + 16\<rparr>"
proof -
  let ?c = "fetched (link n) c"
  have pc: "regPC (reg c) + 2 \<le> 0xFFFFFF" "(regPC (reg c) + 2) AND 1 = 0"
    using code_okD [OF assms(4), of 2] by simp_all
  have even: "(regPC (reg c) + 4) AND 1 = 0"
    using assms(4) by (simp add: code_ok_def and_one_eq flip: even_iff_mod_2_eq_zero)
  have l: "length (regA (reg c)) = 8" using assms(3) by (simp add: wf_cpu_def)
  have n: "unat n < 8" "n < 8" "unat n \<noteq> 7" using assms(5) by (simp_all add: word_less_nat_alt)
  have f: "run_state fetchPC ?c = (w, ?c\<lparr>reg := (reg ?c)\<lparr>regPC := regPC (reg c) + 4\<rparr>\<rparr>)"
    using run_fetch [of ?c] assms(1,2,7) pc by (simp add: fetched_def running_def add.assoc)
  let ?c' = "?c\<lparr>reg := (reg c)\<lparr>regIR := link n, regPC := regPC (reg c) + 4,
       regA := (regA (reg c))[7 := fp, unat n := fp, 7 := fp + scast w]\<rparr>,
     busState := Write32 B (busState c) fp (regA (reg c) ! unat n), cycles := cycles c + 16\<rparr>"
  have "snd (run_state opLINK ?c) = ?c'"
    using f l n assms(1,2,8) link_fields(5) [OF n(2)]
    by (simp add: opLINK_def Let_def run_pushLong(1) running_def fetched_def fp_def)
  then have "?c' = checkPC (snd (run_state opLINK ?c))" using even by (simp add: checkPC_def)
  moreover have "code_ok 2 (regPC (reg c))" using assms(4) by (simp add: code_ok_def)
  ultimately show ?thesis
    using run_Step_ram [OF assms(1,2) _ assms(6) link_fields(1) [OF n(2)], of ?c'] by (simp add: step_def)
qed

lemma step_UNLK:
  assumes "bus c = B" "running c" "wf_cpu c" "code_ok 2 (regPC (reg c))" "n < 7"
    and "rd16 (mem (busState c)) (regPC (reg c)) = unlk n"
    and "stack_ok 4 sp" "regA (reg c) ! unat n = sp - 4"
  shows "step c = (fetched (unlk n) c)\<lparr>reg := (reg c)\<lparr>regIR := unlk n, regPC := regPC (reg c) + 2,
       regA := (regA (reg c))[7 := sp, unat n := rd32 (mem (busState c)) (sp - 4)]\<rparr>, cycles := cycles c + 12\<rparr>"
proof -
  let ?c = "fetched (unlk n) c"
  have even: "(regPC (reg c) + 2) AND 1 = 0"
    using assms(4) by (simp add: code_ok_def and_one_eq flip: even_iff_mod_2_eq_zero)
  have l: "length (regA (reg c)) = 8" using assms(3) by (simp add: wf_cpu_def)
  have n: "unat n < 8" "n < 8" "unat n \<noteq> 7" using assms(5) by (simp_all add: word_less_nat_alt)
  let ?c' = "?c\<lparr>reg := (reg c)\<lparr>regIR := unlk n, regPC := regPC (reg c) + 2,
       regA := (regA (reg c))[7 := sp, unat n := rd32 (mem (busState c)) (sp - 4)]\<rparr>, cycles := cycles c + 12\<rparr>"
  have "snd (run_state opUNLK ?c) = ?c'"
    using l n assms(1,2,7,8) link_fields(6) [OF n(2)]
    by (simp add: opUNLK_def Let_def run_popLong [of _ sp] running_def fetched_def)
  then have "?c' = checkPC (snd (run_state opUNLK ?c))" using even by (simp add: checkPC_def)
  then show ?thesis
    using run_Step_ram [OF assms(1,2,4,6) link_fields(3) [OF n(2)], of ?c'] by (simp add: step_def)
qed

end

text \<open>
  C16. UNLK undoes LINK. LINK \<open>An, #d\<close>, executed from memory, saves \<open>An\<close> on the stack, makes \<open>An\<close> the
  frame pointer and moves the stack pointer by \<open>d\<close>; and whenever the code behind it comes to an
  UNLK \<open>An\<close> with the frame pointer and the word it points to as it found them, one step later \<open>An\<close>
  and the stack pointer have the values they had before LINK, wherever the stack pointer was.
\<close>

theorem frame_unlinks:
  assumes "ram_bus B mem" "bus c = B" "running c" "wf_cpu c" "code_ok 4 (regPC (reg c))" "n < 7"
    and "rd16 (mem (busState c)) (regPC (reg c)) = link n"
    and "rd16 (mem (busState c)) (regPC (reg c) + 2) = d" "stack_ok 4 (regA (reg c) ! 7)"
    and c1: "c1 = step c"
  shows "regA (reg c1) ! unat n = regA (reg c) ! 7 - 4 \<and>
    regA (reg c1) ! 7 = regA (reg c) ! 7 - 4 + scast d \<and> regPC (reg c1) = regPC (reg c) + 4 \<and>
    (\<forall>c2. linked mem n c1 c2 \<and> rd16 (mem (busState c2)) (regPC (reg c2)) = unlk n \<longrightarrow>
      regA (reg (step c2)) = (regA (reg c2))[7 := regA (reg c) ! 7, unat n := regA (reg c) ! unat n] \<and>
      regPC (reg (step c2)) = regPC (reg c2) + 2 \<and> \<not> halted (step c2))"
proof -
  note s = ram_bus.step_LINK [OF assms(1-9), folded c1]
  let ?sp = "regA (reg c) ! 7"
  have l: "length (regA (reg c)) = 8" using assms(4) by (simp add: wf_cpu_def)
  have n: "unat n < 8" "unat n \<noteq> 7" using assms(6) by (simp_all add: word_less_nat_alt)
  have m: "mem (busState c1) = wr32 (mem (busState c)) (?sp - 4) (regA (reg c) ! unat n)"
    using ram_bus.run_pushLong(2) [OF assms(1,2) _ l assms(9)] assms(3) by (simp add: s running_def)
  have fp: "regA (reg c1) ! unat n = ?sp - 4" "regA (reg c1) ! 7 = ?sp - 4 + scast d" "bus c1 = B"
    using l n assms(2) by (simp_all add: s fetched_def)
  have "step c2 = (fetched (unlk n) c2)\<lparr>reg := (reg c2)\<lparr>regIR := unlk n, regPC := regPC (reg c2) + 2,
       regA := (regA (reg c2))[7 := ?sp, unat n := regA (reg c) ! unat n]\<rparr>, cycles := cycles c2 + 12\<rparr> \<and>
      \<not> halted c2"
    if "linked mem n c1 c2" "rd16 (mem (busState c2)) (regPC (reg c2)) = unlk n" for c2
    using ram_bus.step_UNLK [OF assms(1) _ _ _ _ assms(6) that(2) assms(9)] that(1)
    by (simp add: linked_def fp m rd32_wr32 running_def)
  then show ?thesis using fp by (simp add: fetched_def s)
qed

text \<open>\<open>LINK A6, #-8\<close> at address \<open>0x1000\<close>.\<close>

definition linkCPU :: "testMem CPU" where
  "linkCPU = ramCPU ((\<lambda>_. 0)(0x1000 := 0x4E, 0x1001 := 0x56, 0x1002 := 0xFF, 0x1003 := 0xF8)) 0x1000 0x2000"

theorem frame_unlinks_witness:
  "regA (reg (step linkCPU)) ! 6 = 0x2FFC \<and> regA (reg (step linkCPU)) ! 7 = 0x2FF4"
proof -
  have c: "bus linkCPU = testBus" "running linkCPU" "wf_cpu linkCPU" "code_ok 4 (regPC (reg linkCPU))"
    "rd16 (busState linkCPU) (regPC (reg linkCPU)) = link 6"
    "rd16 (busState linkCPU) (regPC (reg linkCPU) + 2) = 0xFFF8" "stack_ok 4 (regA (reg linkCPU) ! 7)"
    "regA (reg linkCPU) ! 7 = 0x3000"
    by (simp_all add: linkCPU_def running_def accepts_def wf_cpu_def zeroRegisters_def code_ok_def
      rd16_def link_def stack_ok_def)
  show ?thesis using frame_unlinks [OF test_ram.ram_bus_axioms c(1-4) _ c(5-7) refl] c(8) by simp
qed

end
