(* ===== verification/Spec_Movem.thy ===== *)
theory Spec_Movem
  imports Spec_Call
begin

text \<open>
  Saving and restoring registers. \<open>MOVEM.L list, -(An)\<close> stores the registers of the list below the
  address in \<open>An\<close>, and \<open>MOVEM.L (An)+, list\<close> loads them back. The mask of the first form is the
  reverse of the mask of the second.
\<close>

subsection \<open>Registers and their images in memory\<close>

definition regs :: "'b CPU \<Rightarrow> nat \<Rightarrow> u32" where
  "regs c i = (if i < 8 then regD (reg c) ! i else regA (reg c) ! (i - 8))"

text \<open>The long words from \<open>a\<close> on are the values of the registers \<open>rs\<close>, in this order.\<close>

fun stored :: "bytes \<Rightarrow> u32 \<Rightarrow> nat list \<Rightarrow> (nat \<Rightarrow> u32) \<Rightarrow> bool" where
  "stored m a [] v \<longleftrightarrow> True"
| "stored m a (r # rs) v \<longleftrightarrow> rd32 m a = v r \<and> stored m (a + 4) rs v"

lemma stored_cong:
  assumes "\<And>i. i < length rs \<Longrightarrow> rd32 m (a + 4 * of_nat i) = rd32 m' (a + 4 * of_nat i)"
  shows "stored m a rs v = stored m' a rs v"
  using assms
proof (induction rs arbitrary: a)
  case (Cons r rs)
  have "rd32 m (a + 4 + 4 * of_nat i) = rd32 m' (a + 4 + 4 * of_nat i)" if "i < length rs" for i
    using Cons.prems [of "Suc i"] that by (simp add: algebra_simps)
  then show ?case using Cons.IH [of "a + 4"] Cons.prems [of 0] by simp
qed simp

lemma stored_write_below:
  assumes "unat b + 4 \<le> unat a" "unat a + 4 * length rs < 2 ^ 32"
  shows "stored (wr32 m b x) a rs v = stored m a rs v"
proof (rule stored_cong)
  fix i assume "i < length rs"
  then have "unat (a + of_nat (4 * i)) = unat a + 4 * i" using assms(2) by (intro unat_add_small) simp
  then have "apart (a + of_nat (4 * i)) 4 b 4"
    using assms \<open>i < length rs\<close> by (intro apart_below(2)) simp_all
  then show "rd32 (wr32 m b x) (a + 4 * of_nat i) = rd32 m (a + 4 * of_nat i)" by simp
qed

lemma bit_mask16: "(w :: u16) AND push_bit i 1 \<noteq> 0 \<longleftrightarrow> bit w i"
  unfolding push_bit_of_1 by (simp add: and_exp_eq_0_iff_not_bit)

lemma getReg_run: "wf_cpu c \<Longrightarrow> i < 16 \<Longrightarrow> run_state (getReg i) c = (regs c i, c)"
  by (simp add: getReg_def regs_def wf_cpu_def)

subsection \<open>The loops\<close>

lemma minus4:
  assumes "4 \<le> unat a" "unat a \<le> 0x1000000" "(a :: u32) AND 1 = 0"
  shows "unat (a - 4) = unat a - 4" "a - 4 \<le> 0xFFFFFC" "(a - 4) AND 1 = 0"
proof -
  show u: "unat (a - 4) = unat a - 4" using unat_diff [of 4 a] assms(1) by simp
  show "a - 4 \<le> 0xFFFFFC" using assms(1,2) by (simp add: word_le_nat_alt u)
  show "(a - 4) AND 1 = 0" using even_diff [OF assms(3), of 4] by simp
qed

lemma wr32_outside:
  assumes "4 \<le> unat a" "unat b < unat (a - 4) \<or> unat a \<le> unat b"
  shows "wr32 m (a - 4) v b = m b"
proof -
  have "unat (a - 4 + of_nat i) = unat a - 4 + i" if "i < 4" for i
  proof -
    have "unat a < 2 ^ LENGTH(32)" by (rule unsigned_less)
    moreover have "unat (a - 4) = unat a - 4" using unat_diff [of 4 a] assms(1) by simp
    ultimately show ?thesis using unat_add_small [of "a - 4" i] that assms(1) by simp
  qed
  from this [of 0] this [of 1] this [of 2] this [of 3] show ?thesis
    using assms by (auto simp: wr32_def)
qed

context ram_bus
begin

text \<open>One iteration of each loop.\<close>

lemma store_one:
  assumes "bus c = B" "\<not> halted c" "wf_cpu c" "i < 16" "a AND 1 = 0" "bit w i"
    and "4 \<le> unat a" "unat a + 4 * length rs \<le> 0x1000000" "stored (mem (busState c)) a rs (regs c)"
    and c': "c' = c\<lparr>busState := Write32 B (busState c) (a - 4) (regs c (15 - i))\<rparr>"
  shows "run_state (movemStorePre w sizeLong i a) c = (a - 4, c')"
    "stored (mem (busState c')) (a - 4) ((15 - i) # rs) (regs c)" "regs c' = regs c"
    "unat b < unat (a - 4) \<or> unat a \<le> unat b \<Longrightarrow> mem (busState c') b = mem (busState c) b"
proof -
  have m: "unat (a - 4) = unat a - 4" "a - 4 \<le> 0xFFFFFC" "(a - 4) AND 1 = 0"
    using minus4 [of a] assms(5,7,8) by simp_all
  have w: "mem (busState c') = wr32 (mem (busState c)) (a - 4) (regs c (15 - i))"
    using m by (simp add: c' ram_write32)
  show "run_state (movemStorePre w sizeLong i a) c = (a - 4, c')"
    using bit_mask16 [of w i] assms(1-4,6) m
    by (simp add: movemStorePre_def Let_def getReg_run run_writeLong c')
  show "stored (mem (busState c')) (a - 4) ((15 - i) # rs) (regs c)"
    unfolding w using assms(7-9) m(1) stored_write_below [of "a - 4" a rs] by simp
  show "regs c' = regs c" by (simp add: c' regs_def fun_eq_iff)
  show "unat b < unat (a - 4) \<or> unat a \<le> unat b \<Longrightarrow> mem (busState c') b = mem (busState c) b"
    unfolding w using assms(7) by (rule wr32_outside)
qed

lemma store_loop:
  assumes "bus c = B" "\<not> halted c" "wf_cpu c" "\<forall>i\<in>set is. i < 16" "a AND 1 = 0"
    and "4 * length is + 4 \<le> unat a" "unat a + 4 * length rs \<le> 0x1000000"
    and "stored (mem (busState c)) a rs (regs c)" "a' = a - 4 * of_nat (length (filter (bit w) is))"
  shows "\<exists>s'. run_state (foldM (movemStorePre w sizeLong) is a) c = (a', c\<lparr>busState := s'\<rparr>) \<and>
    stored (mem s') a' (rev (map (\<lambda>i. 15 - i) (filter (bit w) is)) @ rs) (regs c) \<and>
    (\<forall>b. unat b < unat a' \<or> unat a \<le> unat b \<longrightarrow> mem s' b = mem (busState c) b)"
  using assms
proof (induction "is" arbitrary: a c rs)
  case Nil
  then show ?case by (intro exI [of _ "busState c"]) simp
next
  case (Cons i "is")
  show ?case
  proof (cases "bit w i")
    case False
    then show ?thesis
      using Cons.IH [of c a rs] Cons.prems bit_mask16 [of w i] by (simp add: movemStorePre_def)
  next
    case True
    let ?c = "c\<lparr>busState := Write32 B (busState c) (a - 4) (regs c (15 - i))\<rparr>"
    have m: "unat (a - 4) = unat a - 4" "(a - 4) AND 1 = 0"
      using minus4 [of a] Cons.prems(5-7) by simp_all
    have i: "i < 16" "4 \<le> unat a" using Cons.prems(4,6) by simp_all
    note one = store_one [OF Cons.prems(1-3) i(1) Cons.prems(5) True i(2) Cons.prems(7,8) refl]
    have st: "stored (mem (busState ?c)) (a - 4) ((15 - i) # rs) (regs ?c)" unfolding one(3) by (rule one(2))
    have a': "a' = a - 4 - 4 * of_nat (length (filter (bit w) is))"
      using Cons.prems(9) True by (simp add: algebra_simps)
    have p: "bus ?c = B" "\<not> halted ?c" "wf_cpu ?c" "\<forall>i\<in>set is. i < 16" "4 * length is + 4 \<le> unat (a - 4)"
      "unat (a - 4) + 4 * length ((15 - i) # rs) \<le> 0x1000000"
      using Cons.prems(1-7) m(1) by (simp_all add: wf_cpu_def)
    obtain s' where s': "run_state (foldM (movemStorePre w sizeLong) is (a - 4)) ?c = (a', ?c\<lparr>busState := s'\<rparr>)"
      "stored (mem s') a' (rev (map (\<lambda>i. 15 - i) (filter (bit w) is)) @ (15 - i) # rs) (regs ?c)"
      "\<forall>b. unat b < unat a' \<or> unat (a - 4) \<le> unat b \<longrightarrow> mem s' b = mem (busState ?c) b"
      using Cons.IH [OF p(1-4) m(2) p(5,6) st a'] by blast
    have "unat a' \<le> unat (a - 4)"
    proof -
      have "4 * length (filter (bit w) is) \<le> unat (a - 4)"
        using length_filter_le [of "bit w" "is"] Cons.prems(6) m(1) unfolding length_Cons by arith
      then have "unat (a - 4 - of_nat (4 * length (filter (bit w) is))) \<le> unat (a - 4)"
        by (simp only: unat_diff diff_le_self)
      then show ?thesis using a' by simp
    qed
    then have "mem s' b = mem (busState c) b" if "unat b < unat a' \<or> unat a \<le> unat b" for b
      using that s'(3) one(4) [of b] m(1) by auto
    then show ?thesis using True one(1,3) s'(1,2) by (intro exI [of _ s']) simp
  qed
qed

lemma load_one:
  assumes "bus c = B" "\<not> halted c" "wf_cpu c" "i < 16" "a AND 1 = 0" "bit w i" "a \<le> 0xFFFFFC"
    and "rd32 (mem (busState c)) a = x" and c': "c' = snd (run_state (putReg i x) c)"
  shows "run_state (movemLoad w sizeLong i a) c = (a + 4, c')"
    "c' = c\<lparr>reg := (reg c)\<lparr>regD := if i < 8 then (regD (reg c))[i := x] else regD (reg c),
        regA := if i < 8 then regA (reg c) else (regA (reg c))[i - 8 := x]\<rparr>\<rparr>"
    "j < 16 \<Longrightarrow> regs c' j = (if j = i then x else regs c j)"
proof -
  show "run_state (movemLoad w sizeLong i a) c = (a + 4, c')"
    using bit_mask16 [of w i] assms(1,2,5-8)
    by (simp add: movemLoad_def Let_def run_readLong split_def c')
  show put: "c' = c\<lparr>reg := (reg c)\<lparr>regD := if i < 8 then (regD (reg c))[i := x] else regD (reg c),
      regA := if i < 8 then regA (reg c) else (regA (reg c))[i - 8 := x]\<rparr>\<rparr>"
    using assms(3,4) by (simp add: c' putReg_def wf_cpu_def)
  show "regs c' j = (if j = i then x else regs c j)" if "j < 16"
    unfolding put using assms(3,4) that by (auto simp: regs_def wf_cpu_def nth_list_update)
qed

lemma load_loop:
  assumes "bus c = B" "\<not> halted c" "wf_cpu c" "\<forall>i\<in>set is. i < 16" "distinct is" "a AND 1 = 0"
    and "unat a + 4 * length (filter (bit w) is) \<le> 0x1000000"
    and "stored (mem (busState c)) a (filter (bit w) is) v"
  shows "\<exists>ds as. run_state (foldM (movemLoad w sizeLong) is a) c =
      (a + 4 * of_nat (length (filter (bit w) is)), c\<lparr>reg := (reg c)\<lparr>regD := ds, regA := as\<rparr>\<rparr>) \<and>
    length ds = 8 \<and> length as = 8 \<and>
    (\<forall>j<16. (if j < 8 then ds ! j else as ! (j - 8)) = (if j \<in> set is \<and> bit w j then v j else regs c j))"
  using assms
proof (induction "is" arbitrary: a c)
  case Nil
  then show ?case
    by (intro exI [of _ "regD (reg c)"] exI [of _ "regA (reg c)"]) (simp add: wf_cpu_def regs_def)
next
  case (Cons i "is")
  show ?case
  proof (cases "bit w i")
    case False
    then have "(j \<in> set (i # is) \<and> bit w j) = (j \<in> set is \<and> bit w j)" for j by auto
    moreover have "run_state (movemLoad w sizeLong i a) c = (a, c)"
      using False bit_mask16 [of w i] by (simp add: movemLoad_def)
    moreover have "\<forall>i\<in>set is. i < 16" using Cons.prems(4) by simp
    ultimately show ?thesis
      using False Cons.IH [of c a] Cons.prems by (simp del: set_simps split del: if_split)
  next
    case True
    let ?c = "snd (run_state (putReg i (v i)) c)"
    have i: "i < 16" "a \<le> 0xFFFFFC" "rd32 (mem (busState c)) a = v i"
      using Cons.prems(4,7,8) True by (simp_all add: word_le_nat_alt)
    note one = load_one [OF Cons.prems(1-3) i(1) Cons.prems(6) True i(2,3) refl]
    have p: "bus ?c = B" "\<not> halted ?c" "wf_cpu ?c" "\<forall>i\<in>set is. i < 16" "distinct is" "(a + 4) AND 1 = 0"
      "unat (a + 4) + 4 * length (filter (bit w) is) \<le> 0x1000000"
      "stored (mem (busState ?c)) (a + 4) (filter (bit w) is) v"
      using Cons.prems True unat_add_small [of a 4] unfolding one(2)
      by (simp_all add: wf_cpu_def and_one_eq flip: even_iff_mod_2_eq_zero)
    obtain ds as where l: "run_state (foldM (movemLoad w sizeLong) is (a + 4)) ?c =
        (a + 4 + 4 * of_nat (length (filter (bit w) is)), ?c\<lparr>reg := (reg ?c)\<lparr>regD := ds, regA := as\<rparr>\<rparr>)"
      "length ds = 8" "length as = 8"
      "\<And>j. j < 16 \<Longrightarrow> (if j < 8 then ds ! j else as ! (j - 8)) = (if j \<in> set is \<and> bit w j then v j else regs ?c j)"
      using Cons.IH [OF p] by blast
    have "i \<notin> set is" using Cons.prems(5) by simp
    then have "(if j < 8 then ds ! j else as ! (j - 8)) = (if j \<in> set (i # is) \<and> bit w j then v j else regs c j)"
      if "j < 16" for j using l(4) [OF that] one(3) [OF that] True by auto
    moreover have "?c\<lparr>reg := (reg ?c)\<lparr>regD := ds, regA := as\<rparr>\<rparr> = c\<lparr>reg := (reg c)\<lparr>regD := ds, regA := as\<rparr>\<rparr>"
      unfolding one(2) by simp
    ultimately show ?thesis
      using True one(1) l(1-3) by (intro exI [of _ ds] exI [of _ as]) (simp add: algebra_simps)
  qed
qed

end

subsection \<open>The instructions\<close>

definition movemPush :: "u16 \<Rightarrow> u16" where
  "movemPush n = 0x48E0 OR n"

definition movemPop :: "u16 \<Rightarrow> u16" where
  "movemPop n = 0x4CD8 OR n"

lemma movemLong_fields:
  assumes "n < 8"
  shows "decode (movemPush n) = Some (opMOVEM :: 'a opFunc)" "decode (movemPop n) = Some (opMOVEM :: 'a opFunc)"
    "drop_bit 10 (movemPush n) AND 1 = 0" "drop_bit 6 (movemPush n) AND 1 = 1" "drop_bit 3 (movemPush n) AND 7 = 4"
    "drop_bit 10 (movemPop n) AND 1 = 1" "drop_bit 6 (movemPop n) AND 1 = 1" "drop_bit 3 (movemPop n) AND 7 = 3"
    "unat (movemPush n) mod 8 = unat n" "unat (movemPop n) mod 8 = unat n"
proof -
  have r: "n \<in> set (range16 0 8)" "0 \<in> set (range16 0 2)" "1 \<in> set (range16 0 2)" "3 \<in> set (range16 2 8)" "4 \<in> set (range16 2 8)"
    using assms by auto
  have e: "0x4880 OR push_bit 10 0 OR push_bit 6 1 OR push_bit 3 4 OR n = movemPush n"
    "0x4880 OR push_bit 10 1 OR push_bit 6 1 OR push_bit 3 3 OR n = movemPop n"
    by (auto simp: movemPush_def movemPop_def bits16)
  have "(movemPush n, opMOVEM) \<in> set (registerMOVEM :: 'a stores)"
    unfolding registerMOVEM_def set_concat set_map e(1) [symmetric] using r
    by (simp del: set_range16)
      (rule bexI [of _ 0], rule bexI [of _ 1], rule bexI [of _ 4], rule bexI [of _ n], simp_all del: set_range16)
  moreover have "(movemPop n, opMOVEM) \<in> set (registerMOVEM :: 'a stores)"
    unfolding registerMOVEM_def set_concat set_map e(2) [symmetric] using r
    by (simp del: set_range16)
      (rule bexI [of _ 1], rule bexI [of _ 1], rule bexI [of _ 3], rule bexI [of _ n], simp_all del: set_range16)
  ultimately have "(movemPush n, opMOVEM) \<in> set (all_stores :: 'a stores)" "(movemPop n, opMOVEM) \<in> set (all_stores :: 'a stores)"
    by (simp_all add: all_stores_def init_move_def)
  then show "decode (movemPush n) = Some (opMOVEM :: 'a opFunc)" "decode (movemPop n) = Some (opMOVEM :: 'a opFunc)"
    by (simp_all add: in_all_stores)
  show "drop_bit 10 (movemPush n) AND 1 = 0" "drop_bit 6 (movemPush n) AND 1 = 1" "drop_bit 3 (movemPush n) AND 7 = 4"
    "drop_bit 10 (movemPop n) AND 1 = 1" "drop_bit 6 (movemPop n) AND 1 = 1" "drop_bit 3 (movemPop n) AND 7 = 3"
    using assms by (auto simp: movemPush_def movemPop_def bits16 dest!: lessDs)
  have "movemPush n AND 7 = n" "movemPop n AND 7 = n"
    using assms by (auto simp: movemPush_def movemPop_def bits16 dest!: lessDs)
  from arg_cong [OF this(1), of unat] arg_cong [OF this(2), of unat]
  show "unat (movemPush n) mod 8 = unat n" "unat (movemPop n) mod 8 = unat n" by simp_all
qed

text \<open>The registers that the two masks name, in the order of their places in memory.\<close>

definition pushList :: "u16 \<Rightarrow> nat list" where
  "pushList w = filter (\<lambda>r. bit w (15 - r)) [0..<16]"

definition popList :: "u16 \<Rightarrow> nat list" where
  "popList w = filter (bit w) [0..<16]"

lemma pushList_rev: "rev (map (\<lambda>i. 15 - i) (filter (bit w) [0..<16])) = pushList w"
proof -
  have "filter (bit w) [0..<16] = filter ((\<lambda>r. bit w (15 - r)) \<circ> (\<lambda>i. 15 - i)) [0..<16]"
    by (rule filter_cong) auto
  then have m: "map (\<lambda>i. 15 - i) (filter (bit w) [0..<16]) = filter (\<lambda>r. bit w (15 - r)) (map (\<lambda>i. 15 - i) [0..<16])"
    by (simp only: filter_map)
  have "rev (map (\<lambda>i. 15 - i) [0..<16]) = [0..<(16 :: nat)]" by code_simp
  then show ?thesis unfolding pushList_def m by (simp only: rev_filter)
qed

lemma length_pushList: "length (pushList w) = OnesCount16 w"
  unfolding pushList_rev [symmetric] by (simp add: OnesCount16_def)

context ram_bus
begin

lemma step_movemPush:
  assumes "bus c = B" "running c" "wf_cpu c" "code_ok 4 (regPC (reg c))" "n < 8"
    and "rd16 (mem (busState c)) (regPC (reg c)) = movemPush n" "rd16 (mem (busState c)) (regPC (reg c) + 2) = w"
    and "stack_ok 64 (regA (reg c) ! unat n)"
  defines "a' \<equiv> regA (reg c) ! unat n - 4 * of_nat (length (pushList w))"
  shows "\<exists>s'. step c = (fetched (movemPush n) c)\<lparr>reg := (reg c)\<lparr>regIR := movemPush n, regPC := regPC (reg c) + 4,
       regA := (regA (reg c))[unat n := a']\<rparr>, busState := s', cycles := cycles c + 8 + 8 * of_nat (length (pushList w))\<rparr> \<and>
    stored (mem s') a' (pushList w) (regs c) \<and>
    (\<forall>b. unat b < unat a' \<or> unat (regA (reg c) ! unat n) \<le> unat b \<longrightarrow> mem s' b = mem (busState c) b)"
proof -
  let ?c = "fetched (movemPush n) c" and ?a = "regA (reg c) ! unat n"
  let ?f = "?c\<lparr>reg := (reg ?c)\<lparr>regPC := regPC (reg c) + 4\<rparr>\<rparr>"
  have pc: "regPC (reg c) + 2 \<le> 0xFFFFFF" "(regPC (reg c) + 2) AND 1 = 0"
    using code_okD [OF assms(4), of 2] by simp_all
  have even: "(regPC (reg c) + 4) AND 1 = 0"
    using assms(4) by (simp add: code_ok_def and_one_eq flip: even_iff_mod_2_eq_zero)
  have l: "length (regA (reg c)) = 8" "unat n < 8" using assms(3,5) by (simp_all add: wf_cpu_def word_less_nat_alt)
  have f: "run_state fetchPC ?c = (w, ?f)"
    using run_fetch [of ?c] assms(1,2,7) pc by (simp add: fetched_def running_def add.assoc)
  have a: "?a AND 1 = 0" "4 * length [0..<16] + 4 \<le> unat ?a" "unat ?a + 4 * length [] \<le> 0x1000000"
    using assms(8) by (simp_all add: stack_ok_def word_le_nat_alt)
  have r: "regs ?f = regs c" by (simp add: regs_def fetched_def fun_eq_iff)
  obtain s' where s': "run_state (foldM (movemStorePre w sizeLong) [0..<16] ?a) ?f = (a', ?f\<lparr>busState := s'\<rparr>)"
    "stored (mem s') a' (pushList w) (regs c)"
    "\<forall>b. unat b < unat a' \<or> unat ?a \<le> unat b \<longrightarrow> mem s' b = mem (busState c) b"
    using store_loop [of ?f "[0..<16]" ?a "[]" a' w] assms(1-3) a
    unfolding pushList_rev r by (auto simp: a'_def length_pushList OnesCount16_def fetched_def running_def wf_cpu_def)
  let ?c' = "?c\<lparr>reg := (reg c)\<lparr>regIR := movemPush n, regPC := regPC (reg c) + 4, regA := (regA (reg c))[unat n := a']\<rparr>,
    busState := s', cycles := cycles c + 8 + 8 * of_nat (length (pushList w))\<rparr>"
  have "snd (run_state opMOVEM ?c) = ?c'"
    using f l s'(1) movemLong_fields(3-5,9) [OF assms(5)]
    by (simp add: opMOVEM_def Let_def fetched_def movemBase_def length_pushList del: upt_Suc)
  then have "?c' = checkPC (snd (run_state opMOVEM ?c))" using even by (simp add: checkPC_def)
  moreover have "code_ok 2 (regPC (reg c))" using assms(4) by (simp add: code_ok_def)
  ultimately have "step c = ?c'"
    using run_Step_ram [OF assms(1,2) _ assms(6) movemLong_fields(1) [OF assms(5)], of ?c'] by (simp add: step_def)
  then show ?thesis using s'(2,3) by blast
qed

lemma step_movemPop:
  assumes "bus c = B" "running c" "wf_cpu c" "code_ok 4 (regPC (reg c))" "n < 8"
    and "rd16 (mem (busState c)) (regPC (reg c)) = movemPop n" "rd16 (mem (busState c)) (regPC (reg c) + 2) = w"
    and "regA (reg c) ! unat n = a" "a AND 1 = 0" "unat a + 4 * length (popList w) \<le> 0x1000000"
    and "stored (mem (busState c)) a (popList w) v"
  shows "\<not> halted (step c) \<and> regPC (reg (step c)) = regPC (reg c) + 4 \<and> busState (step c) = busState c \<and>
    cycles (step c) = cycles c + 12 + 8 * of_nat (length (popList w)) \<and>
    (\<forall>j<16. regs (step c) j = (if j = 8 + unat n then a + 4 * of_nat (length (popList w))
       else if j \<in> set (popList w) then v j else regs c j))"
proof -
  let ?c = "fetched (movemPop n) c" and ?a' = "a + 4 * of_nat (length (popList w))"
  let ?f = "?c\<lparr>reg := (reg ?c)\<lparr>regPC := regPC (reg c) + 4\<rparr>\<rparr>"
  have pc: "regPC (reg c) + 2 \<le> 0xFFFFFF" "(regPC (reg c) + 2) AND 1 = 0"
    using code_okD [OF assms(4), of 2] by simp_all
  have even: "(regPC (reg c) + 4) AND 1 = 0"
    using assms(4) by (simp add: code_ok_def and_one_eq flip: even_iff_mod_2_eq_zero)
  have l: "length (regA (reg c)) = 8" "unat n < 8" using assms(3,5) by (simp_all add: wf_cpu_def word_less_nat_alt)
  have f: "run_state fetchPC ?c = (w, ?f)"
    using run_fetch [of ?c] assms(1,2,7) pc by (simp add: fetched_def running_def add.assoc)
  have r: "regs ?f = regs c" by (simp add: regs_def fetched_def fun_eq_iff)
  obtain ds as where s': "run_state (foldM (movemLoad w sizeLong) [0..<16] a) ?f =
      (?a', ?f\<lparr>reg := (reg ?f)\<lparr>regD := ds, regA := as\<rparr>\<rparr>)" "length ds = 8" "length as = 8"
    "\<And>j. j < 16 \<Longrightarrow> (if j < 8 then ds ! j else as ! (j - 8)) = (if j \<in> set (popList w) then v j else regs c j)"
    using load_loop [of ?f "[0..<16]" a w v] assms(1-3,9-11)
    unfolding popList_def [symmetric] r
    by (auto simp: fetched_def running_def wf_cpu_def popList_def split del: if_split)
  let ?c' = "?c\<lparr>reg := (reg c)\<lparr>regIR := movemPop n, regPC := regPC (reg c) + 4, regD := ds, regA := as[unat n := ?a']\<rparr>,
    cycles := cycles c + 12 + 8 * of_nat (length (popList w))\<rparr>"
  have "snd (run_state opMOVEM ?c) = ?c'"
    using f l s'(1,3) movemLong_fields(6-8,10) [OF assms(5)] assms(8)
    by (simp add: opMOVEM_def Let_def fetched_def movemBase_def OnesCount16_def popList_def del: upt_Suc)
  then have "?c' = checkPC (snd (run_state opMOVEM ?c))" using even by (simp add: checkPC_def)
  moreover have "code_ok 2 (regPC (reg c))" using assms(4) by (simp add: code_ok_def)
  ultimately have step: "step c = ?c'"
    using run_Step_ram [OF assms(1,2) _ assms(6) movemLong_fields(2) [OF assms(5)], of ?c'] by (simp add: step_def)
  have "regs ?c' j = (if j = 8 + unat n then ?a' else if j \<in> set (popList w) then v j else regs c j)" if "j < 16" for j
    using s'(2,3) s'(4) [OF that] that l(2) by (auto simp: regs_def nth_list_update split: if_splits)
  then show ?thesis using assms(2) unfolding step by (simp add: fetched_def running_def)
qed

end

subsection \<open>Properties\<close>

text \<open>
  The code between the two instructions, from \<open>c\<close> to \<open>c'\<close>, has left the address register and the \<open>k\<close>
  saved long words alone; the other registers may be anything.
\<close>

definition savedRegs :: "('b \<Rightarrow> bytes) \<Rightarrow> u16 \<Rightarrow> nat \<Rightarrow> 'b CPU \<Rightarrow> 'b CPU \<Rightarrow> bool" where
  "savedRegs mem n k c c' \<longleftrightarrow> bus c' = bus c \<and> running c' \<and> wf_cpu c' \<and> code_ok 4 (regPC (reg c')) \<and>
     regA (reg c') ! unat n = regA (reg c) ! unat n \<and>
     (\<forall>i<k. rd32 (mem (busState c')) (regA (reg c) ! unat n + 4 * of_nat i) =
            rd32 (mem (busState c)) (regA (reg c) ! unat n + 4 * of_nat i))"

text \<open>
  C17. MOVEM restores the registers it saved. \<open>MOVEM.L list, -(An)\<close>, executed from memory, moves \<open>An\<close> down
  by four for each register of the list, changes no other register and no byte outside the room it
  made, and takes 8 cycles and 8 more per register; and whenever the code behind it comes to a
  \<open>MOVEM.L (An)+, list\<close> with the same list, and with \<open>An\<close> and the saved words as it found them, one step
  later, which takes 12 cycles and 8 more per register, all registers of the list and \<open>An\<close> have the
  values they had at the beginning, and all other registers and the memory are as the code between has
  left them.
\<close>

theorem movem_restores:
  assumes "ram_bus B mem" "bus c = B" "running c" "wf_cpu c" "code_ok 4 (regPC (reg c))" "n < 8"
    and "rd16 (mem (busState c)) (regPC (reg c)) = movemPush n"
    and "rd16 (mem (busState c)) (regPC (reg c) + 2) = w" "stack_ok 64 (regA (reg c) ! unat n)"
    and c1: "c1 = step c" and k: "k = OnesCount16 w"
  shows "regA (reg c1) = (regA (reg c))[unat n := regA (reg c) ! unat n - 4 * of_nat k] \<and>
    regD (reg c1) = regD (reg c) \<and> bus c1 = bus c \<and> cycles c1 = cycles c + 8 + 8 * of_nat k \<and>
    (\<forall>b. unat b < unat (regA (reg c1) ! unat n) \<or> unat (regA (reg c) ! unat n) \<le> unat b \<longrightarrow>
      mem (busState c1) b = mem (busState c) b) \<and>
    (\<forall>c2 w'. savedRegs mem n k c1 c2 \<and> rd16 (mem (busState c2)) (regPC (reg c2)) = movemPop n \<and>
      rd16 (mem (busState c2)) (regPC (reg c2) + 2) = w' \<and> pushList w = popList w' \<longrightarrow>
      busState (step c2) = busState c2 \<and> cycles (step c2) = cycles c2 + 12 + 8 * of_nat k \<and>
      (\<forall>j<16. regs (step c2) j = (if j = 8 + unat n \<or> j \<in> set (popList w') then regs c j else regs c2 j)))"
proof -
  let ?a = "regA (reg c) ! unat n" and ?a' = "regA (reg c) ! unat n - 4 * of_nat k"
  note lk = length_pushList [of w, folded k]
  obtain s' where s: "c1 = (fetched (movemPush n) c)\<lparr>reg := (reg c)\<lparr>regIR := movemPush n, regPC := regPC (reg c) + 4,
       regA := (regA (reg c))[unat n := ?a']\<rparr>, busState := s', cycles := cycles c + 8 + 8 * of_nat k\<rparr>"
    "stored (mem s') ?a' (pushList w) (regs c)"
    "\<forall>b. unat b < unat ?a' \<or> unat ?a \<le> unat b \<longrightarrow> mem s' b = mem (busState c) b"
    using ram_bus.step_movemPush [OF assms(1-9)] unfolding c1 [symmetric] lk by blast
  have l: "length (regA (reg c)) = 8" "unat n < 8" using assms(4,6) by (simp_all add: wf_cpu_def word_less_nat_alt)
  have "k \<le> 16" using length_filter_le [of "bit w" "[0..<16]"] by (simp add: k OnesCount16_def)
  have a': "?a' AND 1 = 0" "unat ?a' = unat ?a - 4 * k"
    using stack_okD(1,2) [OF assms(9), of "4 * k"] \<open>k \<le> 16\<close> by simp_all
  have "busState (step c2) = busState c2 \<and> cycles (step c2) = cycles c2 + 12 + 8 * of_nat k \<and>
      (\<forall>j<16. regs (step c2) j = (if j = 8 + unat n \<or> j \<in> set (popList w') then regs c j else regs c2 j))"
    if "savedRegs mem n k c1 c2" "rd16 (mem (busState c2)) (regPC (reg c2)) = movemPop n"
      "rd16 (mem (busState c2)) (regPC (reg c2) + 2) = w'" "pushList w = popList w'" for c2 w'
  proof -
    have "stored (mem (busState c2)) ?a' (popList w') (regs c)"
      using s(2) that(1,4) lk l stored_cong [of "popList w'" "mem (busState c2)" ?a' "mem s'"]
      by (simp add: savedRegs_def s(1))
    moreover have "unat ?a' + 4 * length (popList w') \<le> 0x1000000"
      using lk that(4) a'(2) assms(9) \<open>k \<le> 16\<close> by (simp add: stack_ok_def word_le_nat_alt)
    ultimately show ?thesis
      using ram_bus.step_movemPop [OF assms(1) _ _ _ _ assms(6) that(2,3) _ a'(1)] that(1,4) lk l assms(2)
      by (auto simp: savedRegs_def s(1) fetched_def regs_def)
  qed
  then show ?thesis using s(3) l by (simp add: s(1) fetched_def)
qed

text \<open>\<open>MOVEM.L D0-D1/A0, -(A7)\<close> and \<open>MOVEM.L (A7)+, D0-D1/A0\<close> at address \<open>0x1000\<close>.\<close>

definition movemCPU :: "testMem CPU" where
  "movemCPU = (ramCPU ((\<lambda>_. 0)(0x1000 := 0x48, 0x1001 := 0xE7, 0x1002 := 0xC0, 0x1003 := 0x80,
     0x1004 := 0x4C, 0x1005 := 0xDF, 0x1006 := 0x01, 0x1007 := 0x03)) 0x1000 0x2000)
     \<lparr>reg := zeroRegisters\<lparr>regD := [1, 2, 3, 4, 5, 6, 7, 8], regA := [9, 0, 0, 0, 0, 0, 0, 0x3000], regPC := 0x1000, regSR := 0x2000\<rparr>\<rparr>"

text \<open>The machine after the first instruction, with all registers but the stack pointer lost.\<close>

definition clobbered :: "testMem \<Rightarrow> testMem CPU" where
  "clobbered m = (ramCPU m 0x1004 0x2000)\<lparr>reg := zeroRegisters\<lparr>regA := [0, 0, 0, 0, 0, 0, 0, 0x2FF4], regPC := 0x1004, regSR := 0x2000\<rparr>\<rparr>"

theorem movem_restores_witness:
  "let c = step (clobbered (busState (step movemCPU)))
   in regs c 0 = 1 \<and> regs c 1 = 2 \<and> regs c 2 = 0 \<and> regs c 8 = 9 \<and> regs c 15 = 0x3000"
proof -
  let ?c2 = "clobbered (busState (step movemCPU))"
  have c: "bus movemCPU = testBus" "running movemCPU" "wf_cpu movemCPU" "code_ok 4 (regPC (reg movemCPU))"
    "rd16 (busState movemCPU) (regPC (reg movemCPU)) = movemPush 7"
    "rd16 (busState movemCPU) (regPC (reg movemCPU) + 2) = 0xC080" "stack_ok 64 (regA (reg movemCPU) ! unat (7 :: u16))"
    by (simp_all add: movemCPU_def running_def accepts_def wf_cpu_def zeroRegisters_def code_ok_def
      rd16_def movemPush_def stack_ok_def)
  have l: "pushList 0xC080 = popList 0x0103" "popList 0x0103 = [0, 1, 8]" "OnesCount16 0xC080 = 3"
    by (simp_all add: pushList_def popList_def OnesCount16_def upt_rec)
  note r = movem_restores [OF test_ram.ram_bus_axioms c(1-4) _ c(5-7) refl refl, unfolded l(3)]
  have a: "regA (reg (step movemCPU)) ! 7 = 0x2FF4" "bus (step movemCPU) = testBus"
    using r by (simp_all add: movemCPU_def)
  have m: "busState (step movemCPU) b = busState movemCPU b" if "unat b < 0x2FF4" for b
    using r a(1) that by simp
  have f: "rd16 (busState ?c2) (regPC (reg ?c2)) = movemPop 7" "rd16 (busState ?c2) (regPC (reg ?c2) + 2) = 0x0103"
    by (simp_all add: clobbered_def rd16_def m movemPop_def) (simp_all add: movemCPU_def)
  have "savedRegs (\<lambda>m. m) 7 3 (step movemCPU) ?c2"
    using a by (simp add: savedRegs_def clobbered_def running_def accepts_def wf_cpu_def zeroRegisters_def code_ok_def)
  then have "\<forall>j<16. regs (step ?c2) j = (if j = 8 + unat (7 :: u16) \<or> j \<in> set (popList 0x0103) then regs movemCPU j else regs ?c2 j)"
    using r f l(1) by simp
  then show ?thesis
    by (simp add: Let_def l(2)) (simp add: regs_def movemCPU_def clobbered_def zeroRegisters_def)
qed

end
