(* ===== verification/Spec_Mode.thy ===== *)
theory Spec_Mode
  imports M68k_Return M68k_Opcode
begin

text \<open>
  User and supervisor mode: which opcodes are privileged and what they do in user mode, and that
  changing the mode through the status register never loses a stack pointer.
\<close>

subsection \<open>Privileged instructions\<close>

text \<open>
  RESET, STOP, RTE, the immediate operations on the status register, MOVE USP in both directions
  and MOVE to SR from a data operand.
\<close>

definition privilegedOp :: "u16 \<Rightarrow> bool" where
  "privilegedOp op \<longleftrightarrow> op \<in> {0x4E70, 0x4E72, 0x4E73, 0x007C, 0x027C, 0x0A7C} \<or>
     op AND 0xFFF0 = 0x4E60 \<or> op AND 0xFFC0 = 0x46C0 \<and> dataOp (f3 op) (f0 op)"

lemma moveUSP_fields:
  assumes "op AND 0xFFF0 = 0x4E60"
  shows "line op = 4" "f9 op = 7" "f8 op = 0" "f6 op = 1" "f3 op = 4 \<or> f3 op = 5"
  using assms by (auto simp: field_defs bits16)

lemma moveSR_fields:
  assumes "op AND 0xFFC0 = 0x46C0"
  shows "line op = 4" "f9 op = 3" "f8 op = 0" "f6 op = 3"
  using assms by (auto simp: field_defs bits16)

lemma decode_fixed:
  "decode 0x4E70 = Some opRESET" "decode 0x4E72 = Some opSTOP" "decode 0x4E73 = Some opRTE"
  "decode 0x007C = Some opORItoSR" "decode 0x027C = Some opANDItoSR" "decode 0x0A7C = Some opEORItoSR"
  by (simp_all add: decode_def decodeLine4_def decodeLine0_def Let_def)

lemma decode_moveUSP:
  assumes "op AND 0xFFF0 = 0x4E60"
  shows "decode op = Some (if f3 op = 4 then opMOVEtoUSP else opMOVEfromUSP)"
  using moveUSP_fields [OF assms] by (auto simp: decode_def decodeLine4_def)

lemma decode_moveSR:
  assumes "op AND 0xFFC0 = 0x46C0" "dataOp (f3 op) (f0 op)"
  shows "decode op = Some (makeMOVEtoSR (f3 op) (f0 op))"
  using assms(2) moveSR_fields [OF assms(1)] by (simp add: decode_def decodeLine4_def guarded_def)

lemma privileged_traps_all:
  assumes "user c"
  shows "run_state opRTE c = run_state (exception 8) c" "run_state opSTOP c = run_state (exception 8) c"
    "run_state opRESET c = run_state (exception 8) c" "run_state opMOVEtoUSP c = run_state (exception 8) c"
    "run_state opMOVEfromUSP c = run_state (exception 8) c" "run_state opANDItoSR c = run_state (exception 8) c"
    "run_state opORItoSR c = run_state (exception 8) c" "run_state opEORItoSR c = run_state (exception 8) c"
    "run_state (makeMOVEtoSR m r) c = run_state (exception 8) c"
  unfolding opRTE_def opSTOP_def opRESET_def opMOVEtoUSP_def opMOVEfromUSP_def opANDItoSR_def opORItoSR_def
    opEORItoSR_def makeMOVEtoSR_def Let_def split_def
  by (rule privileged_traps [OF assms])+

text \<open>
  C4. Privileged instructions trap in user mode. In user mode, each of the privileged opcodes does
  exactly what exception 8 does, whatever its operands, and nothing else; in particular none of its
  extension words is fetched. Exception processing saves the address of the instruction itself.
\<close>

theorem privileged_trap:
  assumes "privilegedOp op" "user c"
  shows "run_state (dispatch op) c = run_state (exception 8) c \<and> returnPC 8 c = prevPC c"
proof -
  have "run_state (dispatch op) c = run_state (exception 8) c"
    using assms(1) privileged_traps_all [OF assms(2)]
    by (auto simp: privilegedOp_def dispatch_def opcodeTable_eq_decode decode_fixed decode_moveUSP decode_moveSR)
  then show ?thesis by (simp add: returnPC_def)
qed

theorem privileged_trap_witness:
  "let c = ramCPU (\<lambda>_. 0) 0x1002 0 in run_state (dispatch 0x46FC) c = run_state (exception 8) c"
  using privileged_trap [of "0x46FC" "ramCPU (\<lambda>_. 0) 0x1002 0"]
  by (simp add: privilegedOp_def dataOp_def user_def)

subsection \<open>The two stack pointers\<close>

lemma run_setSR:
  assumes "wf_cpu c"
  shows "\<exists>c'. run_state (setSR sr) c = ((), c') \<and> regSR (reg c') = sr AND 0xA71F \<and>
    supStack c' = supStack c \<and> userStack c' = userStack c \<and> regD (reg c') = regD (reg c) \<and>
    take 7 (regA (reg c')) = take 7 (regA (reg c)) \<and> regPC (reg c') = regPC (reg c) \<and>
    regIR (reg c') = regIR (reg c) \<and> wf_cpu c'"
proof -
  have m: "(sr AND 0xA71F) AND 0x2000 = sr AND 0x2000" by (simp add: and.assoc)
  show ?thesis
    using assms m by (auto simp: setSR_def wf_cpu_def supStack_def userStack_def user_def Let_def)
qed

text \<open>
  C33. Changing modes never loses a stack pointer. Whatever value is written to the status register,
  and in whichever mode, \<open>setSR\<close> keeps the supervisor and the user stack pointer, each found in A7
  while its mode is active and in its own field otherwise, and the data registers, A0 to A6, PC and IR,
  and stores the implemented bits; writing a sequence of values ends with the same two stack pointers.
\<close>

theorem stack_pointers_kept:
  assumes "wf_cpu c" "srs \<noteq> []" "c' = fold (\<lambda>sr d. snd (run_state (setSR sr) d)) srs c"
  shows "supStack c' = supStack c \<and> userStack c' = userStack c \<and> regSR (reg c') = last srs AND 0xA71F \<and>
    regA (reg c') ! 7 = (if last srs AND flagS = 0 then userStack c else supStack c) \<and>
    regD (reg c') = regD (reg c) \<and> take 7 (regA (reg c')) = take 7 (regA (reg c)) \<and>
    regPC (reg c') = regPC (reg c) \<and> regIR (reg c') = regIR (reg c)"
proof -
  have "supStack c' = supStack c \<and> userStack c' = userStack c \<and> regD (reg c') = regD (reg c) \<and>
      take 7 (regA (reg c')) = take 7 (regA (reg c)) \<and> regPC (reg c') = regPC (reg c) \<and>
      regIR (reg c') = regIR (reg c) \<and> (srs \<noteq> [] \<longrightarrow> regSR (reg c') = last srs AND 0xA71F)"
    using assms(1,3)
  proof (induction srs arbitrary: c)
    case (Cons sr srs)
    obtain d where d: "run_state (setSR sr) c = ((), d)" "regSR (reg d) = sr AND 0xA71F"
      "supStack d = supStack c" "userStack d = userStack c" "regD (reg d) = regD (reg c)"
      "take 7 (regA (reg d)) = take 7 (regA (reg c))" "regPC (reg d) = regPC (reg c)"
      "regIR (reg d) = regIR (reg c)" "wf_cpu d"
      using run_setSR [OF Cons.prems(1)] by blast
    with Cons.IH [of d] Cons.prems show ?case by (cases srs) auto
  qed simp
  moreover have "(last srs AND 0xA71F) AND flagS = last srs AND flagS" by (simp add: and.assoc)
  ultimately show ?thesis using assms(2) by (auto simp: supStack_def userStack_def user_def)
qed

theorem stack_pointers_kept_witness:
  "let c = ramCPU (\<lambda>_. 0) 0x1000 0x2700; c' = fold (\<lambda>sr d. snd (run_state (setSR sr) d)) [0, 0x2000, 0x8015] c
   in regSR (reg c') = 0x8015 \<and> supStack c' = 0x3000 \<and> regA (reg c') ! 7 = 0x4000"
proof -
  let ?c = "ramCPU (\<lambda>_. 0) 0x1000 0x2700"
  have "wf_cpu ?c" "supStack ?c = 0x3000" "userStack ?c = 0x4000"
    by (simp_all add: wf_cpu_def zeroRegisters_def supStack_def userStack_def user_def)
  then show ?thesis
    using stack_pointers_kept [of ?c "[0, 0x2000, 0x8015]"] by (simp add: Let_def del: fold.simps)
qed

end
