(* ===== verification/Spec_Trap.thy ===== *)
theory Spec_Trap
  imports Spec_Program M68k_Return
begin

text \<open>
  What interrupts a program from within and from without: opcodes that have no handler, and the
  requests of devices, of which the CPU keeps the most urgent.
\<close>

subsection \<open>Opcodes without a handler\<close>

definition trapVector :: "u16 \<Rightarrow> nat" where
  "trapVector op = (if drop_bit 12 op = 0xA then 10 else if drop_bit 12 op = 0xF then 11 else 4)"

lemma decode_lines: "drop_bit 12 op = 0xA \<or> drop_bit 12 op = 0xF \<Longrightarrow> decode op = None"
  by (auto simp: decode_def line_def Let_def)

lemma dispatch_unassigned: "opcodeTable op = (None :: 'b opFunc option) \<Longrightarrow> dispatch op = (exception (trapVector op) :: 'b opFunc)"
  by (simp add: dispatch_def trapVector_def)

text \<open>
  \<open>trapped mem h ret c c'\<close>: an exception has taken the CPU from \<open>c\<close> to the handler at \<open>h\<close>, with the
  address \<open>ret\<close> and the status register on the supervisor stack.
\<close>

definition trapped :: "('b \<Rightarrow> bytes) \<Rightarrow> u32 \<Rightarrow> u32 \<Rightarrow> 'b CPU \<Rightarrow> 'b CPU \<Rightarrow> bool" where
  "trapped mem h ret c c' \<longleftrightarrow> regPC (reg c') = h \<and> \<not> user c' \<and> regSR (reg c') AND flagT = 0 \<and> cycles c' = cycles c + 34 \<and>
    \<not> halted c' \<and> regD (reg c') = regD (reg c) \<and> supStack c' = supStack c - 6 \<and> userStack c' = userStack c \<and>
    rd32 (mem (busState c')) (supStack c - 4) = ret \<and> rd16 (mem (busState c')) (supStack c - 6) = regSR (reg c)"

lemma fetched_stacks [simp]: "supStack (fetched op c) = supStack c" "userStack (fetched op c) = userStack c"
  by (simp_all add: fetched_def supStack_def userStack_def user_def)

context ram_bus
begin

lemma exception_trapped:
  assumes "bus c = B" "wf_cpu c" "\<not> halted c" "stack_ok 6 (supStack c)" "v < 256"
    and "rd32 (mem (busState c)) (of_nat v * 4) = h" "h \<noteq> 0"
  shows "trapped mem h (returnPC v c) c (snd (run_state (exception v) c))"
proof -
  let ?sr = "(regSR (reg c) OR flagS) AND NOT flagT"
  have l: "length (regA (reg c)) = 8" using assms(2) by (simp add: wf_cpu_def)
  have sr: "?sr AND flagS \<noteq> 0" "?sr AND flagT = 0" by (simp_all add: bits16)
  show ?thesis
    using run_exception [OF assms(1,3) l assms(4,5)] mem_entered [OF assms(1,4), of ?sr "returnPC v c"]
      frame_reads(1) [OF assms(4)] sr l assms(3,6,7)
    by (simp add: trapped_def) (simp add: entered_def user_def supStack_def userStack_def)
qed

lemma step_trap:
  assumes "bus c = B" "running c" "wf_cpu c" "code_ok 2 (regPC (reg c))" "rd16 (mem (busState c)) (regPC (reg c)) = op"
    and "opcodeTable op = (None :: 'b opFunc option)" "stack_ok 6 (supStack c)"
    and "rd32 (mem (busState c)) (of_nat (trapVector op) * 4) = h" "h \<noteq> 0" "h AND 1 = 0"
  shows "trapped mem h (regPC (reg c)) (fetched op c) (step c)"
proof -
  let ?c = "fetched op c" and ?v = "trapVector op"
  have pc: "regPC (reg c) AND 1 = 0" "regPC (reg c) \<le> 0xFFFFFF"
    using code_okD [OF assms(4), of 0] by simp_all
  have c: "bus ?c = B" "wf_cpu ?c" "\<not> halted ?c" "stack_ok 6 (supStack ?c)" "rd32 (mem (busState ?c)) (of_nat ?v * 4) = h"
    using assms(1-3,7,8) by simp_all (simp_all add: wf_cpu_def fetched_def running_def)
  have v: "?v < 256" by (simp add: trapVector_def)
  have "returnPC ?v ?c = regPC (reg c)" by (simp add: returnPC_def fetched_def trapVector_def)
  then have t: "trapped mem h (regPC (reg c)) ?c (snd (run_state (exception ?v) ?c))"
    using exception_trapped [OF c(1-4) v c(5) assms(9)] by simp
  then have "snd (run_state execute c) = snd (run_state (exception ?v) ?c)"
    using assms(1,2,5,10) pc run_fetch [of "c\<lparr>prevPC := regPC (reg c)\<rparr>"] dispatch_unassigned [OF assms(6)]
    by (simp add: execute_def running_def fetched_def split_def trapped_def)
  then show ?thesis using t assms(2) pc(1) by (simp add: step_def run_Step running_def run_checkInterrupt_idle Let_def)
qed

end

text \<open>
  C19. Opcodes without a handler trap. Executed from memory, an opcode without an entry in the opcode
  table, and in particular every opcode of lines A and F, is not skipped and not misread: within
  one step and 34 cycles the CPU is in supervisor mode, with tracing off, at the handler of vector
  10, 11 or 4, and on the supervisor stack are the address of the opcode itself and the status
  register; the data registers are unchanged.
\<close>

theorem unassigned_traps:
  fixes c :: "'b CPU"
  assumes "ram_bus B mem" "bus c = B" "running c" "wf_cpu c" "code_ok 2 (regPC (reg c))"
    and "rd16 (mem (busState c)) (regPC (reg c)) = op"
    and "opcodeTable op = (None :: 'b opFunc option) \<or> drop_bit 12 op = 0xA \<or> drop_bit 12 op = 0xF"
    and "stack_ok 6 (supStack c)" "rd32 (mem (busState c)) (of_nat (trapVector op) * 4) = h" "h \<noteq> 0" "h AND 1 = 0"
    and c': "c' = step c"
  shows "regPC (reg c') = h \<and> \<not> user c' \<and> regSR (reg c') AND flagT = 0 \<and> cycles c' = cycles c + 34 \<and>
    \<not> halted c' \<and> regD (reg c') = regD (reg c) \<and> supStack c' = supStack c - 6 \<and> userStack c' = userStack c \<and>
    rd32 (mem (busState c')) (supStack c - 4) = regPC (reg c) \<and> rd16 (mem (busState c')) (supStack c - 6) = regSR (reg c)"
proof -
  have "opcodeTable op = (None :: 'b opFunc option)"
    using assms(7) decode_lines [of op] by (auto simp: opcodeTable_eq_decode)
  then have "trapped mem h (regPC (reg c)) (fetched op c) c'"
    using ram_bus.step_trap [OF assms(1-6) _ assms(8-11)] c' by simp
  then show ?thesis by (simp add: trapped_def) (simp add: fetched_def)
qed

text \<open>An opcode of line F at address \<open>0x1000\<close>, in user mode, with the handler at \<open>0x1200\<close>.\<close>

definition lineFCPU :: "testMem CPU" where
  "lineFCPU = ramCPU ((\<lambda>_. 0)(0x2E := 0x12, 0x1000 := 0xF2, 0x1001 := 0x34)) 0x1000 0x0004"

theorem unassigned_traps_witness:
  "regPC (reg (step lineFCPU)) = 0x1200 \<and> rd32 (busState (step lineFCPU)) 0x1FFC = 0x1000"
proof -
  have c: "bus lineFCPU = testBus" "running lineFCPU" "wf_cpu lineFCPU" "code_ok 2 (regPC (reg lineFCPU))"
    "rd16 (busState lineFCPU) (regPC (reg lineFCPU)) = 0xF234" "supStack lineFCPU = 0x2000"
    "rd32 (busState lineFCPU) (of_nat (trapVector 0xF234) * 4) = 0x1200" "regPC (reg lineFCPU) = 0x1000"
    by (simp_all add: lineFCPU_def running_def accepts_def wf_cpu_def zeroRegisters_def code_ok_def
      rd16_def supStack_def user_def trapVector_def rd32_def)
  have "stack_ok 6 (supStack lineFCPU)" by (simp add: c(6) stack_ok_def)
  then show ?thesis
    using unassigned_traps [OF test_ram.ram_bus_axioms c(1-5), of "0x1200" "step lineFCPU"] c(6-8) by simp
qed

subsection \<open>Interrupt requests\<close>

definition request :: "u8 \<times> u8 option \<Rightarrow> 'b CPU \<Rightarrow> 'b CPU" where
  "request r c = snd (run_state (RequestInterrupt (fst r) (snd r)) c)"

text \<open>The request that counts: the first one of the highest level.\<close>

fun urgent :: "u8 \<times> u8 option \<Rightarrow> (u8 \<times> u8 option) list \<Rightarrow> u8 \<times> u8 option" where
  "urgent r [] = r"
| "urgent r (q # qs) = urgent (if fst r < fst q then q else r) qs"

lemma urgent_max: "fst (urgent r qs) = Max (fst ` set (r # qs))"
proof (induction qs arbitrary: r)
  case (Cons q qs)
  show ?case
    unfolding urgent.simps Cons.IH by (cases "qs = []") (auto simp: max_def Max_insert)
qed simp

lemma urgent_first:
  "fst r < fst (urgent r qs) \<and> (\<exists>xs ys. qs = xs @ urgent r qs # ys \<and> (\<forall>x\<in>set xs. fst x < fst (urgent r qs))) \<or>
   urgent r qs = r"
proof (induction qs arbitrary: r)
  case (Cons q qs)
  let ?r = "if fst r < fst q then q else r"
  consider (old) "urgent ?r qs = ?r"
    | (new) xs ys where "fst ?r < fst (urgent ?r qs)" "qs = xs @ urgent ?r qs # ys" "\<forall>x\<in>set xs. fst x < fst (urgent ?r qs)"
    using Cons.IH [of ?r] by blast
  then show ?case
  proof cases
    case old
    then show ?thesis by (cases "fst r < fst q") (auto intro: exI [of _ "[]"])
  next
    case new
    have "fst r < fst (urgent ?r qs)" "fst q < fst (urgent ?r qs)"
      using new(1) by (cases "fst r < fst q"; auto)+
    moreover have "q # qs = (q # xs) @ urgent ?r qs # ys" using new(2) by simp
    ultimately show ?thesis using new(3) unfolding urgent.simps by (metis set_ConsD)
  qed
qed simp

lemma requests: "fold request qs c = c\<lparr>pendingIPL := fst (urgent (pendingIPL c, pendingVec c) qs),
  pendingVec := snd (urgent (pendingIPL c, pendingVec c) qs)\<rparr>"
  by (induction qs arbitrary: c) (simp_all add: request_def RequestInterrupt_def)

text \<open>
  C20. The most urgent request wins. After any sequence of interrupt requests the pending level is the
  maximum of the level that was pending and the levels requested, with the vector of the first
  request of that level; a request that is not above the pending level changes nothing. At the
  next check the CPU accepts it exactly if its level is above the mask of the status register or
  is 7, and otherwise it stays pending and nothing happens.
\<close>

theorem requests_prioritised:
  assumes "c' = fold request qs c"
  shows "pendingIPL c' = Max (insert (pendingIPL c) (fst ` set qs)) \<and>
    (pendingIPL c < pendingIPL c' \<and>
      (\<exists>xs ys. qs = xs @ (pendingIPL c', pendingVec c') # ys \<and> (\<forall>x\<in>set xs. fst x < pendingIPL c')) \<or>
     c' = c) \<and>
    run_state checkInterrupt c' =
      (if pendingIPL c' \<noteq> 0 \<and> (ucast (drop_bit 8 (regSR (reg c)) AND 7) < pendingIPL c' \<or> pendingIPL c' = 7)
       then run_state processInterrupt c' else ((), c'))"
proof -
  let ?r = "(pendingIPL c, pendingVec c)"
  have c': "c' = c\<lparr>pendingIPL := fst (urgent ?r qs), pendingVec := snd (urgent ?r qs)\<rparr>"
    using assms by (simp only: requests)
  have u: "urgent ?r qs = (pendingIPL c', pendingVec c')" by (simp add: c')
  show ?thesis
  proof (intro conjI)
    show "pendingIPL c' = Max (insert (pendingIPL c) (fst ` set qs))"
      using urgent_max [of ?r qs] by (simp add: u)
    have "pendingIPL c' = pendingIPL c \<Longrightarrow> pendingVec c' = pendingVec c \<Longrightarrow> c' = c" using c' by simp
    then show "pendingIPL c < pendingIPL c' \<and>
      (\<exists>xs ys. qs = xs @ (pendingIPL c', pendingVec c') # ys \<and> (\<forall>x\<in>set xs. fst x < pendingIPL c')) \<or> c' = c"
      using urgent_first [of ?r qs] unfolding u fst_conv prod.inject by blast
    have "regSR (reg c') = regSR (reg c)" by (simp add: c')
    then show "run_state checkInterrupt c' =
      (if pendingIPL c' \<noteq> 0 \<and> (ucast (drop_bit 8 (regSR (reg c)) AND 7) < pendingIPL c' \<or> pendingIPL c' = 7)
       then run_state processInterrupt c' else ((), c'))"
      by (simp only: run_checkInterrupt)
  qed
qed

theorem requests_prioritised_witness:
  "let c = fold request [(2, None), (5, Some 64), (5, Some 65), (3, None)] (ramCPU (\<lambda>_. 0) 0x1000 0x2700)
   in pendingIPL c = 5 \<and> run_state checkInterrupt c = ((), c)"
  using requests_prioritised [OF refl, of "[(2, None), (5, Some 64), (5, Some 65), (3, None)]" "ramCPU (\<lambda>_. 0) 0x1000 0x2700"]
  by (simp add: Let_def max_def)

subsection \<open>Two corner cases\<close>

text \<open>
  An accepted interrupt whose handler is at an odd address takes its 44 cycles, but \<open>Step\<close> halts and
  returns 0.
\<close>

lemma interrupt_odd_handler:
  assumes "ram_bus B mem" "bus c = B" "wf_cpu c" "\<not> halted c" "\<not> stopped c" "sr_valid c" "accepts c" "stack_ok 6 (supStack c)"
    and "v = (case pendingVec c of Some n \<Rightarrow> unat n | None \<Rightarrow> 24 + unat (pendingIPL c))"
    and "rd32 (mem (busState c)) (of_nat v * 4) = h" "h AND 1 = 1"
  shows "fst (run_state Step c) = 0 \<and> cycles (step c) = cycles c + 44 \<and> halted (step c)"
proof -
  let ?c1 = "snd (run_state checkInterrupt c)"
  have "h \<noteq> 0" using assms(11) by auto
  then have "regPC (reg ?c1) = h" "cycles ?c1 = cycles c + 44"
    using ram_bus.service [OF assms(1-4,6,8) _ _ assms(9) _ refl] assms(7,10)
    by (auto simp: accepts_def word_neq_0_conv)
  then show ?thesis using assms(4,5,11) by (simp add: run_Step step_def Let_def)
qed

text \<open>MOVE.B from an address register is in the opcode table.\<close>

lemma MOVE_byte_address_register: "opcodeTable 0x1008 = Some (makeMOVE 1 0 0 0 :: 'b opFunc)"
  unfolding opcodeTable_eq_decode by (simp add: decode_def Let_def line_def f9_def f8_def f6_def f3_def f0_def decodeMove_def anyOp_def)

end
