(* ===== verification/Spec_Soft.thy ===== *)
theory Spec_Soft
  imports Spec_Trap Spec_MulDiv
begin

text \<open>
  Traps a program asks for: TRAP always, TRAPV on overflow, CHK if a register is outside its bound,
  DIVU and DIVS if the divisor is zero. Executed from memory they trap exactly under these
  conditions, to their own vector, and otherwise the program goes on.
\<close>

subsection \<open>Specification\<close>

datatype softTrap = Trap u16 | TrapV | Chk u16 u16 | DivU u16 u16 | DivS u16 u16

fun softOk :: "softTrap \<Rightarrow> bool" where
  "softOk (Trap n) \<longleftrightarrow> n < 16"
| "softOk TrapV \<longleftrightarrow> True"
| "softOk (Chk x y) \<longleftrightarrow> x < 8 \<and> y < 8"
| "softOk (DivU x y) \<longleftrightarrow> x < 8 \<and> y < 8"
| "softOk (DivS x y) \<longleftrightarrow> x < 8 \<and> y < 8"

fun softOp :: "softTrap \<Rightarrow> u16" where
  "softOp (Trap n) = 0x4E40 OR n"
| "softOp TrapV = 0x4E76"
| "softOp (Chk x y) = 0x4180 OR push_bit 9 x OR y"
| "softOp (DivU x y) = 0x80C0 OR push_bit 9 x OR y"
| "softOp (DivS x y) = 0x81C0 OR push_bit 9 x OR y"

fun softHandler :: "softTrap \<Rightarrow> 'b opFunc" where
  "softHandler (Trap n) = opTRAP"
| "softHandler TrapV = opTRAPV"
| "softHandler (Chk x y) = makeCHK x 0 y"
| "softHandler (DivU x y) = makeDIVU x 0 y"
| "softHandler (DivS x y) = makeDIVS x 0 y"

fun softVector :: "softTrap \<Rightarrow> nat" where
  "softVector (Trap n) = 32 + unat n"
| "softVector TrapV = 7"
| "softVector (Chk x y) = 6"
| "softVector (DivU x y) = 5"
| "softVector (DivS x y) = 5"

text \<open>The condition, on the registers as numbers, and the status register that is saved.\<close>

fun softTaken :: "softTrap \<Rightarrow> 'b CPU \<Rightarrow> bool" where
  "softTaken (Trap n) c \<longleftrightarrow> True"
| "softTaken TrapV c \<longleftrightarrow> regSR (reg c) AND flagV \<noteq> 0"
| "softTaken (Chk x y) c \<longleftrightarrow> sval sizeWord (regD (reg c) ! unat x) < 0 \<or>
     sval sizeWord (regD (reg c) ! unat y) < sval sizeWord (regD (reg c) ! unat x)"
| "softTaken (DivU x y) c \<longleftrightarrow> uval sizeWord (regD (reg c) ! unat y) = 0"
| "softTaken (DivS x y) c \<longleftrightarrow> uval sizeWord (regD (reg c) ! unat y) = 0"

fun softSR :: "softTrap \<Rightarrow> 'b CPU \<Rightarrow> u16" where
  "softSR (Chk x y) c = (regSR (reg c) AND 0xFFF0) OR (if sval sizeWord (regD (reg c) ! unat x) < 0 then flagN else 0)"
| "softSR _ c = regSR (reg c)"

subsection \<open>The handlers\<close>

lemma reg_pair_fields:
  fixes b :: u16
  assumes "x < 8" "y < 8"
  defines "op \<equiv> (b AND 0xF1F8) OR push_bit 9 x OR y"
  shows "line op = line b" "f9 op = x" "f8 op = f8 b" "f6 op = f6 b" "f3 op = f3 b" "f0 op = y"
  using assms(1,2) unfolding op_def by (auto simp: unpack_bits dest!: less_8D)

lemma soft_decode: "softOk k \<Longrightarrow> decode (softOp k) = Some (softHandler k :: 'a opFunc)"
proof -
  assume ok: "softOk k"
  have "(softOp k, softHandler k) \<in> set (registerTRAP @ registerTRAPV @ registerCHK @ registerDIVU @ registerDIVS :: 'a stores)"
  proof (cases k)
    case (Trap n)
    then have "n \<in> set (range16 0 16)" using ok by simp
    then show ?thesis by (auto simp: Trap registerTRAP_def simp del: set_range16)
  next
    case TrapV
    then show ?thesis by (simp add: registerTRAPV_def)
  next
    case (Chk x y)
    then show ?thesis using ok reg_pair_fields [of x y "0x4180"]
      by (simp add: set_registerCHK dataOp_def field_defs)
  next
    case (DivU x y)
    then show ?thesis using ok reg_pair_fields [of x y "0x80C0"]
      by (simp add: set_registerDIVU dataOp_def field_defs)
  next
    case (DivS x y)
    then show ?thesis using ok reg_pair_fields [of x y "0x81C0"]
      by (simp add: set_registerDIVS dataOp_def field_defs)
  qed
  then have "(softOp k, softHandler k) \<in> set (all_stores :: 'a stores)"
    by (auto simp: all_stores_def init_ctrl_def init_arith_def)
  then show ?thesis by (simp add: in_all_stores)
qed

lemma uint_low_word: "uint (ucast (d :: u32) :: u16) = uval sizeWord d"
  by (simp add: uval_def unsigned_ucast_eq)

lemma uval_scast: "uval sizeWord (scast (w :: u16)) = uint w"
proof -
  have "ucast (scast w :: u32) = w" by (simp add: bits16)
  then show ?thesis by (simp add: uint_low_word [symmetric])
qed

text \<open>CHK compares at 16 bits and passes sign extended values on.\<close>

lemma run_CHK_flags:
  "run_state (setFlagsCmp (scast (ucast d :: u16)) (scast (ucast b :: u16)) (scast ((ucast b :: u16) - ucast d)) sizeWord) c =
    ((), c\<lparr>reg := (reg c)\<lparr>regSR := cmpCCR sizeWord d b (regSR (reg c))\<rparr>\<rparr>)"
proof -
  have "uval sizeWord (scast ((ucast b :: u16) - ucast d)) = uval sizeWord (scast (ucast b :: u16) - scast (ucast d :: u16))"
    by (simp add: uval_scast uval_diff uint_word_arith_bintrs)
  then have "scast ((ucast b :: u16) - ucast d) AND Mask sizeWord =
      (scast (ucast b :: u16) - scast (ucast d :: u16)) AND Mask sizeWord"
    by (simp only: masked_code)
  then have r: "setFlagsCmp s t (scast ((ucast b :: u16) - ucast d)) sizeWord =
      (setFlagsCmp s t (scast (ucast b :: u16) - scast (ucast d :: u16)) sizeWord :: ('b, unit) cpuM)" for s t
    unfolding setFlagsCmp_def Let_def by (simp only:)
  have v: "uval sizeWord (scast (ucast x :: u16)) = uval sizeWord x" "sval sizeWord (scast (ucast x :: u16)) = sval sizeWord x"
    for x :: u32
    by (simp_all add: uval_scast uint_low_word sval_uval)
  show ?thesis unfolding r by (simp add: setFlagsCmp_run cmpCCR_def v)
qed

lemma run_CHK:
  assumes "wf_cpu c" "x < 8" "y < 8"
  shows "run_state (makeCHK x 0 y) c =
    (if softTaken (Chk x y) c then run_state (exception 6) (c\<lparr>reg := (reg c)\<lparr>regSR := softSR (Chk x y) c\<rparr>\<rparr>)
     else ((), c\<lparr>reg := (reg c)\<lparr>regSR := cmpCCR sizeWord (regD (reg c) ! unat x) (regD (reg c) ! unat y) (regSR (reg c))\<rparr>,
       cycles := cycles c + 10\<rparr>))"
proof -
  have l: "unat x < length (regD (reg c))" "unat y < length (regD (reg c))"
    using assms by (simp_all add: wf_cpu_def word_less_nat_alt)
  have w: "ucast (d AND 0xFFFF) = (ucast d :: u16)" for d :: u32 by (simp add: bits16)
  have sr: "sr AND NOT (flagN OR flagZ OR flagV OR flagC) = sr AND 0xFFF0" for sr by (simp add: bits16)
  show ?thesis
    unfolding makeCHK_def Let_def split_def
    by (simp add: makeEARead_def l w sint_low_word run_CHK_flags eaFetchConst_def sr [simplified])
qed

text \<open>What a trap instruction leaves alone when it does not trap.\<close>

definition went_on :: "'b CPU \<Rightarrow> 'b CPU \<Rightarrow> bool" where
  "went_on c c' \<longleftrightarrow> regPC (reg c') = regPC (reg c) \<and> regSR (reg c') AND 0xFFF0 = regSR (reg c) AND 0xFFF0 \<and>
     regA (reg c') = regA (reg c) \<and> regUSP (reg c') = regUSP (reg c) \<and> regSSP (reg c') = regSSP (reg c) \<and>
     busState c' = busState c \<and> halted c' = halted c"

lemma CCR_high: "withCCR (sr AND flagX \<noteq> 0) n z v cc sr AND 0xFFF0 = sr AND 0xFFF0"
  "((sr OR (flagV OR flagN)) AND NOT (flagC OR flagZ)) AND 0xFFF0 = sr AND 0xFFF0"
  by (simp_all add: withCCR_def bits16)

lemma soft_run:
  assumes "softOk k" "wf_cpu c" "ir c = softOp k"
  shows "softTaken k c \<Longrightarrow> run_state (softHandler k) c =
      run_state (exception (softVector k)) (c\<lparr>reg := (reg c)\<lparr>regSR := softSR k c\<rparr>\<rparr>)"
    and "\<not> softTaken k c \<Longrightarrow> went_on c (snd (run_state (softHandler k) c))"
proof -
  have l: "y < 8 \<Longrightarrow> unat y < length (regD (reg c))" for y :: u16
    using assms(2) by (simp add: wf_cpu_def word_less_nat_alt)
  have r: "y < 8 \<Longrightarrow> run_state (makeEARead 0 y sizeWord) c = (regD (reg c) ! unat y AND 0xFFFF, c)" "y < 8 \<Longrightarrow> srcEA 0 y" for y
    by (simp_all add: makeEARead_def l srcEA_def)
  have z: "sval sizeWord d = 0 \<longleftrightarrow> uval sizeWord d = 0" for d
    using sval_eq_iff [of sizeWord d 0] by (simp add: uval_def sval_def)
  have n: "n < 16 \<Longrightarrow> (0x4E40 OR n) AND 0xF = n" for n :: u16 by (auto simp: bits16 dest!: less_16D)
  show "softTaken k c \<Longrightarrow> run_state (softHandler k) c =
      run_state (exception (softVector k)) (c\<lparr>reg := (reg c)\<lparr>regSR := softSR k c\<rparr>\<rparr>)"
    using assms
    by (cases k) (simp_all add: opTRAP_def opTRAPV_def run_CHK DIVU_run [OF _ _ r(2,1)] DIVS_run [OF _ _ r(2,1)] n z
       add.commute del: softTaken.simps(3) softSR.simps(1))
  show "\<not> softTaken k c \<Longrightarrow> went_on c (snd (run_state (softHandler k) c))"
    using assms
    by (cases k) (simp_all add: opTRAPV_def run_CHK DIVU_run [OF _ _ r(2,1)] DIVS_run [OF _ _ r(2,1)] z went_on_def Let_def
       logicCCR_def cmpCCR_def CCR_high [simplified] del: softTaken.simps(3) softSR.simps(1))
qed

lemma soft_frame:
  "softOk k \<Longrightarrow> returnPC (softVector k) c' = regPC (reg c')" "softOk k \<Longrightarrow> softVector k < 256"
  "softSR k c AND flagS = regSR (reg c) AND flagS"
  "softTaken k (fetched op c) = softTaken k c" "softSR k (fetched op c) = softSR k c"
proof -
  show "softOk k \<Longrightarrow> returnPC (softVector k) c' = regPC (reg c')" "softOk k \<Longrightarrow> softVector k < 256"
    by (cases k; simp add: returnPC_def word_less_nat_alt)+
  have "((sr AND 0xFFF0) OR (if b then flagN else 0)) AND flagS = sr AND flagS" for sr b by (simp add: bits16)
  then show "softSR k c AND flagS = regSR (reg c) AND flagS" by (cases k) simp_all
  show "softTaken k (fetched op c) = softTaken k c" "softSR k (fetched op c) = softSR k c"
    by (cases k; simp add: fetched_def)+
qed

context ram_bus
begin

lemma soft_step:
  assumes "bus c = B" "running c" "wf_cpu c" "code_ok 2 (regPC (reg c))" "softOk k"
    and "rd16 (mem (busState c)) (regPC (reg c)) = softOp k"
  shows "softTaken k c \<Longrightarrow> stack_ok 6 (supStack c) \<Longrightarrow> rd32 (mem (busState c)) (of_nat (softVector k) * 4) = h \<Longrightarrow>
      h \<noteq> 0 \<Longrightarrow> h AND 1 = 0 \<Longrightarrow>
      trapped mem h (regPC (reg c) + 2) (c\<lparr>reg := (reg c)\<lparr>regSR := softSR k c\<rparr>\<rparr>) (step c)"
    and "\<not> softTaken k c \<Longrightarrow> went_on (c\<lparr>reg := (reg c)\<lparr>regPC := regPC (reg c) + 2\<rparr>\<rparr>) (step c)"
proof -
  let ?c = "fetched (softOp k) c"
  let ?c2 = "?c\<lparr>reg := (reg ?c)\<lparr>regSR := softSR k c\<rparr>\<rparr>"
  have pc: "(regPC (reg c) + 2) AND 1 = 0"
    using code_okD(2) [OF assms(4), of 0] by (simp add: and_one_eq flip: even_iff_mod_2_eq_zero)
  have st: "step c = checkPC (snd (run_state (softHandler k) ?c))"
    using run_Step_ram [OF assms(1,2,4,6) soft_decode [OF assms(5)] refl] by (simp add: step_def)
  have wf: "wf_cpu ?c" "ir ?c = softOp k" using assms(3) by (simp_all add: wf_cpu_def fetched_def)
  note run = soft_run [OF assms(5) wf, unfolded soft_frame(4,5)]
  {
    assume t: "softTaken k c" and sp: "stack_ok 6 (supStack c)"
      and h: "rd32 (mem (busState c)) (of_nat (softVector k) * 4) = h" "h \<noteq> 0" "h AND 1 = 0"
    have s2: "supStack ?c2 = supStack (c\<lparr>reg := (reg c)\<lparr>regSR := softSR k c\<rparr>\<rparr>)"
      "userStack ?c2 = userStack (c\<lparr>reg := (reg c)\<lparr>regSR := softSR k c\<rparr>\<rparr>)"
      "supStack (c\<lparr>reg := (reg c)\<lparr>regSR := softSR k c\<rparr>\<rparr>) = supStack c"
      by (simp_all add: supStack_def userStack_def user_def fetched_def soft_frame(3))
    have "trapped mem h (regPC (reg c) + 2) ?c2 (snd (run_state (exception (softVector k)) ?c2))"
      using exception_trapped [of ?c2 "softVector k" h] assms(1-3,5) sp h s2(1,3)
      by (simp add: wf_cpu_def fetched_def running_def soft_frame(1,2) [OF assms(5)])
    then show "trapped mem h (regPC (reg c) + 2) (c\<lparr>reg := (reg c)\<lparr>regSR := softSR k c\<rparr>\<rparr>) (step c)"
      using h(3) unfolding st run(1) [OF t] by (simp add: trapped_def s2 checkPC_def) (simp add: fetched_def)
  next
    assume "\<not> softTaken k c"
    from run(2) [OF this] show "went_on (c\<lparr>reg := (reg c)\<lparr>regPC := regPC (reg c) + 2\<rparr>\<rparr>) (step c)"
      using pc assms(2) unfolding st by (simp add: went_on_def checkPC_def fetched_def running_def)
  }
qed

end

subsection \<open>Property\<close>

text \<open>
  C13. Software traps are taken exactly when they should be. Executed from memory, \<open>TRAP #n\<close> always, TRAPV
  if the overflow flag is set, \<open>CHK Dy,Dx\<close> if the low word of \<open>Dx\<close> as a signed number is negative or
  above that of \<open>Dy\<close>, and \<open>DIVU Dy,Dx\<close> and \<open>DIVS Dy,Dx\<close> if the low word of \<open>Dy\<close> is zero, bring the CPU within one
  step and 34 cycles to the handler of their vector (\<open>32 + n\<close>, 7, 6 and 5), in supervisor mode with
  tracing off, the address of the next instruction and the status register on the supervisor
  stack and the data registers unchanged. Otherwise the CPU is at the next instruction, and
  memory, the stacks, the address registers and all but the condition codes of the status
  register are as they were.
\<close>

theorem software_traps:
  assumes "ram_bus B mem" "bus c = B" "running c" "wf_cpu c" "code_ok 2 (regPC (reg c))" "softOk k"
    and "rd16 (mem (busState c)) (regPC (reg c)) = softOp k" "stack_ok 6 (supStack c)"
    and "rd32 (mem (busState c)) (of_nat (softVector k) * 4) = h" "h \<noteq> 0" "h AND 1 = 0"
  shows "if softTaken k c
    then trapped mem h (regPC (reg c) + 2) (c\<lparr>reg := (reg c)\<lparr>regSR := softSR k c\<rparr>\<rparr>) (step c)
    else went_on (c\<lparr>reg := (reg c)\<lparr>regPC := regPC (reg c) + 2\<rparr>\<rparr>) (step c)"
  using ram_bus.soft_step [OF assms(1-7)] assms(8-11) by simp

text \<open>\<open>CHK D1,D0\<close> with \<open>D0 = 7\<close> and \<open>D1 = 5\<close> as words, in user mode, with the handler at \<open>0x1200\<close>.\<close>

definition chkCPU :: "testMem CPU" where
  "chkCPU = (ramCPU ((\<lambda>_. 0)(0x1A := 0x12, 0x1000 := 0x41, 0x1001 := 0x81)) 0x1000 0)
     \<lparr>reg := zeroRegisters\<lparr>regPC := 0x1000, regD := [0x90007, 5, 0, 0, 0, 0, 0, 0], regSSP := 0x2000\<rparr>\<rparr>"

lemma chkCPU_simps:
  "bus chkCPU = testBus" "running chkCPU" "wf_cpu chkCPU" "regPC (reg chkCPU) = 0x1000" "supStack chkCPU = 0x2000"
  "rd16 (busState chkCPU) 0x1000 = softOp (Chk 0 1)" "rd32 (busState chkCPU) 0x18 = 0x1200" "softTaken (Chk 0 1) chkCPU"
  by (simp_all add: chkCPU_def running_def accepts_def wf_cpu_def zeroRegisters_def rd16_def supStack_def user_def
    rd32_def sval_def)

theorem software_traps_witness:
  "regPC (reg (step chkCPU)) = 0x1200 \<and> rd32 (busState (step chkCPU)) 0x1FFC = 0x1002"
proof -
  have "supStack (chkCPU\<lparr>reg := (reg chkCPU)\<lparr>regSR := softSR (Chk 0 1) chkCPU\<rparr>\<rparr>) = 0x2000"
    by (simp add: chkCPU_def zeroRegisters_def supStack_def user_def sval_def)
  then show ?thesis
    using software_traps [OF test_ram.ram_bus_axioms chkCPU_simps(1-3), of "Chk 0 1" "0x1200"] chkCPU_simps
    by (simp add: code_ok_def stack_ok_def trapped_def del: softOp.simps softTaken.simps softSR.simps)
qed

end
