(* ===== verification/Spec_Copy.thy ===== *)
theory Spec_Copy
  imports Spec_Program Spec_Move
begin

text \<open>
  A program of two instructions: \<open>MOVE.B (Am)+,(An)+\<close> followed by a DBRA back to it copies a block
  of memory. The decoder, the two addressing modes, the data move, the loop instruction and the
  bus work together here; the theorem is the total correctness of the loop, with its time.
\<close>

subsection \<open>The program\<close>

definition moveByteInc :: "u16 \<Rightarrow> u16 \<Rightarrow> u16" where
  "moveByteInc m n = 0x1000 OR push_bit 9 n OR push_bit 6 3 OR push_bit 3 3 OR m"

text \<open>The CPU is about to execute the copy loop.\<close>

definition at_copy :: "('b \<Rightarrow> bytes) \<Rightarrow> u16 \<Rightarrow> u16 \<Rightarrow> u16 \<Rightarrow> 'b CPU \<Rightarrow> bool" where
  "at_copy mem m n dn c \<longleftrightarrow> running c \<and> wf_cpu c \<and> code_ok 6 (regPC (reg c)) \<and>
     rd16 (mem (busState c)) (regPC (reg c)) = moveByteInc m n \<and>
     rd16 (mem (busState c)) (regPC (reg c) + 2) = dbcc 1 dn \<and>
     rd16 (mem (busState c)) (regPC (reg c) + 4) = 0xFFFC"

text \<open>The block of \<open>k\<close> bytes at \<open>s\<close> copied to \<open>d\<close>.\<close>

definition blockCopy :: "nat \<Rightarrow> u32 \<Rightarrow> u32 \<Rightarrow> bytes \<Rightarrow> bytes" where
  "blockCopy k s d m = (\<lambda>b. if unat d \<le> unat b \<and> unat b < unat d + k then m (s + (b - d)) else m b)"

text \<open>The two blocks may overlap only if the destination is the lower one.\<close>

definition forward :: "nat \<Rightarrow> u32 \<Rightarrow> u32 \<Rightarrow> bool" where
  "forward k s d \<longleftrightarrow> unat d \<le> unat s \<or> unat s + k \<le> unat d"

lemma blockCopy_0 [simp]: "blockCopy 0 s d m = m"
  by (rule ext) (auto simp: blockCopy_def)

lemma blockCopy_Suc:
  assumes "forward (Suc k) s d" "unat s + Suc k \<le> 0x1000000" "unat d + Suc k \<le> 0x1000000"
  shows "blockCopy (Suc k) s d m = blockCopy k (s + 1) (d + 1) (m(d := m s))"
proof
  fix b
  have d1: "unat (d + 1) = unat d + 1" using unat_add_small [of d 1] assms(3) by simp
  have e: "s + 1 + (b - (d + 1)) = s + (b - d)" by simp
  show "blockCopy (Suc k) s d m b = blockCopy k (s + 1) (d + 1) (m(d := m s)) b"
  proof (cases "unat d < unat b \<and> unat b < unat d + Suc k")
    case True
    then have u: "unat (b - d) = unat b - unat d" by (simp add: unat_sub_if')
    have "s + (b - d) \<noteq> d"
    proof
      assume eq: "s + (b - d) = d"
      have "unat s + unat (b - d) < 2 ^ 32" using True assms(2) by (auto simp: u)
      from unat_add_small [OF this] have "unat d = unat s + unat (b - d)" by (simp add: eq)
      then show False using True assms(1) by (auto simp: forward_def u)
    qed
    then show ?thesis using True by (simp add: blockCopy_def d1 e del: add_diff_eq)
  next
    case False
    moreover have "unat b = unat d \<longleftrightarrow> b = d" by (simp add: word_unat_eq_iff)
    ultimately show ?thesis by (cases "b = d") (auto simp: blockCopy_def d1)
  qed
qed

lemma moveByteInc_fields:
  assumes "m < 8" "n < 8"
  shows "decode (moveByteInc m n) = Some (makeMOVE 3 m 3 n)"
    "moveSizeMap ! unat (drop_bit 12 (moveByteInc m n) AND 3) = sizeByte"
proof -
  have "line (moveByteInc m n) = 1" "f9 (moveByteInc m n) = n" "f8 (moveByteInc m n) = 0"
    "f6 (moveByteInc m n) = 3" "f3 (moveByteInc m n) = 3" "f0 (moveByteInc m n) = m"
    using assms by (auto simp: moveByteInc_def unpack_bits dest!: lessDs)
  then have "(moveByteInc m n, makeMOVE 3 m 3 n) \<in> set (registerMOVE :: 'a stores)"
    using assms by (simp add: set_registerMOVE anyOp_def)
  then have "(moveByteInc m n, makeMOVE 3 m 3 n) \<in> set (all_stores :: 'a stores)"
    by (simp add: all_stores_def init_move_def)
  then show "decode (moveByteInc m n) = Some (makeMOVE 3 m 3 n :: 'a opFunc)" by (simp add: in_all_stores)
  have "drop_bit 12 (moveByteInc m n) AND 3 = 1"
    using assms by (auto simp: moveByteInc_def unpack_bits dest!: lessDs)
  then show "moveSizeMap ! unat (drop_bit 12 (moveByteInc m n) AND 3) = sizeByte"
    by (simp add: moveSizeMap_def del: unat_and_7)
qed

subsection \<open>One iteration\<close>

lemma logicCCR_system: "drop_bit 8 (logicCCR sz r sr) AND 7 = drop_bit 8 sr AND 7"
  by (simp add: logicCCR_def withCCR_def bits16)

lemma logicCCR_twice: "logicCCR sz r (logicCCR sz' r' sr) = logicCCR sz r sr"
  by (simp add: logicCCR_def) (simp add: withCCR_def bits16)

lemma rd16_upd: "a \<noteq> d \<Longrightarrow> a + 1 \<noteq> d \<Longrightarrow> rd16 (m(d := v)) a = rd16 m a"
  by (simp add: rd16_def)

lemma code_unchanged:
  assumes "outside (Suc k) d 6 a" "code_ok 6 a" "d \<le> 0xFFFFFF"
  shows "rd16 (m(d := v)) a = rd16 m a" "rd16 (m(d := v)) (a + 2) = rd16 m (a + 2)"
    "rd16 (m(d := v)) (a + 4) = rd16 m (a + 4)"
proof -
  have "apart a 6 d 1"
    using assms by (intro outside_apart) (auto simp: outside_def code_ok_def word_le_nat_alt)
  then have "a + of_nat i \<noteq> d" if "i < 6" for i using that by (simp add: apart_def)
  from this [of 0] this [of 1] this [of 2] this [of 3] this [of 4] this [of 5]
  show "rd16 (m(d := v)) a = rd16 m a" "rd16 (m(d := v)) (a + 2) = rd16 m (a + 2)"
    "rd16 (m(d := v)) (a + 4) = rd16 m (a + 4)"
    by (simp_all add: rd16_upd add.assoc)
qed

context ram_bus
begin

lemma step_move:
  assumes "bus c = B" "running c" "wf_cpu c" "code_ok 2 (regPC (reg c))"
    and "rd16 (mem (busState c)) (regPC (reg c)) = moveByteInc m n" "m < 7" "n < 7" "m \<noteq> n"
    and s: "regA (reg c) ! unat m = s" "s \<le> 0xFFFFFF" and d: "regA (reg c) ! unat n = d" "d \<le> 0xFFFFFF"
  shows "step c = (fetched (moveByteInc m n) c)\<lparr>reg := (reg c)\<lparr>regPC := regPC (reg c) + 2, regIR := moveByteInc m n,
       regA := (regA (reg c))[unat m := s + 1, unat n := d + 1],
       regSR := logicCCR sizeByte (ucast (mem (busState c) s)) (regSR (reg c))\<rparr>,
     busState := Write8 B (busState c) d (mem (busState c) s), cycles := cycles c + 12\<rparr>"
proof -
  let ?c = "fetched (moveByteInc m n) c"
  have mn: "m < 8" "n < 8" "unat m < 8" "unat n < 8" "m \<noteq> 7" "n \<noteq> 7" "unat m \<noteq> unat n"
    using assms(6-8) by (auto simp: word_less_nat_alt word_unat_eq_iff)
  have l: "length (regA (reg c)) = 8" using assms(3) by (simp add: wf_cpu_def)
  have ok: "operand_ok sizeByte a" for a by (simp add: operand_ok_def)
  have r: "run_state (makeEARead 3 m sizeByte) ?c = (ucast (mem (busState c) s),
      ?c\<lparr>reg := (reg ?c)\<lparr>regA := (regA (reg c))[unat m := s + 1]\<rparr>\<rparr>)"
    using assms(1,2) mn l s by (simp add: makeEARead_def fetched_def running_def run_ram_read [OF _ _ ok] bus_address)
  have w: "run_state (makeEAMemAddr 3 n sizeByte) (?c\<lparr>reg := (reg ?c)\<lparr>regA := (regA (reg c))[unat m := s + 1]\<rparr>\<rparr>) =
      (d, ?c\<lparr>reg := (reg ?c)\<lparr>regA := (regA (reg c))[unat m := s + 1, unat n := d + 1]\<rparr>\<rparr>)"
    using mn l d by (simp add: makeEAMemAddr_def fetched_def)
  have u: "ucast (ucast x :: u32) = x" for x :: u8 by (simp add: bits8)
  have t: "moveTime sizeByte 3 m 3 n = 12"
    by (simp add: moveTime_def eaFetchCycles_def eaWriteCycles_def)
  let ?c' = "?c\<lparr>reg := (reg c)\<lparr>regPC := regPC (reg c) + 2, regIR := moveByteInc m n,
       regA := (regA (reg c))[unat m := s + 1, unat n := d + 1],
       regSR := logicCCR sizeByte (ucast (mem (busState c) s)) (regSR (reg c))\<rparr>,
     busState := Write8 B (busState c) d (mem (busState c) s), cycles := cycles c + 12\<rparr>"
  have ready: "bus ?c = B" "wf_cpu ?c" "srcEA 3 m" "memEA 3 n"
    "sizeByte = moveSizeMap ! unat (drop_bit 12 (ir ?c) AND 3)"
    using assms(1,3) mn moveByteInc_fields(2) [OF mn(1,2)] by (simp_all add: fetched_def wf_cpu_def srcEA_def memEA_def)
  have h: "run_state (makeMOVE 3 m 3 n) ?c = ((), ?c')"
    using move_memory [OF ram_bus_axioms ready _ r w _ ok refl] assms(2) d(2)
    by (simp add: fetched_def running_def bus_address t u)
  have "regPC (reg c) AND 1 = 0" using code_okD(2) [OF assms(4), of 0] by simp
  then have "?c' = checkPC (snd (run_state (makeMOVE 3 m 3 n) ?c))"
    by (simp add: h checkPC_def and_one_eq flip: even_iff_mod_2_eq_zero)
  then show ?thesis
    using run_Step_ram [OF assms(1,2,4,5) moveByteInc_fields(1) [OF mn(1,2)], of ?c'] by (simp add: step_def)
qed

lemma copy_iteration:
  assumes "bus c = B" "at_copy mem m n dn c" "m < 7" "n < 7" "m \<noteq> n" "dn < 8" "counter dn c = k"
    and "regA (reg c) ! unat m = s" "s \<le> 0xFFFFFF" "regA (reg c) ! unat n = d" "d \<le> 0xFFFFFF"
    and "outside (Suc j) d 6 (regPC (reg c))"
  defines "v \<equiv> (regD (reg c) ! unat dn AND 0xFFFF0000) OR (if k = 0 then 0xFFFF else of_nat (k - 1))"
    and "c' \<equiv> step (step c)"
  shows "regPC (reg c') = regPC (reg c) + (if k = 0 then 6 else 0)"
    "cycles c' = cycles c + (if k = 0 then 26 else 22)"
    "regD (reg c') = (regD (reg c))[unat dn := v]"
    "regA (reg c') = (regA (reg c))[unat m := s + 1, unat n := d + 1]"
    "regSR (reg c') = logicCCR sizeByte (ucast (mem (busState c) s)) (regSR (reg c))"
    "mem (busState c') = (mem (busState c))(d := mem (busState c) s)"
    "bus c' = B" "\<not> halted c'" "k \<noteq> 0 \<Longrightarrow> at_copy mem m n dn c'"
proof -
  have at: "running c" "wf_cpu c" "code_ok 6 (regPC (reg c))"
    "rd16 (mem (busState c)) (regPC (reg c)) = moveByteInc m n"
    "rd16 (mem (busState c)) (regPC (reg c) + 2) = dbcc 1 dn"
    "rd16 (mem (busState c)) (regPC (reg c) + 4) = 0xFFFC"
    using assms(2) by (simp_all add: at_copy_def)
  have ok: "code_ok 2 (regPC (reg c))" "code_ok 4 (regPC (reg c) + 2)"
    using code_ok_shift [OF at(3), of 0 2] code_ok_shift [OF at(3), of 2 4] by simp_all
  note m = step_move [OF assms(1) at(1,2) ok(1) at(4) assms(3-5,8-11)]
  note code = code_unchanged [OF assms(12) at(3) assms(11)]
  have w: "mem (Write8 B (busState c) d x) = (mem (busState c))(d := x)" for x
    using assms(11) by (rule ram_write8)
  have c1: "bus (step c) = B" "running (step c)" "wf_cpu (step c)" "code_ok 4 (regPC (reg (step c)))"
    "rd16 (mem (busState (step c))) (regPC (reg (step c))) = dbcc 1 dn"
    "rd16 (mem (busState (step c))) (regPC (reg (step c)) + 2) = 0xFFFC"
    "regD (reg (step c)) = regD (reg c)" "regPC (reg (step c)) = regPC (reg c) + 2" "cycles (step c) = cycles c + 12"
    using assms(1) at ok by (simp_all add: m fetched_def w code running_def accepts_def logicCCR_system wf_cpu_def add.assoc)
  have k: "k = unat (ucast (regD (reg (step c)) ! unat dn) :: u16)" using assms(7) by (simp add: c1(7) counter_def)
  have pc: "regPC (reg (step c)) + (if k = 0 then 4 else 2 + scast (0xFFFC :: u16)) = regPC (reg c) + (if k = 0 then 6 else 0)"
    "cycles (step c) + (if k = 0 then 14 else 10) = cycles c + (if k = 0 then 26 else 22)"
    by (simp_all add: c1(8,9) add.assoc)
  have d: "c' = (fetched (dbcc 1 dn) (step c))
    \<lparr>reg := (reg (step c))\<lparr>regIR := dbcc 1 dn, regPC := regPC (reg c) + (if k = 0 then 6 else 0),
       regD := (regD (reg c))[unat dn := v]\<rparr>, cycles := cycles c + (if k = 0 then 26 else 22)\<rparr>"
    unfolding v_def c'_def pc [symmetric] c1(7) [symmetric]
    by (rule step_DBcc [OF c1(1-4) _ assms(6) c1(5,6) _ _ k]) (simp_all add: testCondition_def)
  show "regPC (reg c') = regPC (reg c) + (if k = 0 then 6 else 0)"
    "cycles c' = cycles c + (if k = 0 then 26 else 22)"
    "regD (reg c') = (regD (reg c))[unat dn := v]"
    "regA (reg c') = (regA (reg c))[unat m := s + 1, unat n := d + 1]"
    "regSR (reg c') = logicCCR sizeByte (ucast (mem (busState c) s)) (regSR (reg c))"
    "mem (busState c') = (mem (busState c))(d := mem (busState c) s)"
    "bus c' = B" "\<not> halted c'"
    using assms(1) at(1) by (simp_all add: d fetched_def m w running_def)
  show "k \<noteq> 0 \<Longrightarrow> at_copy mem m n dn c'"
    using at by (simp add: d fetched_def m w running_def at_copy_def wf_cpu_def code accepts_def logicCCR_system)
qed

lemma copy_loop:
  assumes "bus c = B" "at_copy mem m n dn c" "m < 7" "n < 7" "m \<noteq> n" "dn < 8" "counter dn c = k"
    and "regA (reg c) ! unat m = s" "unat s + Suc k \<le> 0x1000000"
    and "regA (reg c) ! unat n = d" "unat d + Suc k \<le> 0x1000000"
    and "forward (Suc k) s d" "outside (Suc k) d 6 (regPC (reg c))"
  shows "let c' = (step ^^ (2 * Suc k)) c
    in mem (busState c') = blockCopy (Suc k) s d (mem (busState c)) \<and>
       regPC (reg c') = regPC (reg c) + 6 \<and> cycles c' = cycles c + 22 * of_nat k + 26 \<and>
       regA (reg c') = (regA (reg c))[unat m := s + of_nat (Suc k), unat n := d + of_nat (Suc k)] \<and>
       regD (reg c') = (regD (reg c))[unat dn := (regD (reg c) ! unat dn AND 0xFFFF0000) OR 0xFFFF] \<and>
       regSR (reg c') = logicCCR sizeByte (ucast (mem (busState c') (d + of_nat k))) (regSR (reg c)) \<and>
       \<not> halted c'"
  using assms
proof (induction k arbitrary: c s d)
  case 0
  have le: "s \<le> 0xFFFFFF" "d \<le> 0xFFFFFF" using 0(9,11) by (simp_all add: word_le_nat_alt)
  note i = copy_iteration [OF 0(1-8) le(1) 0(10) le(2) 0(13)]
  show ?case
    using i 0 blockCopy_Suc [OF 0(12,9,11), of "mem (busState c)"] by (simp add: numeral_2_eq_2 fun_upd_def)
next
  case (Suc k)
  note p = Suc.prems
  have le: "s \<le> 0xFFFFFF" "d \<le> 0xFFFFFF" using p(9,11) by (simp_all add: word_le_nat_alt)
  note i = copy_iteration [OF p(1-8) le(1) p(10) le(2) p(13)]
  have l: "unat dn < length (regD (reg c))" "unat m < length (regA (reg c))" "unat n < length (regA (reg c))"
    "unat m \<noteq> unat n"
    using p(2-6) by (auto simp: at_copy_def wf_cpu_def word_less_nat_alt word_unat_eq_iff)
  have "k < 65536" using counter_bound [of dn c] p(7) by simp
  note low = low_word_replaced [OF this, of "regD (reg c) ! unat dn"]
  have k: "counter dn (step (step c)) = k" using l(1) low(1) by (simp add: counter_def i(3))
  have u: "unat (s + 1) = unat s + 1" "unat (d + 1) = unat d + 1"
    using unat_add_small [of s 1] unat_add_small [of d 1] p(9,11) by simp_all
  have geo: "unat (s + 1) + Suc k \<le> 0x1000000" "unat (d + 1) + Suc k \<le> 0x1000000"
    "forward (Suc k) (s + 1) (d + 1)" "outside (Suc k) (d + 1) 6 (regPC (reg (step (step c))))"
    using p(9,11-13) by (auto simp: u forward_def outside_def i(1))
  have reg: "regA (reg (step (step c))) ! unat m = s + 1" "regA (reg (step (step c))) ! unat n = d + 1"
    using l by (simp_all add: i(4))
  note IH = Suc.IH [OF i(7) i(9) p(3-6) k reg(1) geo(1) reg(2) geo(2-4)]
  have n: "(step ^^ (2 * Suc (Suc k))) c = (step ^^ (2 * Suc k)) (step (step c))"
    by (simp add: funpow_swap1)
  have upd: "xs[unat m := a, unat n := b, unat m := a', unat n := b'] = xs[unat m := a', unat n := b']"
    for xs :: "u32 list" and a b a' b'
    using l(4) by (simp add: list_update_swap [of "unat n" "unat m"])
  show ?case
    using IH l low(2) unfolding n Let_def
    by (simp add: i blockCopy_Suc [OF p(12,9,11)] logicCCR_twice upd algebra_simps)
qed

end

subsection \<open>Property\<close>

text \<open>
  C12. The copy loop is totally correct. On a bus that behaves like memory, \<open>MOVE.B (Am)+,(An)+\<close>
  followed by \<open>DBRA Dk\<close> back to it, with \<open>k\<close> in the low word of the counter, ends after exactly
  \<open>2 (k + 1)\<close> steps and \<open>22 k + 26\<close> cycles behind the loop: the \<open>k + 1\<close> bytes at the first address
  register are at the second, no other byte has changed, both address registers point behind
  their blocks, the counter is \<open>- 1\<close>, and the condition codes describe the last byte. The blocks
  may overlap if the destination is the lower one; the destination must not hit the program.
\<close>

theorem block_copy:
  assumes "ram_bus B mem" "bus c = B" "at_copy mem m n dn c" "m < 7" "n < 7" "m \<noteq> n" "dn < 8" "counter dn c = k"
    and "regA (reg c) ! unat m = s" "unat s + Suc k \<le> 0x1000000"
    and "regA (reg c) ! unat n = d" "unat d + Suc k \<le> 0x1000000"
    and "forward (Suc k) s d" "outside (Suc k) d 6 (regPC (reg c))"
  shows "let c' = (step ^^ (2 * Suc k)) c
    in mem (busState c') = blockCopy (Suc k) s d (mem (busState c)) \<and>
       regPC (reg c') = regPC (reg c) + 6 \<and> cycles c' = cycles c + 22 * of_nat k + 26 \<and>
       regA (reg c') = (regA (reg c))[unat m := s + of_nat (Suc k), unat n := d + of_nat (Suc k)] \<and>
       regD (reg c') = (regD (reg c))[unat dn := (regD (reg c) ! unat dn AND 0xFFFF0000) OR 0xFFFF] \<and>
       regSR (reg c') = logicCCR sizeByte (ucast (mem (busState c') (d + of_nat k))) (regSR (reg c)) \<and>
       \<not> halted c'"
  using ram_bus.copy_loop [OF assms] .

text \<open>Three bytes at \<open>0x2000\<close>, copied one byte down by \<open>MOVE.B (A0)+,(A1)+; DBRA D2\<close>.\<close>

definition copyCPU :: "testMem CPU" where
  "copyCPU = (ramCPU ((\<lambda>_. 0)(0x1000 := 0x12, 0x1001 := 0xD8, 0x1002 := 0x51, 0x1003 := 0xCA, 0x1004 := 0xFF,
       0x1005 := 0xFC, 0x2000 := 7, 0x2001 := 8, 0x2002 := 0x89)) 0x1000 0x2000)
     \<lparr>reg := zeroRegisters\<lparr>regPC := 0x1000, regSR := 0x2700, regD := [0, 0, 2, 0, 0, 0, 0, 0],
       regA := [0x2000, 0x1FFF, 0, 0, 0, 0, 0, 0x3000]\<rparr>\<rparr>"

theorem block_copy_witness:
  "let c' = (step ^^ 6) copyCPU
   in busState c' 0x1FFF = 7 \<and> busState c' 0x2000 = 8 \<and> busState c' 0x2001 = 0x89 \<and> busState c' 0x2002 = 0x89 \<and>
      regA (reg c') = [0x2003, 0x2002, 0, 0, 0, 0, 0, 0x3000] \<and> cycles c' = 70"
proof -
  have "at_copy (\<lambda>m. m) 0 1 2 copyCPU" "counter 2 copyCPU = 2" "bus copyCPU = testBus"
    by (simp_all add: copyCPU_def at_copy_def running_def accepts_def wf_cpu_def zeroRegisters_def
      code_ok_def rd16_def dbcc_def moveByteInc_def counter_def)
  then show ?thesis
    using block_copy [OF test_ram.ram_bus_axioms, of copyCPU 0 1 2 2 "0x2000" "0x1FFF"]
    by (simp add: copyCPU_def Let_def zeroRegisters_def forward_def outside_def blockCopy_def)
qed

end
