(* ===== verification/Spec_Compare.thy ===== *)
theory Spec_Compare
  imports Spec_Program Spec_Alu
begin

text \<open>
  A comparison followed by a conditional branch, as a program in memory: the flags that CMP leaves
  are the ones Bcc reads, so that the pair branches on a relation between two numbers.
\<close>

subsection \<open>The program\<close>

definition cmpReg :: "u16 \<Rightarrow> u16 \<Rightarrow> u16 \<Rightarrow> u16" where
  "cmpReg szBits x y = 0xB000 OR push_bit 9 x OR push_bit 6 szBits OR y"

definition bcc :: "u16 \<Rightarrow> u16 \<Rightarrow> u16" where
  "bcc cc disp = 0x6000 OR push_bit 8 cc OR disp"

text \<open>The displacement of a branch at \<open>pc\<close>: in the opcode, or in the next word if that field is 0.\<close>

definition displacement :: "bytes \<Rightarrow> u32 \<Rightarrow> u16 \<Rightarrow> u32" where
  "displacement m pc disp = (if disp = 0 then scast (rd16 m (pc + 2)) else scast (ucast disp :: u8))"

text \<open>The CPU is about to execute a comparison of two data registers and a branch on its result.\<close>

definition at_compare :: "('b \<Rightarrow> bytes) \<Rightarrow> u16 \<Rightarrow> u16 \<Rightarrow> u16 \<Rightarrow> u16 \<Rightarrow> u16 \<Rightarrow> 'b CPU \<Rightarrow> bool" where
  "at_compare mem szBits x y cc disp c \<longleftrightarrow> running c \<and> wf_cpu c \<and> code_ok 6 (regPC (reg c)) \<and>
     rd16 (mem (busState c)) (regPC (reg c)) = cmpReg szBits x y \<and>
     rd16 (mem (busState c)) (regPC (reg c) + 2) = bcc cc disp"

lemma cmpReg_fields:
  assumes "szBits < 3" "x < 8" "y < 8"
  shows "decode (cmpReg szBits x y) = Some (makeCMP x 0 y)" "drop_bit 6 (cmpReg szBits x y) AND 3 = szBits"
proof -
  have "szBits < 8" using assms(1) by (rule less_trans) simp
  then have f: "line (cmpReg szBits x y) = 0xB" "f9 (cmpReg szBits x y) = x" "f8 (cmpReg szBits x y) = 0"
    "f6 (cmpReg szBits x y) = szBits" "f3 (cmpReg szBits x y) = 0" "f0 (cmpReg szBits x y) = y"
    using assms by (auto simp: cmpReg_def unpack_bits dest!: less_3_cases less_8D)
  then have "(cmpReg szBits x y, makeCMP x 0 y) \<in> set (registerCMP :: 'a stores)"
    using assms by (simp add: set_registerCMP anyOp_def)
  then have "(cmpReg szBits x y, makeCMP x 0 y) \<in> set (all_stores :: 'a stores)"
    by (simp add: all_stores_def init_arith_def)
  then show "decode (cmpReg szBits x y) = Some (makeCMP x 0 y :: 'a opFunc)" by (simp add: in_all_stores)
  show "drop_bit 6 (cmpReg szBits x y) AND 3 = szBits"
    using assms by (auto simp: cmpReg_def unpack_bits dest!: less_3_cases less_8D)
qed

lemma bcc_fields:
  assumes "2 \<le> cc" "cc < 16" "disp < 256"
  shows "decode (bcc cc disp) = Some opBcc" "drop_bit 8 (bcc cc disp) AND 0xF = cc" "bcc cc disp AND 0xFF = disp"
proof -
  have "cc \<in> set (range16 2 16)" "disp \<in> set (range16 0 256)" using assms by simp_all
  then have "(bcc cc disp, opBcc) \<in> set (registerBcc :: 'a stores)"
    by (auto simp: registerBcc_def bcc_def simp del: set_range16)
  then have "(bcc cc disp, opBcc) \<in> set (all_stores :: 'a stores)"
    by (simp add: all_stores_def init_branch_def)
  then show "decode (bcc cc disp) = Some (opBcc :: 'a opFunc)" by (simp add: in_all_stores)
  show "drop_bit 8 (bcc cc disp) AND 0xF = cc" "bcc cc disp AND 0xFF = disp"
    using assms(2,3) by (auto simp: bcc_def unpack_bits dest!: less_16D less_256D)
qed

lemma opcode_byte_0: "disp < 256 \<Longrightarrow> (ucast (disp :: u16) :: u8) = 0 \<longleftrightarrow> disp = 0"
  by (auto simp: bits16 bits8 dest!: less_256D)

lemma scast_byte_0: "(scast (b :: u8) :: u32) = 0 \<longleftrightarrow> b = 0"
  by (auto simp: bits32 bits8)

lemma cmpCCR_system: "drop_bit 8 (cmpCCR sz s d sr) AND 7 = drop_bit 8 sr AND 7"
  by (simp add: cmpCCR_def Let_def withCCR_def bits16)

context ram_bus
begin

lemma step_Bcc:
  assumes "bus c = B" "running c" "code_ok 4 (regPC (reg c))" "2 \<le> cc" "cc < 16" "disp < 256"
    and "rd16 (mem (busState c)) (regPC (reg c)) = bcc cc disp"
    and D: "D = displacement (mem (busState c)) (regPC (reg c)) disp" "D AND 1 = 0"
    and t: "\<And>c' :: 'b CPU. regSR (reg c') = regSR (reg c) \<Longrightarrow> run_state (testCondition cc) c' = (t, c')"
  shows "step c = (fetched (bcc cc disp) c)
    \<lparr>reg := (reg c)\<lparr>regPC := regPC (reg c) + 2 + (if t then D else if disp = 0 then 2 else 0), regIR := bcc cc disp\<rparr>,
     cycles := cycles c + (if t then 10 else if disp = 0 then 12 else 8)\<rparr>"
proof -
  define op where op: "op = bcc cc disp"
  note fields = bcc_fields [OF assms(4-6), folded op]
  let ?c = "fetched (op) c"
  let ?c' = "?c\<lparr>reg := (reg c)\<lparr>regPC := regPC (reg c) + 2 + (if t then D else if disp = 0 then 2 else 0), regIR := op\<rparr>,
     cycles := cycles c + (if t then 10 else if disp = 0 then 12 else 8)\<rparr>"
  have pc: "regPC (reg c) + 2 \<le> 0xFFFFFF" "(regPC (reg c) + 2) AND 1 = 0" "regPC (reg c) AND 1 = 0"
    using code_okD [OF assms(3), of 2] code_okD [OF assms(3), of 0] by simp_all
  have f: "run_state fetchPC ?c = (rd16 (mem (busState c)) (regPC (reg c) + 2), ?c\<lparr>reg := (reg ?c)\<lparr>regPC := regPC (reg c) + 4\<rparr>\<rparr>)"
    using run_fetch [of ?c] assms(1,2) pc by (simp add: fetched_def running_def add.assoc)
  have h: "snd (run_state opBcc ?c) = ?c'"
    using f t fields(2,3) D(1) opcode_byte_0 [OF assms(6)]
    by (simp add: opBcc_def Let_def fetched_def displacement_def scast_byte_0 add.assoc)
  have "(regPC (reg c) + 2 + (if t then D else if disp = 0 then 2 else 0)) AND 1 = 0"
    using pc(3) D(2) by (simp add: and_one_eq flip: even_iff_mod_2_eq_zero)
  then have "?c' = checkPC (snd (run_state opBcc ?c))" unfolding h by (simp add: checkPC_def)
  moreover have "code_ok 2 (regPC (reg c))" using assms(3) by (simp add: code_ok_def)
  ultimately show ?thesis
    using run_Step_ram [OF assms(1,2) _ assms(7) [folded op] fields(1), of ?c'] unfolding op [symmetric] by (simp add: step_def)
qed

lemma step_CMP:
  assumes "bus c = B" "running c" "wf_cpu c" "code_ok 2 (regPC (reg c))" "szBits < 3" "x < 8" "y < 8"
    and "rd16 (mem (busState c)) (regPC (reg c)) = cmpReg szBits x y" "sz = sizeEncoding szBits"
    and "s = regD (reg c) ! unat y" "d = regD (reg c) ! unat x"
  shows "step c = (fetched (cmpReg szBits x y) c)
    \<lparr>reg := (reg c)\<lparr>regPC := regPC (reg c) + 2, regIR := cmpReg szBits x y, regSR := cmpCCR sz s d (regSR (reg c))\<rparr>,
     cycles := cycles c + (if sz = sizeLong then 6 else 4)\<rparr>"
proof -
  let ?op = "cmpReg szBits x y"
  let ?c' = "(fetched ?op c)\<lparr>reg := (reg c)\<lparr>regPC := regPC (reg c) + 2, regIR := ?op, regSR := cmpCCR sz s d (regSR (reg c))\<rparr>,
     cycles := cycles c + (if sz = sizeLong then 6 else 4)\<rparr>"
  note fields = cmpReg_fields [OF assms(5-7)]
  have y: "srcEA 0 y" "unat y < length (regD (reg c))"
    using assms(3,7) by (simp_all add: srcEA_def wf_cpu_def word_less_nat_alt)
  have wf: "wf_cpu (fetched ?op c)" using assms(3) by (simp add: wf_cpu_def fetched_def)
  have sz: "sz = sizeEncoding (drop_bit 6 (ir (fetched ?op c)) AND 3)" "sz \<noteq> sizeZero"
    using assms(5,9) fields(2) by (auto simp: fetched_def sizeEncoding_def dest!: less_3_cases)
  have r: "run_state (makeEARead 0 y sz) (fetched ?op c) = (s AND Mask sz, fetched ?op c)"
    using y(2) by (simp add: makeEARead_def fetched_def assms(10))
  have ccr: "aluCCR AluCmp sz (s AND Mask sz) d sr = cmpCCR sz s d sr" for sr
    using sz(2) by (simp add: aluCCR_def cmpCCR_def sval_uval del: Mask_simps)
  have reg: "setLow sz d (aluValue AluCmp sz v d) = d" for v by (simp add: aluValue_def setLow_same)
  have same: "(regD (reg c))[unat x := d] = regD (reg c)" by (simp add: assms(11))
  have time: "aluTime AluCmp sz 0 y = (if sz = sizeLong then 6 else 4)" by (simp add: aluTime_def eaFetchCycles_def)
  have "run_state (makeCMP x 0 y) (fetched ?op c) = ((), ?c')"
    using alu_register [OF wf assms(6) y(1) sz r, of AluCmp]
    by (simp add: aluHandler_def Let_def fetched_def assms(11) [symmetric] ccr reg time same del: Mask_simps split del: if_split)
  moreover have "regPC (reg c) AND 1 = 0" using code_okD(2) [OF assms(4), of 0] by simp
  ultimately have "?c' = checkPC (snd (run_state (makeCMP x 0 y) (fetched ?op c)))"
    by (simp add: checkPC_def and_one_eq flip: even_iff_mod_2_eq_zero)
  then show ?thesis
    using run_Step_ram [OF assms(1,2,4,8) fields(1), of ?c'] by (simp add: step_def)
qed

lemma compare_branch:
  assumes "bus c = B" "at_compare mem szBits x y cc disp c"
    and "szBits < 3" "x < 8" "y < 8" "2 \<le> cc" "cc < 16" "disp < 256"
    and "D = displacement (mem (busState c)) (regPC (reg c) + 2) disp" "D AND 1 = 0"
    and "sz = sizeEncoding szBits" "s = regD (reg c) ! unat y" "d = regD (reg c) ! unat x"
  shows "let c' = step (step c); t = compares sz cc s d
    in regPC (reg c') = regPC (reg c) + 4 + (if t then D else if disp = 0 then 2 else 0) \<and>
       cycles c' = cycles c + (if sz = sizeLong then 6 else 4) + (if t then 10 else if disp = 0 then 12 else 8) \<and>
       regSR (reg c') = cmpCCR sz s d (regSR (reg c)) \<and> regD (reg c') = regD (reg c) \<and>
       regA (reg c') = regA (reg c) \<and> busState c' = busState c \<and> \<not> halted c'"
proof -
  have at: "running c" "wf_cpu c" "code_ok 6 (regPC (reg c))"
    "rd16 (mem (busState c)) (regPC (reg c)) = cmpReg szBits x y"
    "rd16 (mem (busState c)) (regPC (reg c) + 2) = bcc cc disp"
    using assms(2) by (simp_all add: at_compare_def)
  have ok: "code_ok 2 (regPC (reg c))" "code_ok 4 (regPC (reg c) + 2)"
    using code_ok_shift [OF at(3), of 0 2] code_ok_shift [OF at(3), of 2 4] by simp_all
  note cmp = step_CMP [OF assms(1) at(1,2) ok(1) assms(3-5) at(4) assms(11-13)]
  have c1: "bus (step c) = B" "running (step c)" "code_ok 4 (regPC (reg (step c)))"
    "rd16 (mem (busState (step c))) (regPC (reg (step c))) = bcc cc disp"
    "D = displacement (mem (busState (step c))) (regPC (reg (step c))) disp"
    using assms(1,9) at ok by (simp_all add: cmp fetched_def running_def accepts_def cmpCCR_system)
  have t: "run_state (testCondition cc) c' = (compares sz cc s d, c')"
    if "regSR (reg c') = regSR (reg (step c))" for c' :: "'b CPU"
    using assms(3,11) that cmpCCR_condition [of sz c' s d "regSR (reg c)" cc]
    by (auto simp: cmp sizeEncoding_def dest!: less_3_cases)
  have "step (step c) = (fetched (bcc cc disp) (step c))\<lparr>reg := (reg (step c))
      \<lparr>regPC := regPC (reg (step c)) + 2 + (if compares sz cc s d then D else if disp = 0 then 2 else 0), regIR := bcc cc disp\<rparr>,
     cycles := cycles (step c) + (if compares sz cc s d then 10 else if disp = 0 then 12 else 8)\<rparr>"
    by (rule step_Bcc [OF c1(1-3) assms(6-8) c1(4,5) assms(10) t])
  then show ?thesis
    unfolding Let_def using at(1) by (simp only:) (simp add: cmp fetched_def running_def add.assoc)
qed

end

subsection \<open>Property\<close>

text \<open>
  C14. A comparison and a branch decide a relation between numbers. With \<open>CMP Dy,Dx\<close> of any size and a
  \<open>Bcc\<close> behind it in memory, two steps bring the CPU to the branch target exactly if the relation
  that the condition is named after holds between the two registers as unsigned (HI, LS, CC, CS)
  or signed (GE, LT, GT, LE) numbers of that size, and behind the branch otherwise; registers and
  memory are as they were, the flags are those of the comparison, and the time is that of the two
  instructions.
\<close>

theorem compare_and_branch:
  assumes "ram_bus B mem" "bus c = B" "at_compare mem szBits x y cc disp c"
    and "szBits < 3" "x < 8" "y < 8" "2 \<le> cc" "cc < 16" "disp < 256"
    and "D = displacement (mem (busState c)) (regPC (reg c) + 2) disp" "D AND 1 = 0"
    and "sz = sizeEncoding szBits" "s = regD (reg c) ! unat y" "d = regD (reg c) ! unat x"
  shows "let c' = step (step c); t = compares sz cc s d
    in regPC (reg c') = regPC (reg c) + 4 + (if t then D else if disp = 0 then 2 else 0) \<and>
       cycles c' = cycles c + (if sz = sizeLong then 6 else 4) + (if t then 10 else if disp = 0 then 12 else 8) \<and>
       regSR (reg c') = cmpCCR sz s d (regSR (reg c)) \<and> regD (reg c') = regD (reg c) \<and>
       regA (reg c') = regA (reg c) \<and> busState c' = busState c \<and> \<not> halted c'"
  using ram_bus.compare_branch [OF assms] .

text \<open>\<open>CMP.W D1,D0; BLT.W *-0x102\<close> with \<open>D0 = - 1\<close> and \<open>D1 = 1\<close> as words.\<close>

definition compareCPU :: "testMem CPU" where
  "compareCPU = (ramCPU ((\<lambda>_. 0)(0x1000 := 0xB0, 0x1001 := 0x41, 0x1002 := 0x6D, 0x1003 := 0, 0x1004 := 0xFE,
       0x1005 := 0xFC)) 0x1000 0x2000)
     \<lparr>reg := zeroRegisters\<lparr>regPC := 0x1000, regSR := 0x2700, regD := [0x3FFFF, 0x70001, 0, 0, 0, 0, 0, 0]\<rparr>\<rparr>"

theorem compare_and_branch_witness:
  "regPC (reg (step (step compareCPU))) = 0xF00 \<and> cycles (step (step compareCPU)) = 14"
proof -
  have "at_compare (\<lambda>m. m) 1 0 1 13 0 compareCPU" "bus compareCPU = testBus"
    by (simp_all add: compareCPU_def at_compare_def running_def accepts_def wf_cpu_def zeroRegisters_def
      code_ok_def rd16_def cmpReg_def bcc_def)
  then show ?thesis
    using compare_and_branch [OF test_ram.ram_bus_axioms, of compareCPU 1 0 1 13 0]
    by (simp add: compareCPU_def Let_def zeroRegisters_def displacement_def rd16_def sizeEncoding_def
      compares_def sval_def word_le_nat_alt)
qed

end
