(* ===== verification/Spec_Movep.thy ===== *)
theory Spec_Movep
  imports Spec_Program Spec_Rmw
begin

text \<open>
  MOVEP, the instruction for byte-wide peripherals on the 16-bit bus, as a program in memory: a
  register stored to every other byte and loaded back. The bytes in between are not touched.
\<close>

subsection \<open>The program\<close>

definition movepStore :: "bool \<Rightarrow> u16 \<Rightarrow> u16 \<Rightarrow> u16" where
  "movepStore long x y = (if long then 0x01C8 else 0x0188) OR push_bit 9 x OR y"

definition movepLoad :: "bool \<Rightarrow> u16 \<Rightarrow> u16 \<Rightarrow> u16" where
  "movepLoad long x y = (if long then 0x0148 else 0x0108) OR push_bit 9 x OR y"

text \<open>The bytes of the register, most significant first, in every other byte of memory.\<close>

definition spread :: "bool \<Rightarrow> bytes \<Rightarrow> u32 \<Rightarrow> u32 \<Rightarrow> bytes" where
  "spread long m a v = (if long
     then m(a := ucast (drop_bit 24 v), a + 2 := ucast (drop_bit 16 v), a + 4 := ucast (drop_bit 8 v), a + 6 := ucast v)
     else m(a := ucast (drop_bit 8 v), a + 2 := ucast v))"

definition movepValue :: "bool \<Rightarrow> bytes \<Rightarrow> u32 \<Rightarrow> u32 \<Rightarrow> u32" where
  "movepValue long m a old = (if long
     then push_bit 24 (ucast (m a)) OR push_bit 16 (ucast (m (a + 2))) OR push_bit 8 (ucast (m (a + 4))) OR ucast (m (a + 6))
     else (old AND 0xFFFF0000) OR push_bit 8 (ucast (m a)) OR ucast (m (a + 2)))"

text \<open>The CPU is about to store D\<open>x\<close> at \<open>disp(Ay)\<close> and to load D\<open>z\<close> from there.\<close>

definition at_movep :: "('b \<Rightarrow> bytes) \<Rightarrow> bool \<Rightarrow> u16 \<Rightarrow> u16 \<Rightarrow> u16 \<Rightarrow> u16 \<Rightarrow> 'b CPU \<Rightarrow> bool" where
  "at_movep mem long x z y disp c \<longleftrightarrow> running c \<and> wf_cpu c \<and> code_ok 8 (regPC (reg c)) \<and>
     rd16 (mem (busState c)) (regPC (reg c)) = movepStore long x y \<and>
     rd16 (mem (busState c)) (regPC (reg c) + 2) = disp \<and>
     rd16 (mem (busState c)) (regPC (reg c) + 4) = movepLoad long z y \<and>
     rd16 (mem (busState c)) (regPC (reg c) + 6) = disp"

lemma spread_apart:
  assumes "apart p 8 a 7"
  shows "rd16 (spread long m a v) (p + 4) = rd16 m (p + 4)" "rd16 (spread long m a v) (p + 6) = rd16 m (p + 6)"
proof -
  have "p + of_nat i \<noteq> a + of_nat j" if "i < 8" "j < 7" for i j using assms that by (simp add: apart_def)
  note * = this [of _ 0, simplified] this [of _ 2, simplified] this [of _ 4, simplified] this [of _ 6, simplified]
  have "spread long m a v (p + of_nat i) = m (p + of_nat i)" if "i < 8" for i
    using *(1-4) [OF that] by (simp add: spread_def)
  from this [of 4] this [of 5] this [of 6] this [of 7]
  show "rd16 (spread long m a v) (p + 4) = rd16 m (p + 4)" "rd16 (spread long m a v) (p + 6) = rd16 m (p + 6)"
    by (simp_all add: rd16_def add.assoc)
qed

lemma movepValue_spread:
  "movepValue long (spread long m a v) a old = (if long then v else (old AND 0xFFFF0000) OR (v AND 0xFFFF))"
proof -
  have "push_bit 24 (ucast (ucast (drop_bit 24 v) :: u8)) OR push_bit 16 (ucast (ucast (drop_bit 16 v) :: u8)) OR
      push_bit 8 (ucast (ucast (drop_bit 8 v) :: u8)) OR ucast (ucast v :: u8) = v"
    "push_bit 8 (ucast (ucast (drop_bit 8 v) :: u8)) OR ucast (ucast v :: u8) = v AND 0xFFFF"
    by (simp_all add: bits32)
  then show ?thesis by (simp add: movepValue_def spread_def or.assoc)
qed

lemma movep_fields:
  assumes "x < 8" "y < 8"
  shows "decode (movepStore long x y) = Some (opMOVEP :: 'a opFunc)"
    "decode (movepLoad long x y) = Some (opMOVEP :: 'a opFunc)"
    "drop_bit 9 (movepStore long x y) AND 7 = x" "movepStore long x y AND 7 = y"
    "drop_bit 6 (movepStore long x y) AND 7 = (if long then 7 else 6)"
    "drop_bit 9 (movepLoad long x y) AND 7 = x" "movepLoad long x y AND 7 = y"
    "drop_bit 6 (movepLoad long x y) AND 7 = (if long then 5 else 4)"
proof -
  have "x \<in> set (range16 0 8)" "y \<in> set (range16 0 8)" using assms by simp_all
  then have "(movepStore long x y, opMOVEP) \<in> set (registerMOVEP :: 'a stores)"
      "(movepLoad long x y, opMOVEP) \<in> set (registerMOVEP :: 'a stores)"
    by (auto simp: registerMOVEP_def movepStore_def movepLoad_def simp del: set_range16)
  then have "(movepStore long x y, opMOVEP) \<in> set (all_stores :: 'a stores)"
      "(movepLoad long x y, opMOVEP) \<in> set (all_stores :: 'a stores)"
    by (simp_all add: all_stores_def init_move_def)
  then show "decode (movepStore long x y) = Some (opMOVEP :: 'a opFunc)"
    "decode (movepLoad long x y) = Some (opMOVEP :: 'a opFunc)"
    by (simp_all add: in_all_stores)
  show "drop_bit 9 (movepStore long x y) AND 7 = x" "movepStore long x y AND 7 = y"
    "drop_bit 6 (movepStore long x y) AND 7 = (if long then 7 else 6)"
    "drop_bit 9 (movepLoad long x y) AND 7 = x" "movepLoad long x y AND 7 = y"
    "drop_bit 6 (movepLoad long x y) AND 7 = (if long then 5 else 4)"
    using assms by (auto simp: movepStore_def movepLoad_def unpack_bits dest!: less_8D)
qed

lemma peripheral_addresses:
  assumes "unat (a :: u32) + 7 \<le> 0x1000000"
  shows "a AND 0xFFFFFF = a" "(a + 2) AND 0xFFFFFF = a + 2" "(a + 4) AND 0xFFFFFF = a + 4" "(a + 6) AND 0xFFFFFF = a + 6"
    "a \<le> 0xFFFFFF" "a + 2 \<le> 0xFFFFFF" "a + 4 \<le> 0xFFFFFF" "a + 6 \<le> 0xFFFFFF"
proof -
  have u: "unat (a + 2) = unat a + 2" "unat (a + 4) = unat a + 4" "unat (a + 6) = unat a + 6"
    using unat_add_small [of a 2] unat_add_small [of a 4] unat_add_small [of a 6] assms by simp_all
  show "a \<le> 0xFFFFFF" "a + 2 \<le> 0xFFFFFF" "a + 4 \<le> 0xFFFFFF" "a + 6 \<le> 0xFFFFFF"
    using assms by (simp_all add: word_le_nat_alt u)
  then show "a AND 0xFFFFFF = a" "(a + 2) AND 0xFFFFFF = a + 2" "(a + 4) AND 0xFFFFFF = a + 4"
    "(a + 6) AND 0xFFFFFF = a + 6" by (simp_all add: bus_address)
qed

context ram_bus
begin

lemma step_movepStore:
  assumes "bus c = B" "running c" "wf_cpu c" "code_ok 4 (regPC (reg c))" "x < 8" "y < 8"
    and "rd16 (mem (busState c)) (regPC (reg c)) = movepStore long x y"
    and "rd16 (mem (busState c)) (regPC (reg c) + 2) = disp"
    and a: "a = regA (reg c) ! unat y + scast disp" "unat a + 7 \<le> 0x1000000"
  shows "\<exists>s'. mem s' = spread long (mem (busState c)) a (regD (reg c) ! unat x) \<and>
    step c = (fetched (movepStore long x y) c)\<lparr>reg := (reg c)\<lparr>regPC := regPC (reg c) + 4, regIR := movepStore long x y\<rparr>,
      busState := s', cycles := cycles c + (if long then 24 else 16)\<rparr>"
proof -
  define op where op: "op = movepStore long x y"
  let ?c = "fetched op c" and ?v = "regD (reg c) ! unat x"
  note fields = movep_fields(1,3-5) [OF assms(5,6), of long, folded op]
  have ok: "operand_ok sizeByte b" for b by (simp add: operand_ok_def)
  have l: "unat x < length (regD (reg c))" "unat y < length (regA (reg c))"
    using assms(3,5,6) by (simp_all add: wf_cpu_def word_less_nat_alt)
  have pc: "regPC (reg c) + 2 \<le> 0xFFFFFF" "(regPC (reg c) + 2) AND 1 = 0" "(regPC (reg c) + 4) AND 1 = 0"
    using code_okD [OF assms(4), of 2] by (simp_all add: and_one_eq flip: even_iff_mod_2_eq_zero)
  have f: "run_state fetchPC ?c = (disp, ?c\<lparr>reg := (reg ?c)\<lparr>regPC := regPC (reg c) + 4\<rparr>\<rparr>)"
    using run_fetch [of ?c] assms(1,2,8) pc by (simp add: fetched_def running_def add.assoc)
  define s' where "s' = (let w = (\<lambda>s b u. Write8 B s b (ucast (u AND 0xFF))); s = busState c in if long
    then w (w (w (w s a (drop_bit 24 ?v)) (a + 2) (drop_bit 16 ?v)) (a + 4) (drop_bit 8 ?v)) (a + 6) ?v
    else w (w s a (drop_bit 8 ?v)) (a + 2) ?v)"
  have h: "snd (run_state opMOVEP ?c) = ?c\<lparr>reg := (reg c)\<lparr>regPC := regPC (reg c) + 4, regIR := op\<rparr>,
      busState := s', cycles := cycles c + (if long then 24 else 16)\<rparr>"
    using f fields(2-4) l assms(1,2) unfolding s'_def
    by (simp add: opMOVEP_def Let_def fetched_def running_def a(1) [symmetric] run_ram_write [OF _ _ ok]
      peripheral_addresses [OF a(2)] del: unat_and_7)
  have "ucast (u AND 0xFF) = (ucast u :: u8)" for u :: u32 by (simp add: bits8)
  then have "mem s' = spread long (mem (busState c)) a ?v"
    by (simp add: s'_def Let_def spread_def ram_write8 peripheral_addresses [OF a(2)])
  moreover have "step c = ?c\<lparr>reg := (reg c)\<lparr>regPC := regPC (reg c) + 4, regIR := op\<rparr>,
      busState := s', cycles := cycles c + (if long then 24 else 16)\<rparr>"
    using run_Step_ram [OF assms(1,2) code_ok_shift [OF assms(4), of 0 2, simplified] assms(7) [folded op] fields(1) refl] pc(3)
    unfolding h step_def by (simp add: checkPC_def)
  ultimately show ?thesis unfolding op [symmetric] by blast
qed

lemma step_movepLoad:
  assumes "bus c = B" "running c" "wf_cpu c" "code_ok 4 (regPC (reg c))" "x < 8" "y < 8"
    and "rd16 (mem (busState c)) (regPC (reg c)) = movepLoad long x y"
    and "rd16 (mem (busState c)) (regPC (reg c) + 2) = disp"
    and a: "a = regA (reg c) ! unat y + scast disp" "unat a + 7 \<le> 0x1000000"
  shows "step c = (fetched (movepLoad long x y) c)\<lparr>reg := (reg c)\<lparr>regPC := regPC (reg c) + 4, regIR := movepLoad long x y,
      regD := (regD (reg c))[unat x := movepValue long (mem (busState c)) a (regD (reg c) ! unat x)]\<rparr>,
      cycles := cycles c + (if long then 24 else 16)\<rparr>"
proof -
  define op where op: "op = movepLoad long x y"
  let ?c = "fetched op c"
  note fields = movep_fields(2,6-8) [OF assms(5,6), of long, folded op]
  have ok: "operand_ok sizeByte b" for b by (simp add: operand_ok_def)
  have l: "unat x < length (regD (reg c))" "unat y < length (regA (reg c))"
    using assms(3,5,6) by (simp_all add: wf_cpu_def word_less_nat_alt)
  have pc: "regPC (reg c) + 2 \<le> 0xFFFFFF" "(regPC (reg c) + 2) AND 1 = 0" "(regPC (reg c) + 4) AND 1 = 0"
    using code_okD [OF assms(4), of 2] by (simp_all add: and_one_eq flip: even_iff_mod_2_eq_zero)
  have f: "run_state fetchPC ?c = (disp, ?c\<lparr>reg := (reg ?c)\<lparr>regPC := regPC (reg c) + 4\<rparr>\<rparr>)"
    using run_fetch [of ?c] assms(1,2,8) pc by (simp add: fetched_def running_def add.assoc)
  have w: "(push_bit 8 (ucast (b :: u8)) OR ucast (b' :: u8)) AND 0xFFFF = (push_bit 8 (ucast b) OR ucast b' :: u32)" for b b'
    by (simp add: bits32 impossible_bit)
  have h: "snd (run_state opMOVEP ?c) = ?c\<lparr>reg := (reg c)\<lparr>regPC := regPC (reg c) + 4, regIR := op,
      regD := (regD (reg c))[unat x := movepValue long (mem (busState c)) a (regD (reg c) ! unat x)]\<rparr>,
      cycles := cycles c + (if long then 24 else 16)\<rparr>"
    using f fields(2-4) l assms(1,2)
    by (simp add: opMOVEP_def Let_def fetched_def running_def a(1) [symmetric] run_ram_read [OF _ _ ok]
      peripheral_addresses [OF a(2)] movepValue_def w or.assoc del: unat_and_7)
  show ?thesis
    using run_Step_ram [OF assms(1,2) code_ok_shift [OF assms(4), of 0 2, simplified] assms(7) [folded op] fields(1) refl] pc(3)
    unfolding h step_def op [symmetric] by (simp add: checkPC_def)
qed

lemma movep_program:
  assumes "bus c = B" "at_movep mem long x z y disp c" "x < 8" "y < 8" "z < 8"
    and a: "a = regA (reg c) ! unat y + scast disp" "unat a + 7 \<le> 0x1000000" "outside 7 a 8 (regPC (reg c))"
    and v: "v = regD (reg c) ! unat x" "old = regD (reg c) ! unat z"
  shows "let c' = step (step c)
    in mem (busState c') = spread long (mem (busState c)) a v \<and>
       regD (reg c') = (regD (reg c))[unat z := if long then v else (old AND 0xFFFF0000) OR (v AND 0xFFFF)] \<and>
       regA (reg c') = regA (reg c) \<and> regSR (reg c') = regSR (reg c) \<and> regPC (reg c') = regPC (reg c) + 8 \<and>
       cycles c' = cycles c + (if long then 48 else 32) \<and> \<not> halted c'"
proof -
  have at: "running c" "wf_cpu c" "code_ok 8 (regPC (reg c))"
    "rd16 (mem (busState c)) (regPC (reg c)) = movepStore long x y"
    "rd16 (mem (busState c)) (regPC (reg c) + 2) = disp"
    "rd16 (mem (busState c)) (regPC (reg c) + 4) = movepLoad long z y"
    "rd16 (mem (busState c)) (regPC (reg c) + 6) = disp"
    using assms(2) by (simp_all add: at_movep_def)
  have ok: "code_ok 4 (regPC (reg c))" "code_ok 4 (regPC (reg c) + 4)"
    using code_ok_shift [OF at(3), of 0 4] code_ok_shift [OF at(3), of 4 4] by simp_all
  have ap: "apart (regPC (reg c)) 8 a 7"
    using a(2,3) at(3) by (intro outside_apart) (simp_all add: code_ok_def)
  obtain s' where s: "mem s' = spread long (mem (busState c)) a v"
    and st: "step c = (fetched (movepStore long x y) c)\<lparr>reg := (reg c)\<lparr>regPC := regPC (reg c) + 4, regIR := movepStore long x y\<rparr>,
      busState := s', cycles := cycles c + (if long then 24 else 16)\<rparr>"
    using step_movepStore [OF assms(1) at(1,2) ok(1) assms(3,4) at(4,5) a(1,2)] v(1) by auto
  have c1: "bus (step c) = B" "running (step c)" "wf_cpu (step c)" "code_ok 4 (regPC (reg (step c)))"
    "rd16 (mem (busState (step c))) (regPC (reg (step c))) = movepLoad long z y"
    "rd16 (mem (busState (step c))) (regPC (reg (step c)) + 2) = disp" "a = regA (reg (step c)) ! unat y + scast disp"
    using assms(1) at ok a(1) spread_apart [OF ap]
    by (simp_all add: st s fetched_def running_def accepts_def wf_cpu_def add.assoc)
  note ld = step_movepLoad [OF c1(1-4) assms(5,4) c1(5-7) a(2)]
  have "mem (busState (step c)) = spread long (mem (busState c)) a v" by (simp add: st s fetched_def)
  note val = movepValue_spread [of long "mem (busState c)" a v, folded this]
  show ?thesis
    unfolding ld Let_def val using at(1) v(2) by (simp add: st fetched_def running_def s add.assoc)
qed

end

subsection \<open>Property\<close>

text \<open>
  C18. MOVEP round trip. A program that stores a data register with MOVEP and loads another one from
  the same place with MOVEP copies the register, as a long word or in its low word; the bytes are in
  memory most significant first at every other address, and no byte in between or elsewhere has
  changed; the condition codes and the address registers are as they were.
\<close>

theorem movep_round_trip:
  assumes "ram_bus B mem" "bus c = B" "at_movep mem long x z y disp c" "x < 8" "y < 8" "z < 8"
    and "a = regA (reg c) ! unat y + scast disp" "unat a + 7 \<le> 0x1000000" "outside 7 a 8 (regPC (reg c))"
    and "v = regD (reg c) ! unat x" "old = regD (reg c) ! unat z"
  shows "let c' = step (step c)
    in mem (busState c') = spread long (mem (busState c)) a v \<and>
       regD (reg c') = (regD (reg c))[unat z := if long then v else (old AND 0xFFFF0000) OR (v AND 0xFFFF)] \<and>
       regA (reg c') = regA (reg c) \<and> regSR (reg c') = regSR (reg c) \<and> regPC (reg c') = regPC (reg c) + 8 \<and>
       cycles c' = cycles c + (if long then 48 else 32) \<and> \<not> halted c'"
  using ram_bus.movep_program [OF assms] .

text \<open>\<open>MOVEP.L D1,3(A0); MOVEP.L 3(A0),D2\<close>.\<close>

definition movepCPU :: "testMem CPU" where
  "movepCPU = (ramCPU ((\<lambda>_. 0)(0x1000 := 3, 0x1001 := 0xC8, 0x1003 := 3, 0x1004 := 5, 0x1005 := 0x48, 0x1007 := 3,
       0x2004 := 0x77)) 0x1000 0x2000)
     \<lparr>reg := zeroRegisters\<lparr>regPC := 0x1000, regSR := 0x2700, regD := [0, 0x12345678, 0, 0, 0, 0, 0, 0],
       regA := [0x2000, 0, 0, 0, 0, 0, 0, 0x3000]\<rparr>\<rparr>"

lemma movepCPU_simps:
  "regPC (reg movepCPU) = 0x1000" "regD (reg movepCPU) = [0, 0x12345678, 0, 0, 0, 0, 0, 0]" "bus movepCPU = testBus"
  "regA (reg movepCPU) = [0x2000, 0, 0, 0, 0, 0, 0, 0x3000]" "cycles movepCPU = 0" "busState movepCPU 0x2004 = 0x77"
  by (simp_all add: movepCPU_def zeroRegisters_def)

lemma movepCPU_at: "at_movep (\<lambda>m. m) True 1 2 0 3 movepCPU"
  by (simp add: movepCPU_def at_movep_def running_def accepts_def wf_cpu_def zeroRegisters_def
      code_ok_def rd16_def movepStore_def movepLoad_def)

theorem movep_round_trip_witness:
  "let c' = step (step movepCPU)
   in regD (reg c') ! 2 = 0x12345678 \<and> busState c' 0x2003 = 0x12 \<and> busState c' 0x2004 = 0x77 \<and>
      busState c' 0x2005 = 0x34 \<and> cycles c' = 48"
  using movep_round_trip [OF test_ram.ram_bus_axioms _ movepCPU_at, of "0x2003" "0x12345678" 0]
  by (simp add: movepCPU_simps Let_def outside_def spread_def)

end
