(* ===== verification/Spec_Unary.thy ===== *)
theory Spec_Unary
  imports Spec_Rmw
begin

text \<open>
  NEG, NEGX, NOT and CLR, on a data register and in memory, against one specification: the operand
  is replaced by its negation, its negation with the extend bit, its complement or zero, as numbers
  of the operand's width, with the condition codes and the time of the instruction.
\<close>

subsection \<open>Specification\<close>

datatype unOp = UNeg | UNegx | UNot | UClr

definition unHandler :: "unOp \<Rightarrow> u16 \<Rightarrow> u16 \<Rightarrow> 'b opFunc" where
  "unHandler k = (case k of UNeg \<Rightarrow> makeNEG | UNegx \<Rightarrow> makeNEGX | UNot \<Rightarrow> makeNOT | UClr \<Rightarrow> makeCLR)"

text \<open>The result, as a number of the operand's width; \<open>x\<close> is the extend bit.\<close>

definition unValue :: "unOp \<Rightarrow> msize \<Rightarrow> int \<Rightarrow> u32 \<Rightarrow> int" where
  "unValue k sz x d = (case k of
       UNeg \<Rightarrow> - uval sz d mod 2 ^ width sz
     | UNegx \<Rightarrow> (- uval sz d - x) mod 2 ^ width sz
     | UNot \<Rightarrow> 2 ^ width sz - 1 - uval sz d
     | UClr \<Rightarrow> 0)"

text \<open>
  The flags of a negation: a borrow unless the result is 0, and for NEGX a zero flag that stays
  clear once it is.
\<close>

definition negCCR :: "msize \<Rightarrow> bool \<Rightarrow> u32 \<Rightarrow> int \<Rightarrow> u16 \<Rightarrow> u16" where
  "negCCR sz keep d k sr =
    (let u = - uval sz d - k
     in withCCR (u < 0) (signed_take_bit (width sz - 1) u < 0)
          (take_bit (width sz) u = 0 \<and> (keep \<longrightarrow> sr AND flagZ \<noteq> 0))
          (\<not> fits sz (- sval sz d - k)) (u < 0) sr)"

definition unCCR :: "unOp \<Rightarrow> msize \<Rightarrow> int \<Rightarrow> u32 \<Rightarrow> u16 \<Rightarrow> u16" where
  "unCCR k sz x d sr = (case k of
       UNeg \<Rightarrow> negCCR sz False d 0 sr
     | UNegx \<Rightarrow> negCCR sz True d x sr
     | _ \<Rightarrow> logicCCR sz (word_of_int (unValue k sz x d)) sr)"

subsection \<open>The pieces of the handlers\<close>

lemma uval_0 [simp]: "uval sz 0 = 0" "sval sz 0 = 0"
  by (simp_all add: uval_def sval_def)

lemma negCCR_Mask: "sz \<noteq> sizeZero \<Longrightarrow> negCCR sz keep (d AND Mask sz) k sr = negCCR sz keep d k sr"
  by (simp add: negCCR_def sval_uval del: Mask_simps)

lemma uval_bit: "sz \<noteq> sizeZero \<Longrightarrow> x = 0 \<or> x = 1 \<Longrightarrow> uval sz (word_of_int x) = x"
  by (cases sz) (auto simp: uval_def)

lemma uval_negx:
  assumes "sz \<noteq> sizeZero" "x = 0 \<or> x = 1"
  shows "uval sz (- d - word_of_int x) = take_bit (width sz) (- uval sz d - x)"
  unfolding uval_diff [of sz "- d"] uval_bit [OF assms] using uval_diff [of sz 0 d]
  by (simp add: take_bit_diff [symmetric] take_bit_eq_mod mod_diff_left_eq)

lemma unValue_code:
  assumes "sz \<noteq> sizeZero"
  shows "uval sz (- d) = unValue UNeg sz x d"
    "x = 0 \<or> x = 1 \<Longrightarrow> uval sz (- d - word_of_int x) = unValue UNegx sz x d"
    "uval sz (NOT d) = unValue UNot sz x d" "uval sz 0 = unValue UClr sz x d"
proof -
  show "uval sz (- d) = unValue UNeg sz x d"
    using uval_negx [OF assms, of 0 d] by (simp add: unValue_def take_bit_eq_mod)
  show "x = 0 \<or> x = 1 \<Longrightarrow> uval sz (- d - word_of_int x) = unValue UNegx sz x d"
    by (simp add: uval_negx [OF assms] unValue_def take_bit_eq_mod)
  have "uval sz (NOT d) = (- uval sz d - 1) mod 2 ^ width sz"
    using uval_negx [OF assms, of 1 d] by (simp add: not_eq_complement take_bit_eq_mod)
  also have "\<dots> = (2 ^ width sz - 1 - uval sz d) mod 2 ^ width sz"
    using mod_add_self2 [of "- uval sz d - 1" "2 ^ width sz"] by (simp add: algebra_simps)
  finally show "uval sz (NOT d) = unValue UNot sz x d"
    using uval_bounds [of sz d] by (simp add: unValue_def)
  show "uval sz 0 = unValue UClr sz x d" by (simp add: unValue_def)
qed

text \<open>The status register after \<open>keepZ\<close>: the zero flag of \<open>old\<close> unless the result is not 0.\<close>

definition stickyZ :: "msize \<Rightarrow> u32 \<Rightarrow> u16 \<Rightarrow> u16 \<Rightarrow> u16" where
  "stickyZ sz r old sr = (if uval sz r = 0 then (sr AND NOT flagZ) OR (old AND flagZ) else sr)"

lemma run_keepZ_sz:
  "run_state (keepZ (old AND flagZ) r sz) c = ((), c\<lparr>reg := (reg c)\<lparr>regSR := stickyZ sz r old (regSR (reg c))\<rparr>\<rparr>)"
  unfolding keepZ_def and_Mask_0 stickyZ_def by simp

lemma stickyZ_withCCR:
  "stickyZ sz r sr (withCCR x n z v cc sr) = withCCR x n (if uval sz r = 0 then sr AND flagZ \<noteq> 0 else z) v cc sr"
  by (auto simp: stickyZ_def withCCR_def bits16)

lemma run_neg_flags:
  assumes "sz \<noteq> sizeZero"
  shows "run_state (setFlagsSub d 0 (- d) sz) c = ((), c\<lparr>reg := (reg c)\<lparr>regSR := negCCR sz False d 0 (regSR (reg c))\<rparr>\<rparr>)"
  using setFlagsSub_run [OF assms, of 0 d 0 c] by (simp add: subCCR_def negCCR_def Let_def)

lemma run_negx_flags:
  assumes "sz \<noteq> sizeZero" "x = 0 \<or> x = 1"
  shows "run_state (setFlagsSub d 0 (- d - word_of_int x) sz) c =
      ((), c\<lparr>reg := (reg c)\<lparr>regSR := subCCR sz d 0 x (regSR (reg c))\<rparr>\<rparr>)"
    "stickyZ sz (- d - word_of_int x) sr (subCCR sz d 0 x sr) = unCCR UNegx sz x d sr"
proof -
  have x: "word_of_int x \<le> (1 :: u32)" "uint (word_of_int x :: u32) = x" using assms(2) by auto
  show "run_state (setFlagsSub d 0 (- d - word_of_int x) sz) c =
      ((), c\<lparr>reg := (reg c)\<lparr>regSR := subCCR sz d 0 x (regSR (reg c))\<rparr>\<rparr>)"
    using setFlagsSub_run [OF assms(1) x(1), of d 0 c] by (simp add: x(2))
  show "stickyZ sz (- d - word_of_int x) sr (subCCR sz d 0 x sr) = unCCR UNegx sz x d sr"
    by (simp add: unCCR_def subCCR_def negCCR_def Let_def stickyZ_withCCR uval_negx [OF assms])
qed

lemma clr_flags: "(sr AND NOT (flagN OR flagV OR flagC)) OR flagZ = logicCCR sz 0 sr"
  by (simp add: logicCCR_def withCCR_def) (simp add: bits16)

lemma clr_register: "d AND NOT (Mask sz) = setLow sz d 0"
  using setLow_code [of d sz 0] by simp

lemma un_Mask:
  assumes "sz \<noteq> sizeZero"
  shows "unValue k sz x (d AND Mask sz) = unValue k sz x d" "unCCR k sz x (d AND Mask sz) sr = unCCR k sz x d sr"
  by (cases k; simp add: unValue_def unCCR_def negCCR_Mask [OF assms] del: Mask_simps)+

lemma un_flags:
  assumes "sz \<noteq> sizeZero"
  shows "run_state (setFlagsSub d 0 (- d) sz) c = ((), c\<lparr>reg := (reg c)\<lparr>regSR := unCCR UNeg sz x d (regSR (reg c))\<rparr>\<rparr>)"
    "logicCCR sz (NOT d AND Mask sz) sr = unCCR UNot sz x d sr" "logicCCR sz 0 sr = unCCR UClr sz x d sr"
proof -
  show "run_state (setFlagsSub d 0 (- d) sz) c = ((), c\<lparr>reg := (reg c)\<lparr>regSR := unCCR UNeg sz x d (regSR (reg c))\<rparr>\<rparr>)"
    by (simp add: unCCR_def run_neg_flags [OF assms])
  show "logicCCR sz (NOT d AND Mask sz) sr = unCCR UNot sz x d sr" "logicCCR sz 0 sr = unCCR UClr sz x d sr"
    unfolding unCCR_def unOp.case unValue_code(3,4) [OF assms, where x = x, symmetric] logicCCR_uval [OF assms]
    by (simp_all add: logicCCR_def sval_uval [OF assms] del: Mask_simps)
qed

lemmas un_handlers = unHandler_def unOp.case makeNEG_def makeNEGX_def makeNOT_def makeCLR_def Let_def split_def addCycles_if

lemma un_register:
  assumes "wf_cpu c" "rg < 8" "sz = sizeEncoding (drop_bit 6 (ir c) AND 3)" "sz \<noteq> sizeZero"
    and d: "d = regD (reg c) ! unat rg" and x: "x = extendIn c"
  shows "run_state (unHandler k 0 rg) c =
    ((), c\<lparr>reg := (reg c)\<lparr>regSR := unCCR k sz x d (regSR (reg c)),
         regD := (regD (reg c))[unat rg := setLow sz d (unValue k sz x d)]\<rparr>,
       cycles := cycles c + (if sz = sizeLong then 6 else 4)\<rparr>)"
proof -
  have l: "unat rg < length (regD (reg c))" using assms(1,2) by (simp add: wf_cpu_def word_less_nat_alt)
  have x': "x = 0 \<or> x = 1" using extendIn_cases x by simp
  note run = assms(3) [symmetric] l setFlagsLogical_run [OF assms(4)] un_flags [OF assms(4), where x = x]
    run_storeD d [symmetric] unValue_code [OF assms(4), where x = x] un_Mask [OF assms(4)] extendFlag_run
    x [symmetric] x' run_keepZ_sz run_negx_flags [OF assms(4) x'] clr_flags [simplified, where sz = sz]
    clr_register unValue_def [of UClr]
  show ?thesis
    unfolding un_handlers by (cases k) (simp_all add: run del: Mask_simps split del: if_split)
qed

lemma un_memory:
  assumes "ram_bus B mem" "bus c = B" "memEA mode rg"
    and "sz = sizeEncoding (drop_bit 6 (ir c) AND 3)" "sz \<noteq> sizeZero"
    and "run_state (makeEAMemAddr mode rg sz) c = (a, c1)" "\<not> halted c1" "operand_ok sz a"
    and d: "d = peek sz (mem (busState c1)) (a AND 0xFFFFFF)" and x: "x = extendIn c1"
    and c': "c' = c1\<lparr>reg := (reg c1)\<lparr>regSR := unCCR k sz x d (regSR (reg c1))\<rparr>,
      busState := busStore B sz (busState c1) (a AND 0xFFFFFF) (word_of_int (unValue k sz x d)),
      cycles := cycles c1 + rmwTime 8 12 sz mode rg\<rparr>"
  shows "run_state (unHandler k mode rg) c = ((), c') \<and>
    mem (busState c') = poke sz (mem (busState c1)) (a AND 0xFFFFFF) (word_of_int (unValue k sz x d))"
proof -
  have b: "bus c1 = B" using bus_kept [OF any_bus.io_makeEAMemAddr [OF assms(3)] assms(6)] assms(2) by simp
  have m: "mode \<noteq> 0" "mode < 8" "rg < 8" using assms(3) by (auto simp: memEA_def)
  have x': "x = 0 \<or> x = 1" using extendIn_cases x by simp
  have masked: "d AND Mask sz = d" by (simp add: d peek_Mask)
  note run = assms(4) [symmetric] assms(6-8) b ram_bus.run_ram_read [OF assms(1)] ram_bus.run_ram_write [OF assms(1)]
    d [symmetric] setFlagsLogical_run [OF assms(5)] un_flags [OF assms(5), where x = x]
    unValue_code [OF assms(5), where x = x, symmetric] extendFlag_run x [symmetric] x' run_keepZ_sz
    run_negx_flags [OF assms(5) x'] clr_flags [simplified, where sz = sz] busStore_code busStore_Mask rmwTime_code [OF m(2,3)] m(1)
  have "run_state (unHandler k mode rg) c = ((), c')"
    unfolding un_handlers c' by (cases k) (simp_all add: run del: Mask_simps split del: if_split)
  then show ?thesis using ram_bus.mem_busStore [OF assms(1,8)] by (simp add: c')
qed

subsection \<open>Property\<close>

text \<open>
  C25. NEG, NEGX, NOT and CLR do what the specification says. On a data register the low part is
  replaced by the negation, the negation minus the extend bit, the complement or zero, as a number
  of the operand's width, and the rest is kept; in memory, on a bus that behaves like memory, the
  addressed bytes are replaced and no other. The condition codes are those of the integer
  operation, where NEGX only ever clears the zero flag; the time is the tabulated one, and nothing
  else changes.
\<close>

theorem unary_operations:
  assumes "ram_bus B mem" "bus c = B" "wf_cpu c" "altEA mode rg"
    and "sz = sizeEncoding (drop_bit 6 (ir c) AND 3)" "sz \<noteq> sizeZero"
  shows "if mode = 0
    then \<exists>d x. d = regD (reg c) ! unat rg \<and> x = extendIn c \<and> run_state (unHandler k mode rg) c =
      ((), c\<lparr>reg := (reg c)\<lparr>regSR := unCCR k sz x d (regSR (reg c)),
           regD := (regD (reg c))[unat rg := setLow sz d (unValue k sz x d)]\<rparr>,
         cycles := cycles c + (if sz = sizeLong then 6 else 4)\<rparr>)
    else \<forall>a c1. run_state (makeEAMemAddr mode rg sz) c = (a, c1) \<and> \<not> halted c1 \<and> operand_ok sz a \<longrightarrow>
      (\<exists>d x s'. d = peek sz (mem (busState c1)) (a AND 0xFFFFFF) \<and> x = extendIn c1 \<and>
        mem s' = poke sz (mem (busState c1)) (a AND 0xFFFFFF) (word_of_int (unValue k sz x d)) \<and>
        run_state (unHandler k mode rg) c = ((), c1\<lparr>reg := (reg c1)\<lparr>regSR := unCCR k sz x d (regSR (reg c1))\<rparr>,
          busState := s', cycles := cycles c1 + rmwTime 8 12 sz mode rg\<rparr>))"
proof (cases "mode = 0")
  case True
  then show ?thesis using un_register [OF assms(3) _ assms(5,6) refl refl, of rg] assms(4) by (simp add: altEA_def)
next
  case False
  then have "memEA mode rg" using assms(4) by (simp add: altEA_def)
  then show ?thesis
    using un_memory [OF assms(1,2) _ assms(5,6) _ _ _ refl refl refl, where k = k and mode = mode and rg = rg] False
    by auto
qed

theorem unary_operations_witness:
  "rd16 (busState (snd (run_state (unHandler UNeg 2 0) (rmwCPU\<lparr>ir := 0x4450\<rparr>)))) 0x1000 = 0x8001"
proof -
  have d: "peek sizeWord ((\<lambda>_. 0)(0x1000 := 0x7F, 0x1001 := 0xFF)) 0x1000 = 0x7FFF"
    by (simp add: rd16_def)
  show ?thesis
    using unary_operations [OF test_ram.ram_bus_axioms, where c = "rmwCPU\<lparr>ir := 0x4450\<rparr>" and mode = 2 and rg = 0 and
      sz = sizeWord and k = UNeg]
    by (simp add: d wf_cpu_def altEA_def memEA_def sizeEncoding_def makeEAMemAddr_def operand_ok_def
        unValue_def uval_def rd16_wr16 del: peek.simps)
qed

end
