(* ===== verification/Spec_Address.thy ===== *)
theory Spec_Address
  imports Spec_MulDiv Spec_Rmw
begin

text \<open>
  MOVEA, ADDA, SUBA and CMPA: arithmetic on addresses. A word operand is sign extended and the whole
  register takes part, whatever the size of the instruction; the flags change only for CMPA.
\<close>

subsection \<open>Specification\<close>

datatype addrOp = AMove | AAdd | ASub | ACmp

definition addrHandler :: "addrOp \<Rightarrow> u16 \<Rightarrow> u16 \<Rightarrow> u16 \<Rightarrow> 'b opFunc" where
  "addrHandler k = (case k of AMove \<Rightarrow> makeMOVEA | AAdd \<Rightarrow> makeADDA | ASub \<Rightarrow> makeSUBA | ACmp \<Rightarrow> makeCMPA)"

text \<open>The size is encoded as for MOVE or in one bit of the opmode field.\<close>

definition addrSize :: "addrOp \<Rightarrow> u16 \<Rightarrow> msize" where
  "addrSize k op = (if k = AMove then moveSizeMap ! unat (drop_bit 12 op AND 3)
     else if drop_bit 6 op AND 7 = 7 then sizeLong else sizeWord)"

text \<open>The new value of the register, from its value and that of the operand as signed numbers.\<close>

definition addrValue :: "addrOp \<Rightarrow> int \<Rightarrow> int \<Rightarrow> u32" where
  "addrValue k v a = word_of_int (case k of AMove \<Rightarrow> v | AAdd \<Rightarrow> a + v | ASub \<Rightarrow> a - v | ACmp \<Rightarrow> a)"

definition addrTime :: "addrOp \<Rightarrow> msize \<Rightarrow> u16 \<Rightarrow> u16 \<Rightarrow> u64" where
  "addrTime k sz mode rg =
    (if k = AMove then 4
     else if k = ACmp \<or> (sz = sizeLong \<and> mode \<ge> 2 \<and> \<not> (mode = 7 \<and> rg = 4)) then 6
     else 8) + eaFetchCycles (ucast mode) (ucast rg) sz"

subsection \<open>Refinement\<close>

lemma addr_operand:
  assumes "sz = sizeWord \<or> sz = sizeLong"
  shows "(if sz = sizeWord then scast (ucast s :: u16) else s) = word_of_int (sval sz s)"
proof (cases "sz = sizeWord")
  case True
  have "word_of_int (sint w) = w" for w :: u32 by simp
  from this [of "scast (ucast s :: u16)"] show ?thesis using True by (simp add: sint_scast_word)
next
  case False
  then have "sval sz s = sint s" using assms by (simp add: sval_def sint_uint)
  then show ?thesis using False by simp
qed

lemma addrTime_code:
  assumes "mode < 8" "rg < 8"
  shows "addrTime k sz mode rg =
    (if k = AMove then 4
     else if k = ACmp \<or> (sz = sizeLong \<and> mode \<ge> 2 \<and> \<not> (mode = 7 \<and> rg = 4)) then 6
     else 8) + fst (eaFetchConst mode rg) + (if sz = sizeLong then snd (eaFetchConst mode rg) else 0)"
  unfolding addrTime_def eaFetchCycles_Const [OF assms] by simp

lemma address_run:
  assumes "wf_cpu c" "an < 8" "srcEA mode rg" "sz = addrSize k (ir c)" "sz = sizeWord \<or> sz = sizeLong"
    and "run_state (makeEARead mode rg sz) c = (s, c1)"
  defines "a \<equiv> regA (reg c1) ! unat an"
  shows "run_state (addrHandler k an mode rg) c =
    ((), c1\<lparr>reg := (reg c1)\<lparr>regA := (regA (reg c1))[unat an := addrValue k (sval sz s) (sint a)],
         regSR := if k = ACmp then cmpCCR sizeLong (word_of_int (sval sz s)) a (regSR (reg c1)) else regSR (reg c1)\<rparr>,
       cycles := cycles c1 + addrTime k sz mode rg\<rparr>)"
proof -
  define long isMem where "long \<longleftrightarrow> sz = sizeLong" and "isMem \<longleftrightarrow> 2 \<le> mode \<and> \<not> (mode = 7 \<and> rg = 4)"
  have "wf_cpu c1" by (rule regD_kept(2) [OF assms(1) keeps_wf.io_makeEARead [OF assms(3)] assms(6)])
  then have l: "unat an < length (regA (reg c1))" using assms(2) by (simp add: wf_cpu_def word_less_nat_alt)
  have m: "mode < 8" "rg < 8" using assms(3) by (simp_all add: srcEA_def)
  have same: "(regA (reg c1))[unat an := a] = regA (reg c1)" by (simp add: a_def)
  have "(2 \<le> mode \<and> (mode = 7 \<longrightarrow> rg \<noteq> 4)) = isMem" by (auto simp: isMem_def)
  note run = this same assms(6) l addr_operand [OF assms(5)] setFlagsCmp_run a_def [symmetric] addrValue_def
  have sz: "k = AMove \<Longrightarrow> moveSizeMap ! unat (drop_bit 12 (ir c) AND 3) = sz"
    "k \<noteq> AMove \<Longrightarrow> (if drop_bit 6 (ir c) AND 7 = 7 then sizeLong else sizeWord) = sz"
    using assms(4) by (simp_all add: addrSize_def)
  note unfold = addrHandler_def makeMOVEA_def makeADDA_def makeSUBA_def makeCMPA_def Let_def split_def addrTime_code [OF m]
  show ?thesis
  proof (cases "k = AMove")
    case True
    then show ?thesis unfolding unfold
      by (cases long) (simp_all add: run add.assoc sz(1) [OF True] long_def [symmetric] split del: if_split)
  next
    case False
    then show ?thesis unfolding unfold isMem_def [symmetric]
      by (cases k; cases long; cases isMem)
        (simp_all add: run add.assoc sz(2) [OF False] long_def [symmetric] split del: if_split)
  qed
qed

subsection \<open>Property\<close>

text \<open>
  C26. MOVEA, ADDA, SUBA and CMPA do what the specification says. Once the operand has been read, a word
  of it is extended with its sign; the whole address register is replaced by the operand, the sum or
  the difference modulo \<open>2 ^ 32\<close>, or kept by CMPA, also for word instructions; the condition codes are
  kept, except by CMPA, which sets those of a 32-bit comparison; the time is the tabulated one and
  nothing else changes.
\<close>

theorem address_operations:
  assumes "wf_cpu c" "an < 8" "srcEA mode rg" "sz = addrSize k (ir c)" "sz = sizeWord \<or> sz = sizeLong"
    and "run_state (makeEARead mode rg sz) c = (s, c1)"
  shows "let a = regA (reg c1) ! unat an
    in run_state (addrHandler k an mode rg) c =
      ((), c1\<lparr>reg := (reg c1)\<lparr>regA := (regA (reg c1))[unat an := addrValue k (sval sz s) (sint a)],
           regSR := if k = ACmp then cmpCCR sizeLong (word_of_int (sval sz s)) a (regSR (reg c1)) else regSR (reg c1)\<rparr>,
         cycles := cycles c1 + addrTime k sz mode rg\<rparr>)"
  using address_run [OF assms] by (simp only: Let_def)

text \<open>\<open>ADDA.W D1,A0\<close> with a negative word in D1.\<close>

theorem address_operations_witness:
  "let c' = snd (run_state (addrHandler AAdd 0 0 1) (rmwCPU\<lparr>ir := 0xD0C1, reg := (reg rmwCPU)\<lparr>regD := [0, 0x7FFFE, 0, 0, 0, 0, 0, 0]\<rparr>\<rparr>))
   in regA (reg c') ! 0 = 0xFFE \<and> cycles c' = 8"
  using address_operations [of "rmwCPU\<lparr>ir := 0xD0C1, reg := (reg rmwCPU)\<lparr>regD := [0, 0x7FFFE, 0, 0, 0, 0, 0, 0]\<rparr>\<rparr>"
    0 0 1 sizeWord AAdd]
  by (simp add: wf_cpu_def srcEA_def addrSize_def makeEARead_def addrValue_def addrTime_def eaFetchCycles_def sval_def Let_def)

end
