(* ===== verification/M68k_Cost.thy ===== *)
theory M68k_Cost
  imports M68k_Opcode M68k_Safety
begin

text \<open>
  How long instructions take. \<open>takes op lo hi m\<close> says that the program \<open>m\<close>, run with \<open>op\<close> in the
  instruction register, adds at least \<open>lo\<close> and at most \<open>hi\<close> cycles, where it may stay below \<open>lo\<close> only
  if it halts the CPU. Programs that add no cycles at all are \<open>free\<close>. The rules in the collections
  \<open>free_rules\<close> and \<open>cost\<close> take a handler apart; the result is that every handler of the opcode table
  takes between 4 and 170 cycles.
\<close>

named_theorems free_rules \<open>rules for programs that add no cycles\<close>
named_theorems cost \<open>rules that bound the cycles of a program\<close>

definition same_clock :: "'b CPU \<Rightarrow> 'b CPU \<Rightarrow> bool" where
  "same_clock c c' \<longleftrightarrow> cycles c' = cycles c \<and> ir c' = ir c \<and> (halted c \<longrightarrow> halted c')"

definition free :: "('b, 'a) cpuM \<Rightarrow> bool" where
  "free m \<longleftrightarrow> state_io_rel same_clock m"

definition clocked :: "nat \<Rightarrow> nat \<Rightarrow> 'b CPU \<Rightarrow> 'b CPU \<Rightarrow> bool" where
  "clocked lo hi c c' \<longleftrightarrow> ir c' = ir c \<and> (halted c \<longrightarrow> halted c') \<and>
     (\<exists>n \<le> hi. cycles c' = cycles c + of_nat n \<and> (lo \<le> n \<or> halted c'))"

definition takes :: "u16 \<Rightarrow> nat \<Rightarrow> nat \<Rightarrow> ('b, 'a) cpuM \<Rightarrow> bool" where
  "takes op lo hi m \<longleftrightarrow> (\<forall>c. ir c = op \<longrightarrow> clocked lo hi c (snd (run_state m c)))"

subsection \<open>Free programs\<close>

lemma reflp_same_clock: "reflp same_clock"
  by (simp add: reflp_def same_clock_def)

lemma transp_same_clock: "transp same_clock"
  by (auto simp: transp_def same_clock_def)

lemma free_return [free_rules]: "free (return x)"
  unfolding free_def by (rule io_returnI [OF reflp_same_clock])

lemma free_gets [free_rules]: "free (gets f)"
  unfolding free_def by (rule io_getsI [OF reflp_same_clock])

lemma free_bind [free_rules]: "free m \<Longrightarrow> (\<And>x. free (f x)) \<Longrightarrow> free (m \<bind> f)"
  unfolding free_def by (rule io_bindI [OF transp_same_clock])

lemma free_if [free_rules]: "(b \<Longrightarrow> free m) \<Longrightarrow> (\<not> b \<Longrightarrow> free n) \<Longrightarrow> free (if b then m else n)"
  by simp

lemma free_if_app [free_rules]:
  "(b \<Longrightarrow> free (f x)) \<Longrightarrow> (\<not> b \<Longrightarrow> free (g x)) \<Longrightarrow> free ((if b then f else g) x)"
  by simp

lemma free_let [free_rules]: "(\<And>x. x = e \<Longrightarrow> free (f x)) \<Longrightarrow> free (let x = e in f x)"
  by simp

lemma free_whenM [free_rules]: "(b \<Longrightarrow> free m) \<Longrightarrow> free (whenM b m)"
  by (simp add: whenM_def free_return)

lemma free_foldM [free_rules]: "(\<And>i a. free (f i a)) \<Longrightarrow> free (foldM f xs a)"
  unfolding free_def by (rule io_foldMI [OF reflp_same_clock transp_same_clock])

lemma free_primitives [free_rules]:
  "free (getD i)" "free (putD i v)" "free (getA i)" "free (putA i v)" "free getPC" "free (putPC a)"
  "free getSR" "free (putSR w)" "free getUSP" "free (putUSP a)" "free getSSP" "free (putSSP a)"
  "free (srSet m)" "free (srClr m)" "free setHalted" "free (readBus sz a)" "free (writeBus sz a v)"
  "free busReset" "free (goPanic x)" "free (modify (\<lambda>c. c\<lparr>stopped := b\<rparr>))" "free (goIndex y ys i)" "free (goDivide v1 v2)"
  by (auto simp: free_def state_io_rel_def same_clock_def goPanic_def goIndex_def goDivide_def primitive_defs Let_def
    split: msize.splits prod.splits)

lemma free_core [free_rules]:
  "free fetchPC" "free fetchPCLong" "free (pushWord w)" "free (pushLong v)" "free popWord" "free popLong"
  "free supervisor" "free (setSR sr)" "free (setCCR ccr)" "free (testCondition cc)"
  "free (setFlagsAdd s d r sz)" "free (setFlagsSub s d r sz)" "free (setFlagsCmp s d r sz)"
  "free (setFlagsLogical r sz)" "free (calcIndex base ext)" "free (fetchImm sz)" "free (storeD i sz v)"
  "free extendFlag" "free (keepZ z r sz)" "free (setZ zb)"
  unfolding fetchPCLong_def fetchPC_def pushWord_def pushLong_def popWord_def popLong_def supervisor_def
    setSR_def setCCR_def testCondition_def setFlagsAdd_def setFlagsSub_def setFlagsCmp_def
    setFlagsLogical_def calcIndex_def fetchImm_def storeD_def extendFlag_def keepZ_def setZ_def
  by (intro free_rules)+

lemma free_operands [free_rules]: "free (makeEARead mode rg sz)" "free (makeEAMemAddr mode rg sz)"
  unfolding makeEARead_def makeEAMemAddr_def by (intro free_rules)+

lemma free_resolveEA:
  "m \<in> {2, 3, 4, 5, 6} \<or> m = 7 \<and> r \<in> {0, 1, 2, 3} \<Longrightarrow> free (resolveEA m r sz)"
  unfolding resolveEA_def by (intro free_rules; auto)

lemma free_resolved [free_rules]:
  "free (ea_read e sz)" "free (ea_write e sz v)" "free (resolveEA 3 r sz)" "free (resolveEA 4 r sz)"
  unfolding ea_read_def ea_write_def
  by ((cases "ea_mode e"; simp; intro free_rules)+) (simp_all add: free_resolveEA)

lemma free_algorithms [free_rules]:
  "free (bcdAdd x y)" "free (bcdSub x y)" "free (aslStep sz v)" "free (roxlStep sz v)"
  "free (roxrStep sz v)" "free (setCX b)" "free (doShift v n dir ty sz)"
  "free (getReg i)" "free (putReg i v)" "free (movemStorePre w sz i a)" "free (movemStore w sz i a)"
  "free (movemLoad w sz i a)"
  unfolding bcdAdd_def bcdSub_def doShift_def aslStep_def roxlStep_def roxrStep_def setCX_def
    movemStorePre_def movemStore_def movemLoad_def getReg_def putReg_def
  by (intro free_rules)+

subsection \<open>Programs that take time\<close>

lemma clocked_trans:
  assumes "clocked l h c c'" "clocked l' h' c' c''"
  shows "clocked (l + l') (h + h') c c''"
proof -
  obtain n where n: "n \<le> h" "cycles c' = cycles c + of_nat n" "l \<le> n \<or> halted c'"
    using assms(1) by (auto simp: clocked_def)
  obtain k where k: "k \<le> h'" "cycles c'' = cycles c' + of_nat k" "l' \<le> k \<or> halted c''"
    using assms(2) by (auto simp: clocked_def)
  have "n + k \<le> h + h'" "cycles c'' = cycles c + of_nat (n + k)" "l + l' \<le> n + k \<or> halted c''"
    using n k assms(2) by (auto simp: clocked_def)
  then show ?thesis using assms by (auto simp: clocked_def)
qed

lemma clocked_weaken: "clocked l h c c' \<Longrightarrow> l' \<le> l \<Longrightarrow> h \<le> h' \<Longrightarrow> clocked l' h' c c'"
  unfolding clocked_def by (meson le_trans)

lemma takes_bind:
  assumes "takes op l h m" "\<And>x. takes op l' h' (f x)"
  shows "takes op (l + l') (h + h') (m \<bind> f)"
  unfolding takes_def
proof (intro allI impI)
  fix c :: "'a CPU"
  assume c: "ir c = op"
  obtain x c' where r: "run_state m c = (x, c')" by fastforce
  have m: "clocked l h c c'" using assms(1) c r by (auto simp: takes_def)
  then have "ir c' = op" using c by (simp add: clocked_def)
  then have "clocked l' h' c' (snd (run_state (f x) c'))" using assms(2) by (simp add: takes_def)
  with m show "clocked (l + l') (h + h') c (snd (run_state (m \<bind> f) c))"
    using r by (simp add: clocked_trans)
qed

lemma takes_weaken: "takes op l h m \<Longrightarrow> l' \<le> l \<Longrightarrow> h \<le> h' \<Longrightarrow> takes op l' h' m"
  unfolding takes_def using clocked_weaken by blast

lemma takes_free: "free m \<Longrightarrow> takes op 0 0 m"
  by (simp add: free_def takes_def clocked_def state_io_rel_def same_clock_def)

lemma takes_free_bind: "free m \<Longrightarrow> (\<And>x. takes op l h (f x)) \<Longrightarrow> takes op l h (m \<bind> f)"
  using takes_bind [OF takes_free] by fastforce

lemma takes_ir [cost]: "takes op l h (f op) \<Longrightarrow> takes op l h (gets ir \<bind> f)"
  by (simp add: takes_def)

lemma takes_add [cost]: "l \<le> unat n \<Longrightarrow> unat n \<le> h \<Longrightarrow> takes op l h (addCycles n)"
  by (auto simp: takes_def clocked_def addCycles_def intro!: exI [of _ "unat n"])

lemma takes_add_bind [cost]:
  assumes "unat n \<le> h" "takes op (l - unat n) (h - unat n) (f ())"
  shows "takes op l h (addCycles n \<bind> f)"
proof -
  have "takes op (unat n + (l - unat n)) (unat n + (h - unat n)) (addCycles n \<bind> f)"
    by (rule takes_bind) (use assms(2) takes_add in auto)
  then show ?thesis by (rule takes_weaken) (use assms(1) in auto)
qed

lemma takes_setHalted [cost]: "takes op l h setHalted"
  by (auto simp: takes_def clocked_def setHalted_def intro!: exI [of _ 0])

lemma takes_return [cost]: "l = 0 \<Longrightarrow> takes op l h (return x)"
  by (auto simp: takes_def clocked_def intro!: exI [of _ 0])

lemma takes_whenM [cost]: "(b \<Longrightarrow> takes op l h m) \<Longrightarrow> (\<not> b \<Longrightarrow> l = 0) \<Longrightarrow> takes op l h (whenM b m)"
  by (auto simp: whenM_def intro: takes_return)

lemma takes_if [cost]: "(b \<Longrightarrow> takes op l h m) \<Longrightarrow> (\<not> b \<Longrightarrow> takes op l h n) \<Longrightarrow> takes op l h (if b then m else n)"
  by simp

lemma takes_let [cost]: "(\<And>x. x = e \<Longrightarrow> takes op l h (f x)) \<Longrightarrow> takes op l h (let x = e in f x)"
  by simp

text \<open>What stands before a bind: a free program, or a choice.\<close>

lemma takes_if_bind [cost]:
  "(b \<Longrightarrow> takes op l h (m \<bind> f)) \<Longrightarrow> (\<not> b \<Longrightarrow> takes op l h (n \<bind> f)) \<Longrightarrow>
     takes op l h ((if b then m else n) \<bind> f)"
  by simp

lemma takes_whenM_bind [cost]:
  "(b \<Longrightarrow> takes op l h (m \<bind> f)) \<Longrightarrow> (\<not> b \<Longrightarrow> takes op l h (f ())) \<Longrightarrow> takes op l h (whenM b m \<bind> f)"
  by (simp add: whenM_def)

lemma takes_let_bind [cost]:
  "(\<And>x. x = e \<Longrightarrow> takes op l h (g x \<bind> f)) \<Longrightarrow> takes op l h ((let x = e in g x) \<bind> f)"
  by simp

lemma takes_bind_bind [cost]: "takes op l h (m \<bind> (\<lambda>x. g x \<bind> f)) \<Longrightarrow> takes op l h ((m \<bind> g) \<bind> f)"
  by simp

lemma takes_return_bind [cost]: "takes op l h (f x) \<Longrightarrow> takes op l h (return x \<bind> f)"
  by simp

lemmas takes_free_binds [cost] =
  free_primitives [THEN takes_free_bind] free_core [THEN takes_free_bind]
  free_operands [THEN takes_free_bind] free_resolved [THEN takes_free_bind] free_algorithms [THEN takes_free_bind]
  free_gets [of prevPC, THEN takes_free_bind]

lemma takes_exception [cost]: "l \<le> 34 \<Longrightarrow> 34 \<le> h \<Longrightarrow> takes op l h (exception v)"
  unfolding exception_def by (intro cost; simp)

subsection \<open>The handlers\<close>

text \<open>Operand timing constants.\<close>

definition eaTimes :: "(u64 \<times> u64) set" where
  "eaTimes = {(0, 0), (4, 4), (6, 4), (8, 4), (10, 4), (12, 4)}"

lemma takes_eaFetchConst [cost]:
  "(\<And>a b. (a, b) \<in> eaTimes \<Longrightarrow> takes op l h (f a b)) \<Longrightarrow>
     takes op l h (case eaFetchConst mode rg of (a, b) \<Rightarrow> f a b)"
  by (auto simp: eaFetchConst_def eaTimes_def)

lemma takes_eaWriteConst [cost]:
  "(\<And>a b. (a, b) \<in> eaTimes \<Longrightarrow> takes op l h (f a b)) \<Longrightarrow>
     takes op l h (case eaWriteConst mode rg of (a, b) \<Rightarrow> f a b)"
  by (auto simp: eaWriteConst_def eaTimes_def)

lemma time_add:
  "takes op 4 170 (makeADDtoReg dn mode rg)" "takes op 4 170 (makeADDtoEA dn mode rg)"
  "takes op 4 170 (makeADDA dn mode rg)" "takes op 4 170 (makeADDI mode rg)"
  "takes op 4 170 (makeADDQ dn mode rg)" "takes op 4 170 opADDXreg" "takes op 4 170 opADDXmem"
  unfolding makeADDtoReg_def makeADDtoEA_def makeADDA_def makeADDI_def makeADDQ_def opADDXreg_def
  opADDXmem_def Let_def
  by (intro cost; (auto simp: eaTimes_def)?)+

lemma time_sub:
  "takes op 4 170 (makeSUBtoReg dn mode rg)" "takes op 4 170 (makeSUBtoEA dn mode rg)"
  "takes op 4 170 (makeSUBA dn mode rg)" "takes op 4 170 (makeSUBI mode rg)"
  "takes op 4 170 (makeSUBQ dn mode rg)" "takes op 4 170 opSUBXreg" "takes op 4 170 opSUBXmem"
  unfolding makeSUBtoReg_def makeSUBtoEA_def makeSUBA_def makeSUBI_def makeSUBQ_def opSUBXreg_def
  opSUBXmem_def Let_def
  by (intro cost; (auto simp: eaTimes_def)?)+

lemma time_cmp:
  "takes op 4 170 (makeCMP dn mode rg)" "takes op 4 170 (makeCMPA dn mode rg)"
  "takes op 4 170 (makeCMPI mode rg)" "takes op 4 170 opCMPM" "takes op 4 170 (makeCHK dn mode rg)"
  unfolding makeCMP_def makeCMPA_def makeCMPI_def opCMPM_def makeCHK_def Let_def
  by (intro cost; (auto simp: eaTimes_def)?)+

lemma time_muldiv:
  "takes op 4 170 (makeMULU dn mode rg)" "takes op 4 170 (makeMULS dn mode rg)"
  "takes op 4 170 (makeDIVU dn mode rg)" "takes op 4 170 (makeDIVS dn mode rg)"
  unfolding makeMULU_def makeMULS_def makeDIVU_def makeDIVS_def Let_def
  by (intro cost; (auto simp: eaTimes_def)?)+

lemma time_unary:
  "takes op 4 170 (makeNEG mode rg)" "takes op 4 170 (makeNEGX mode rg)"
  "takes op 4 170 (makeCLR mode rg)" "takes op 4 170 (makeNOT mode rg)"
  "takes op 4 170 (makeTST mode rg)" "takes op 4 170 (makeTAS mode rg)" "takes op 4 170 opEXTW"
  "takes op 4 170 opEXTL"
  unfolding makeNEG_def makeNEGX_def makeCLR_def makeNOT_def makeTST_def makeTAS_def opEXTW_def
  opEXTL_def Let_def
  by (intro cost; (auto simp: eaTimes_def)?)+

lemma time_bcd:
  "takes op 4 170 opABCDreg" "takes op 4 170 opABCDmem" "takes op 4 170 opSBCDreg"
  "takes op 4 170 opSBCDmem" "takes op 4 170 (makeNBCD mode rg)"
  unfolding opABCDreg_def opABCDmem_def opSBCDreg_def opSBCDmem_def makeNBCD_def Let_def
  by (intro cost; (auto simp: eaTimes_def)?)+

lemma time_bit:
  "takes op 4 170 (makeBTSTdyn dn mode rg)" "takes op 4 170 (makeBTSTstatic mode rg)"
  "takes op 4 170 (makeBCHGdyn dn mode rg)" "takes op 4 170 (makeBCHGstatic mode rg)"
  "takes op 4 170 (makeBCLRdyn dn mode rg)" "takes op 4 170 (makeBCLRstatic mode rg)"
  "takes op 4 170 (makeBSETdyn dn mode rg)" "takes op 4 170 (makeBSETstatic mode rg)"
  unfolding makeBTSTdyn_def makeBTSTstatic_def makeBCHGdyn_def makeBCHGstatic_def makeBCLRdyn_def
  makeBCLRstatic_def makeBSETdyn_def makeBSETstatic_def Let_def
  by (intro cost; (auto simp: eaTimes_def)?)+

lemma time_branch:
  "takes op 4 170 opBcc" "takes op 4 170 opBRA" "takes op 4 170 opBSR" "takes op 4 170 opDBcc"
  "takes op 4 170 opRTS" "takes op 4 170 opRTE" "takes op 4 170 opRTR"
  "takes op 4 170 (makeScc mode rg)"
  unfolding opBcc_def opBRA_def opBSR_def opDBcc_def opRTS_def opRTE_def opRTR_def makeScc_def
  Let_def
  by (intro cost; (auto simp: eaTimes_def)?)+

lemma time_ctrl:
  "takes op 4 170 opNOP" "takes op 4 170 opSTOP" "takes op 4 170 opRESET" "takes op 4 170 opTRAP"
  "takes op 4 170 opTRAPV" "takes op 4 170 opLINK" "takes op 4 170 opUNLK"
  "takes op 4 170 (makeMOVEfromSR mode rg)" "takes op 4 170 (makeMOVEtoCCR mode rg)"
  "takes op 4 170 (makeMOVEtoSR mode rg)" "takes op 4 170 opMOVEtoUSP"
  "takes op 4 170 opMOVEfromUSP"
  unfolding opNOP_def opSTOP_def opRESET_def opTRAP_def opTRAPV_def opLINK_def opUNLK_def
  makeMOVEfromSR_def makeMOVEtoCCR_def makeMOVEtoSR_def opMOVEtoUSP_def opMOVEfromUSP_def Let_def
  by (intro cost; (auto simp: eaTimes_def)?)+

lemma time_immSR:
  "takes op 4 170 opANDItoCCR" "takes op 4 170 opANDItoSR" "takes op 4 170 opORItoCCR"
  "takes op 4 170 opORItoSR" "takes op 4 170 opEORItoCCR" "takes op 4 170 opEORItoSR"
  unfolding opANDItoCCR_def opANDItoSR_def opORItoCCR_def opORItoSR_def opEORItoCCR_def
  opEORItoSR_def Let_def
  by (intro cost; (auto simp: eaTimes_def)?)+

lemma time_logic:
  "takes op 4 170 (makeANDtoReg dn mode rg)" "takes op 4 170 (makeANDtoEA dn mode rg)"
  "takes op 4 170 (makeANDI mode rg)" "takes op 4 170 (makeORtoReg dn mode rg)"
  "takes op 4 170 (makeORtoEA dn mode rg)" "takes op 4 170 (makeORI mode rg)"
  "takes op 4 170 (makeEOR dn mode rg)" "takes op 4 170 (makeEORI mode rg)"
  "takes op 4 170 (makeShiftMem mode rg)"
  unfolding makeANDtoReg_def makeANDtoEA_def makeANDI_def makeORtoReg_def makeORtoEA_def
  makeORI_def makeEOR_def makeEORI_def makeShiftMem_def Let_def
  by (intro cost; (auto simp: eaTimes_def)?)+

lemma time_move:
  "takes op 4 170 (makeMOVE sm sr dm dr)" "takes op 4 170 (makeMOVEA dn mode rg)"
  "takes op 4 170 opMOVEQ" "takes op 4 170 opEXG" "takes op 4 170 opSWAP"
  unfolding makeMOVE_def makeMOVEA_def opMOVEQ_def opEXG_def opSWAP_def Let_def
  by (intro cost; (auto simp: eaTimes_def)?)+

lemma ctrlOp_cases:
  assumes "ctrlOp m r" "m < 8" "r < 8"
  shows "m \<in> {2, 5, 6} \<or> m = 7 \<and> r \<in> {0, 1, 2, 3}"
  using assms(1) less_8_cases [OF assms(2)] less_8_cases [OF assms(3)]
  by (auto simp: ctrlOp_def word_le_nat_alt)

lemma time_control:
  assumes "ctrlOp m r" "m < 8" "r < 8"
  shows "takes op 4 170 (makeLEA an m r)" "takes op 4 170 (makePEA m r)" "takes op 4 170 (makeJMP m r)"
    "takes op 4 170 (makeJSR m r)"
  unfolding makeLEA_def makePEA_def makeJMP_def makeJSR_def Let_def
  using ctrlOp_cases [OF assms] by (intro cost; auto)+

lemma time_MOVEP: "f8 op = 1 \<Longrightarrow> takes op 4 170 opMOVEP"
proof -
  assume *: "f8 op = 1"
  have "drop_bit 6 op AND 7 < 8" by (rule and_less)
  then have "drop_bit 6 op AND 7 \<in> {4, 5, 6, 7}"
    using * less_8_cases [of "drop_bit 6 op AND 7"] by (auto simp: field_defs bits16)
  then show ?thesis unfolding opMOVEP_def Let_def by (intro cost; auto)
qed

lemma unat_linear:
  assumes "a + b * k < 2 ^ 64"
  shows "unat (of_nat a + of_nat b * of_nat k :: u64) = a + b * k"
proof -
  have "unat (of_nat (a + b * k) :: u64) = a + b * k"
    using assms by (simp only: unat_of_nat) (simp add: take_bit_nat_eq_self)
  then show ?thesis by simp
qed

lemma shift_time:
  assumes "n < (64 :: u32)"
  shows "unat (6 + 2 * ucast n :: u64) = 6 + 2 * unat n" "unat n \<le> 63"
proof -
  show n: "unat n \<le> 63" using assms by (simp add: word_less_nat_alt)
  have "(ucast n :: u64) = of_nat (unat n)" by (simp only: of_nat_unat)
  then show "unat (6 + 2 * ucast n :: u64) = 6 + 2 * unat n"
    using unat_linear [of 6 2 "unat n"] n by simp
qed

lemma shift_counts:
  "(v :: u32) AND 63 < 64" "(if (ucast ((x :: u16) AND 7) :: u32) = 0 then 8 else ucast (x AND 7)) < (64 :: u32)"
proof -
  have "unat (v AND mask 6) < 2 ^ 6" 
    using take_bit_nat_less_exp [of 6 "unat v"] by (simp add: take_bit_eq_mask [symmetric] unsigned_take_bit_eq)
  then show "v AND 63 < 64" by (simp add: word_less_nat_alt mask_eq_exp_minus_1)
  have "x AND 7 \<in> {0, 1, 2, 3, 4, 5, 6, 7}" by (rule less_8_cases) (rule and_less)
  then show "(if (ucast (x AND 7) :: u32) = 0 then 8 else ucast (x AND 7)) < (64 :: u32)" by auto
qed

lemma time_shift: "takes op 4 170 opShiftReg"
proof -
  have *: "takes op 4 170 (do {
       dv \<leftarrow> getD d;
       result \<leftarrow> doShift (dv AND Mask sz) n dir ty sz;
       storeD d sz result;
       addCycles (6 + 2 * ucast n);
       whenM (sz = sizeLong) (addCycles 2) })" if "n < 64" for n d dir ty sz
    using shift_time [OF that] by (intro cost; simp)
  show ?thesis unfolding opShiftReg_def Let_def by (intro cost shift_counts *)
qed

text \<open>MOVEM: the base time of the addressing mode and four or eight cycles for each register.\<close>

definition movemOp :: "u16 \<Rightarrow> u16 \<Rightarrow> u16 \<Rightarrow> bool" where
  "movemOp dir m r \<longleftrightarrow> (dir = 0 \<and> (m \<in> {2, 4, 5, 6} \<or> m = 7 \<and> r \<in> {0, 1})) \<or>
     (dir = 1 \<and> (m \<in> {2, 3, 5, 6} \<or> m = 7 \<and> r \<in> {0, 1, 2, 3}))"

lemma OnesCount16_le: "OnesCount16 x \<le> 16"
  unfolding OnesCount16_def by (rule le_trans [OF length_filter_le]) simp

lemma movem_time:
  assumes "movemOp dir m r"
  shows "\<exists>b. movemBase dir (ucast m) (ucast r) = of_nat b \<and> 8 \<le> b \<and> b \<le> 20"
    "dir = 0 \<and> m = 4 \<or> dir = 1 \<and> m = 3 \<or> free (resolveEA (ucast m) (ucast r) sz)"
proof -
  have "b \<le> 20 \<Longrightarrow> 8 \<le> b \<Longrightarrow> \<exists>b'. of_nat b = (of_nat b' :: u64) \<and> 8 \<le> b' \<and> b' \<le> 20" for b by blast
  from this [of 8] this [of 12] this [of 14] this [of 16] this [of 18] this [of 20]
  show "\<exists>b. movemBase dir (ucast m) (ucast r) = of_nat b \<and> 8 \<le> b \<and> b \<le> 20"
    using assms by (auto simp: movemOp_def movemBase_def)
  show "dir = 0 \<and> m = 4 \<or> dir = 1 \<and> m = 3 \<or> free (resolveEA (ucast m) (ucast r) sz)"
    using assms by (auto simp: movemOp_def intro!: free_resolveEA)
qed

lemma time_MOVEM:
  assumes "movemOp (drop_bit 10 op AND 1) (f3 op) (f0 op)"
  shows "takes op 4 170 opMOVEM"
proof -
  let ?dir = "drop_bit 10 op AND 1" and ?m = "ucast (f3 op) :: u8" and ?r = "ucast (f0 op) :: u8"
  obtain b where b: "movemBase ?dir ?m ?r = of_nat b" "8 \<le> b" "b \<le> 20"
    using movem_time(1) [OF assms] by blast
  have t: "takes op 4 170 (addCycles (movemBase ?dir ?m ?r + of_nat (OnesCount16 w) * (if l then 8 else 4)))" for w l
  proof (rule takes_add)
    have "unat (movemBase ?dir ?m ?r + of_nat (OnesCount16 w) * (if l then 8 else 4)) =
        b + (if l then 8 else 4) * OnesCount16 w"
      using unat_linear [of b "if l then 8 else 4" "OnesCount16 w"] OnesCount16_le [of w] b
      by (cases l) (simp_all add: mult.commute)
    then show "4 \<le> unat (movemBase ?dir ?m ?r + of_nat (OnesCount16 w) * (if l then 8 else 4))"
      "unat (movemBase ?dir ?m ?r + of_nat (OnesCount16 w) * (if l then 8 else 4)) \<le> 170"
      using OnesCount16_le [of w] b by auto
  qed
  have r: "free (resolveEA ?m ?r sz)" if "\<not> (?dir = 0 \<and> f3 op = 4 \<or> ?dir = 1 \<and> f3 op = 3)" for sz
    using movem_time(2) [OF assms, of sz] that by blast
  have m: "?m \<noteq> 4 \<Longrightarrow> f3 op \<noteq> 4" "?m \<noteq> 3 \<Longrightarrow> f3 op \<noteq> 3" "?dir \<noteq> 0 \<Longrightarrow> ?dir = 1" "?dir = 0 \<Longrightarrow> ?dir \<noteq> 1"
    using assms by (auto simp: movemOp_def)
  show ?thesis
    unfolding opMOVEM_def Let_def
    by (rule takes_ir, rule takes_free_bind, rule free_core, rule takes_free_bind,
      intro free_rules r [unfolded f3_def f0_def]; (rule t [unfolded f3_def f0_def])?)
      (use m in \<open>unfold f3_def, blast\<close>)+
qed

lemmas handler_times = time_add time_sub time_cmp time_muldiv time_unary time_bcd time_bit time_branch
  time_ctrl time_immSR time_logic time_move time_control time_shift

subsection \<open>Every handler of the table\<close>

lemma movem_fields:
  "f9 op = 4 \<Longrightarrow> drop_bit 10 op AND 1 = 0" "f9 op = 6 \<Longrightarrow> drop_bit 10 op AND 1 = 1"
  by (auto simp: field_defs bits16)

lemma movemOp_store: "memAlt m r \<Longrightarrow> m \<noteq> 3 \<Longrightarrow> m < 8 \<Longrightarrow> r < 8 \<Longrightarrow> movemOp 0 m r"
  using less_8_cases [of m] less_8_cases [of r] by (auto simp: movemOp_def memAlt_def word_le_nat_alt)

lemma movemOp_load: "2 \<le> m \<Longrightarrow> m \<noteq> 4 \<Longrightarrow> \<not> (m = 7 \<and> 3 < r) \<Longrightarrow> m < 8 \<Longrightarrow> r < 8 \<Longrightarrow> movemOp 1 m r"
  using less_8_cases [of m] less_8_cases [of r] by (auto simp: movemOp_def word_le_nat_alt)

lemma time_line0: "decodeLine0 a (f8 op) s m r = Some h \<Longrightarrow> takes op 4 170 h"
  by (auto simp: decodeLine0_def guarded_def handler_times time_MOVEP split: if_splits)

lemma time_line4: "decodeLine4 (f9 op) b s (f3 op) (f0 op) = Some h \<Longrightarrow> takes op 4 170 h"
  by (auto simp: decodeLine4_def guarded_def handler_times movem_fields movemOp_store movemOp_load
    intro!: time_MOVEM split: if_splits)

lemma time_lines:
  "decodeMove l a b s m r = Some h \<Longrightarrow> takes op 4 170 h"
  "decodeLine5 a b s m r = Some h \<Longrightarrow> takes op 4 170 h"
  "decodeLine6 a b = Some h \<Longrightarrow> takes op 4 170 h"
  "decodeLine8 a b s m r = Some h \<Longrightarrow> takes op 4 170 h"
  "decodeAddSub makeSUBtoReg makeSUBtoEA makeSUBA opSUBXreg opSUBXmem a b s m r = Some h \<Longrightarrow> takes op 4 170 h"
  "decodeLineB a b s m r = Some h \<Longrightarrow> takes op 4 170 h"
  "decodeLineC a b s m r = Some h \<Longrightarrow> takes op 4 170 h"
  "decodeAddSub makeADDtoReg makeADDtoEA makeADDA opADDXreg opADDXmem a b s m r = Some h \<Longrightarrow> takes op 4 170 h"
  "decodeLineE a s m r = Some h \<Longrightarrow> takes op 4 170 h"
  unfolding decodeMove_def decodeLine5_def decodeLine6_def decodeLine8_def decodeAddSub_def decodeLineB_def
    decodeLineC_def decodeLineE_def Let_def guarded_def
  by (auto simp: handler_times split: if_splits)

lemma time_decode: "decode op = Some h \<Longrightarrow> takes op 4 170 h"
  unfolding decode_def Let_def
  by (auto simp: guarded_def time_line0 time_line4 time_lines handler_times split: if_splits)

lemma time_dispatch: "takes op 4 170 (dispatch op)"
  unfolding dispatch_def opcodeTable_eq_decode
  by (auto split: option.split intro: time_decode takes_exception)

end
