(* ===== verification/M68k_Time.thy ===== *)
theory M68k_Time
  imports M68k_Cost M68k_TestBus
begin

text \<open>
  The clock of the emulator. A step of a CPU that does not halt takes between 4 and 214 cycles
  and returns exactly the cycles it took; so a host that steps the CPU reaches any number of
  cycles, and \<open>StepCycles\<close> charges its caller, call by call, for the cycles the instructions took,
  exactly as long as the CPU does not halt.
\<close>

subsection \<open>One step\<close>

lemma free_acknowledge: "free (modify (\<lambda>c. c\<lparr>pendingIPL := 0, pendingVec := None\<rparr>))"
  by (simp add: free_def state_io_rel_def same_clock_def)

lemma takes_processInterrupt: "takes op 44 44 processInterrupt"
  unfolding processInterrupt_def Let_def
  by (intro cost takes_free_bind [OF free_gets] takes_free_bind [OF free_acknowledge]; simp)

lemma clocked_checkInterrupt: "clocked 0 44 c (snd (run_state checkInterrupt c))"
proof -
  have "takes (ir c) 44 44 processInterrupt" by (rule takes_processInterrupt)
  then have "clocked 0 44 c (snd (run_state processInterrupt c))"
    by (auto simp: takes_def intro: clocked_weaken)
  then show ?thesis by (auto simp: run_checkInterrupt clocked_def intro!: exI [of _ 0])
qed

text \<open>The cycles between two states.\<close>

definition ticks :: "nat \<Rightarrow> 'b CPU \<Rightarrow> 'b CPU \<Rightarrow> bool" where
  "ticks n c c' \<longleftrightarrow> cycles c' = cycles c + of_nat n"

lemma execute_ticks:
  "\<exists>n \<le> 170. ticks n c (snd (run_state execute c)) \<and> (4 \<le> n \<or> halted (snd (run_state execute c)))"
proof -
  obtain op c0 where f: "run_state fetchPC (c\<lparr>prevPC := regPC (reg c)\<rparr>) = (op, c0)" by fastforce
  then have "same_clock (c\<lparr>prevPC := regPC (reg c)\<rparr>) c0"
    using free_core(1) by (auto simp: free_def dest: state_io_relD)
  then have c0: "cycles c0 = cycles c" by (simp add: same_clock_def)
  let ?c1 = "c0\<lparr>ir := op, reg := (reg c0)\<lparr>regIR := op\<rparr>\<rparr>"
  let ?c2 = "snd (run_state (dispatch op) ?c1)"
  have "clocked 4 170 ?c1 ?c2" using time_dispatch [of op, unfolded takes_def, rule_format, of ?c1] by simp
  then obtain n where n: "n \<le> 170" "cycles ?c2 = cycles ?c1 + of_nat n" "4 \<le> n \<or> halted ?c2"
    by (auto simp: clocked_def)
  have "cycles (snd (run_state execute c)) = cycles ?c2" "halted ?c2 \<Longrightarrow> halted (snd (run_state execute c))"
    using f by (auto simp: execute_def setHalted_def split_def)
  then show ?thesis using n c0 by (auto simp: ticks_def)
qed

lemma sint_of_nat: "n \<le> 214 \<Longrightarrow> sint (of_nat n :: u64) = int n"
  by (simp add: signed_of_nat signed_take_bit_int_eq_self)

lemma Step_ticks:
  assumes "\<not> halted c" "run_state Step c = (r, c')"
  shows "\<exists>n \<le> 214. ticks n c c' \<and> 0 \<le> r \<and> r \<le> 214 \<and> (halted c' \<or> 4 \<le> n) \<and>
    (r = int n \<or> halted c' \<and> r = 0 \<and> n \<le> 44)"
proof (cases "stopped c")
  case True
  let ?c = "c\<lparr>cycles := cycles c + 4\<rparr>"
  have c': "c' = snd (run_state checkInterrupt ?c)" "r = sint (cycles c' - cycles c)"
    using assms True by (auto simp: run_Step Let_def)
  from clocked_checkInterrupt [of ?c] obtain n where n: "n \<le> 44" "cycles c' = cycles c + 4 + of_nat n"
    by (auto simp: clocked_def c')
  then have "cycles c' = cycles c + of_nat (4 + n)" by simp
  then show ?thesis using n c'(2) sint_of_nat [of "4 + n"] by (intro exI [of _ "4 + n"]) (simp add: ticks_def)
next
  case False
  let ?c1 = "snd (run_state checkInterrupt c)"
  from clocked_checkInterrupt [of c] obtain k where k: "k \<le> 44" "cycles ?c1 = cycles c + of_nat k"
    by (auto simp: clocked_def)
  show ?thesis
  proof (cases "regPC (reg ?c1) AND 1 \<noteq> 0")
    case True
    then have "r = 0" "c' = ?c1\<lparr>halted := True\<rparr>" using assms False by (auto simp: run_Step Let_def)
    then show ?thesis using k by (intro exI [of _ k]) (auto simp: ticks_def)
  next
    case odd: False
    then have c': "c' = snd (run_state execute ?c1)" "r = sint (cycles c' - cycles c)"
      using assms False by (auto simp: run_Step Let_def)
    from execute_ticks [of ?c1] obtain n where n: "n \<le> 170" "ticks n ?c1 c'" "4 \<le> n \<or> halted c'"
      by (auto simp: c')
    have t: "cycles c' = cycles c + of_nat (k + n)" using k n(2) by (simp add: ticks_def)
    then have "r = int (k + n)" using c'(2) k n sint_of_nat [of "k + n"] by simp
    then show ?thesis using t k n by (intro exI [of _ "k + n"]) (auto simp: ticks_def)
  qed
qed

subsection \<open>Many steps\<close>

lemma step_halted: "halted c \<Longrightarrow> run_state Step c = (0, c)"
  by (simp add: run_Step)

text \<open>The sum of what the first \<open>k\<close> calls of \<open>Step\<close> return.\<close>

fun consumed :: "nat \<Rightarrow> 'b CPU \<Rightarrow> int" where
  "consumed 0 c = 0"
| "consumed (Suc k) c = fst (run_state Step c) + consumed k (step c)"

lemma consumed_ge: "halted ((step ^^ k) c) \<or> 4 * int k \<le> consumed k c"
proof (induction k arbitrary: c)
  case (Suc k)
  show ?case
  proof (cases "halted c")
    case True
    then have "(step ^^ j) c = c" for j by (induction j) (simp_all add: step_def step_halted)
    from this [of "Suc k"] True show ?thesis by (simp del: funpow.simps)
  next
    case False
    obtain r c' where r: "run_state Step c = (r, c')" by fastforce
    then have s: "step c = c'" by (simp add: step_def)
    have "halted ((step ^^ k) c')" if "halted c'"
      using that by (induction k) (simp_all add: step_def step_halted)
    then show ?thesis using Step_ticks [OF False r] Suc.IH [of c'] r
      by (auto simp: s funpow_swap1)
  qed
qed simp

subsection \<open>Budgets\<close>

text \<open>Only \<open>StepCycles\<close> itself changes the deficit.\<close>

definition same_deficit :: "'b CPU \<Rightarrow> 'b CPU \<Rightarrow> bool" where
  "same_deficit c c' \<longleftrightarrow> deficit c' = deficit c"

interpretation deficit_frame: cpu_frame_any same_deficit
  by unfold_locales
    (auto simp: reflp_def transp_def state_io_rel_def same_deficit_def goPanic_def primitive_defs Let_def
      split: msize.splits prod.splits)

interpretation deficit_frame: cpu_frame_step same_deficit
proof unfold_locales
  have "state_io_rel same_deficit (modify (\<lambda>c. c\<lparr>pendingIPL := 0, pendingVec := None\<rparr>))"
    "state_io_rel same_deficit (modify (\<lambda>c. c\<lparr>stopped := False\<rparr>))"
    by (auto simp: state_io_rel_def same_deficit_def)
  then show "state_io_rel same_deficit processInterrupt"
    unfolding processInterrupt_def Let_def by (intro io; simp)
qed (auto simp: state_io_rel_def same_deficit_def)

lemma wrap64_id: "0 \<le> k \<Longrightarrow> k < 2 ^ 63 \<Longrightarrow> wrap64 k = k"
  by (simp add: wrap64_def signed_take_bit_int_eq_self)

lemma StepCycles_halted: "halted c \<Longrightarrow> run_state (StepCycles b) c = (0, c)"
  by (simp add: StepCycles_def)

text \<open>
  What a call charges against the cycles that pass. Only a call that halts the CPU can leave some
  uncharged, at most the 44 of an interrupt.
\<close>

definition charged :: "int \<Rightarrow> 'b CPU \<Rightarrow> 'b CPU \<Rightarrow> bool" where
  "charged r c c' \<longleftrightarrow> (\<exists>n lost. ticks n c c' \<and> r + deficit c' + int lost = deficit c + int n \<and>
     lost \<le> 44 \<and> (lost = 0 \<or> \<not> halted c \<and> halted c'))"

lemma StepCycles_charges:
  assumes "0 \<le> deficit c" "deficit c < 2 ^ 63" "0 \<le> b" "run_state (StepCycles b) c = (r, c')"
  shows "0 \<le> r \<and> r \<le> b \<and> 0 \<le> deficit c' \<and> deficit c' \<le> max (deficit c) 214 \<and> charged r c c'"
proof (cases "halted c \<or> deficit c > 0")
  case True
  then show ?thesis using assms
    by (auto simp: StepCycles_def charged_def ticks_def wrap64_id intro!: exI [of _ 0] split: if_splits)
next
  case False
  obtain q d where s: "run_state Step c = (q, d)" by fastforce
  have d: "deficit d = deficit c"
    using deficit_frame.io_Step s by (auto simp: same_deficit_def dest: state_io_relD)
  obtain n where n: "n \<le> 214" "ticks n c d" "0 \<le> q" "q \<le> 214" "q = int n \<or> halted d \<and> q = 0 \<and> n \<le> 44"
    using Step_ticks [OF _ s] False by blast
  have r: "0 \<le> r \<and> r \<le> b \<and> 0 \<le> deficit c' \<and> deficit c' \<le> max (deficit c) 214 \<and>
      ticks n c c' \<and> halted c' = halted d \<and> r + deficit c' = deficit c + q"
    using assms False s d n by (auto simp: StepCycles_def ticks_def wrap64_id split: if_splits)
  have "charged r c c'"
    using n(5)
  proof
    assume "q = int n"
    then show ?thesis using r unfolding charged_def by (intro exI [of _ n] exI [of _ 0]) simp
  next
    assume "halted d \<and> q = 0 \<and> n \<le> 44"
    then show ?thesis using r False unfolding charged_def by (intro exI [of _ n]) simp
  qed
  with r show ?thesis by blast
qed

text \<open>A host that calls \<open>StepCycles\<close> with one budget after the other, and what it is charged in all.\<close>

fun runBudgets :: "int list \<Rightarrow> 'b CPU \<Rightarrow> int \<times> 'b CPU" where
  "runBudgets [] c = (0, c)"
| "runBudgets (b # bs) c =
    (let (r, c1) = run_state (StepCycles b) c; (t, c2) = runBudgets bs c1 in (r + t, c2))"

lemma runBudgets_halted: "halted c \<Longrightarrow> runBudgets bs c = (0, c)"
  by (induction bs) (simp_all add: StepCycles_halted)

lemma charged_refl: "charged 0 c c"
  by (auto simp: charged_def ticks_def intro!: exI [of _ 0])

lemma charged_trans:
  assumes "charged r c c1" "charged u c1 c2" "\<not> halted c1" "\<not> halted c"
  shows "charged (r + u) c c2"
proof -
  obtain n where "ticks n c c1" "r + deficit c1 = deficit c + int n"
    using assms(1,3) by (auto simp: charged_def)
  moreover obtain k lost where "ticks k c1 c2" "u + deficit c2 + int lost = deficit c1 + int k"
    "lost \<le> 44" "lost = 0 \<or> halted c2"
    using assms(2) by (auto simp: charged_def)
  ultimately show ?thesis
    using assms(4) unfolding charged_def by (intro exI [of _ "n + k"] exI [of _ lost]) (auto simp: ticks_def)
qed

lemma runBudgets_charges:
  assumes "0 \<le> deficit c" "deficit c < 2 ^ 63" "\<forall>b \<in> set bs. 0 \<le> b" "runBudgets bs c = (t, c')"
  shows "0 \<le> t \<and> t \<le> sum_list bs \<and> 0 \<le> deficit c' \<and> deficit c' \<le> max (deficit c) 214 \<and> charged t c c'"
  using assms
proof (induction bs arbitrary: c t)
  case Nil
  then show ?case by (auto simp: charged_refl)
next
  case (Cons b bs)
  obtain r c1 where r: "run_state (StepCycles b) c = (r, c1)" by fastforce
  obtain u where u: "runBudgets bs c1 = (u, c')" "t = r + u"
    using Cons.prems(4) r by (auto simp: Let_def split: prod.splits)
  have b: "0 \<le> b" "0 \<le> sum_list bs" using Cons.prems(3) by (simp_all add: sum_list_nonneg)
  note one = StepCycles_charges [OF Cons.prems(1,2) b(1) r]
  show ?case
  proof (cases "halted c1")
    case True
    then show ?thesis using one u b runBudgets_halted [of c1 bs] by auto
  next
    case False
    have "deficit c1 < 2 ^ 63" using one Cons.prems(2) by auto
    then have "0 \<le> u \<and> u \<le> sum_list bs \<and> 0 \<le> deficit c' \<and> deficit c' \<le> max (deficit c1) 214 \<and> charged u c1 c'"
      by (intro Cons.IH [OF _ _ _ u(1)]) (use one Cons.prems(3) in simp_all)
    moreover have "\<not> halted c" using False r by (auto simp: StepCycles_halted)
    ultimately show ?thesis using one u(2) charged_trans [of r c c1 u c'] False by auto
  qed
qed

subsection \<open>The properties\<close>

text \<open>
  C28. Every step has a cost within bounds. A step of a CPU that is not halted takes at most 214
  cycles (170 for the slowest instruction, a DIVS with an absolute long operand, and 44 for an
  interrupt before it), and the value it returns lies between 0 and 214. Unless the step halts
  the CPU, it takes at least 4 cycles and returns exactly the number of cycles it took.
\<close>

theorem Step_bounds:
  assumes "\<not> halted c" "run_state Step c = (r, c')"
  shows "\<exists>n \<le> 214. cycles c' = cycles c + of_nat n \<and> 0 \<le> r \<and> r \<le> 214 \<and>
    (halted c' \<or> 4 \<le> n \<and> r = int n)"
  using Step_ticks [OF assms] by (auto simp: ticks_def)

theorem Step_bounds_witness:
  "let (r, c') = run_state Step (zeroCPU testBus (\<lambda>_. 0x4E)) in 0 \<le> r \<and> r \<le> 214 \<and> (halted c' \<or> 4 \<le> r)"
proof -
  let ?c = "zeroCPU testBus (\<lambda>_. 0x4E)"
  have "\<not> halted ?c" by (simp add: zeroCPU_def)
  from Step_bounds [OF this, of "fst (run_state Step ?c)" "snd (run_state Step ?c)"]
  show ?thesis by (auto simp: split_def)
qed

text \<open>
  C29. Time passes. Whatever the program, a host that calls \<open>Step\<close> again and again has consumed
  any number \<open>N\<close> of cycles after at most a quarter of \<open>N\<close> calls, rounded up, unless the CPU has
  halted before.
\<close>

theorem Step_progress:
  "\<exists>k \<le> (N + 3) div 4. halted ((step ^^ k) c) \<or> int N \<le> consumed k c"
proof -
  let ?k = "(N + 3) div 4"
  have "N \<le> 4 * ?k" by presburger
  then have "int N \<le> 4 * int ?k" by linarith
  then show ?thesis using consumed_ge [of ?k c] by (intro exI [of _ ?k]) auto
qed

text \<open>
  C30. \<open>StepCycles\<close> keeps its accounts. Over any sequence of calls with budgets that are not
  negative, the caller is charged no more than the sum of the budgets, and the deficit stays between 0
  and 214 or its initial value. If the CPU is not halted by the calls, the cycles that pass are exactly
  those charged plus the growth of the deficit. If it is, the caller is still never charged more than
  the cycles that pass, and at most 44 of them, the time of one interrupt, are not charged.
\<close>

theorem StepCycles_accounts:
  assumes "0 \<le> deficit c" "deficit c < 2 ^ 63" "\<forall>b \<in> set bs. 0 \<le> b" "runBudgets bs c = (t, c')"
  shows "0 \<le> t \<and> t \<le> sum_list bs \<and> 0 \<le> deficit c' \<and> deficit c' \<le> max (deficit c) 214 \<and>
    (\<exists>n lost. cycles c' = cycles c + of_nat n \<and> t + deficit c' + int lost = deficit c + int n \<and>
       lost \<le> 44 \<and> (lost = 0 \<or> \<not> halted c \<and> halted c'))"
  using runBudgets_charges [OF assms] by (simp add: charged_def ticks_def)

theorem StepCycles_accounts_witness:
  "let (t, c') = runBudgets [10, 3, 7] (zeroCPU testBus (\<lambda>_. 0x4E)) in 0 \<le> t \<and> t \<le> 20 \<and> deficit c' \<le> 214"
proof -
  let ?r = "runBudgets [10, 3, 7] (zeroCPU testBus (\<lambda>_. 0x4E))"
  have "deficit (zeroCPU testBus (\<lambda>_. 0x4E)) = 0" by (simp add: zeroCPU_def)
  then show ?thesis
    using StepCycles_accounts [of "zeroCPU testBus (\<lambda>_. 0x4E)" "[10, 3, 7]" "fst ?r" "snd ?r"]
    by (simp add: split_def del: runBudgets.simps)
qed

end
