(* ===== verification/M68k_Save.thy ===== *)
theory M68k_Save
  imports M68k_Api M68k_Time
begin

text \<open>
  Saving a running machine. The layout of \<open>Serialize\<close> has 32 bits for the deficit, less than the
  \<open>int\<close> of the CPU; this theory shows that the deficit of a CPU in use always fits, so that every
  reachable state survives saving and restoring.
\<close>

text \<open>The budgets of \<open>StepCycles\<close> are not negative.\<close>

fun budget_op :: "api_op \<Rightarrow> bool" where
  "budget_op (OpStepCycles n) \<longleftrightarrow> 0 \<le> n"
| "budget_op _ \<longleftrightarrow> True"

definition int32 :: "int \<Rightarrow> bool" where
  "int32 k \<longleftrightarrow> - (2 ^ 31) \<le> k \<and> k < 2 ^ 31"

lemma deficit_Step: "deficit (snd (run_state Step c)) = deficit c"
  using deficit_frame.io_Step by (auto simp: same_deficit_def state_io_rel_def)

lemma int32_StepCycles:
  assumes "0 \<le> b" "int32 (deficit c)"
  shows "int32 (deficit (snd (run_state (StepCycles b) c)))"
proof (cases "halted c \<or> 0 < deficit c")
  case True
  then show ?thesis using assms by (auto simp: StepCycles_def int32_def wrap64_id)
next
  case False
  obtain q d where s: "run_state Step c = (q, d)" by fastforce
  have "q \<le> 214" using Step_ticks [of c q d] s False by auto
  then show ?thesis
    using assms False s deficit_Step [of c] by (auto simp: StepCycles_def int32_def wrap64_id)
qed

lemma deficit_methods:
  "deficit (snd (run_state Reset c)) = 0" "deficit (New B s) = 0"
  "length (regA (reg c)) = 8 \<Longrightarrow> length (regA r) = 8 \<Longrightarrow> deficit (snd (run_state (SetState r) c)) = 0"
  by (simp_all add: New_def Reset_def zeroRegisters_def busRead32_def split_def SetState_def upt_rec)

lemma int32_sint: "int32 (sint (w :: u32))"
  using sint_ge [of w] sint_lt [of w] by (simp add: int32_def)

lemma deficit_Deserialize:
  assumes "Deserialize buf c = Inr c'" "wf_cpu c"
  shows "int32 (deficit c')"
proof -
  have l: "length (regD (reg c)) = 8" "length (regA (reg c)) = 8" using assms(2) by (simp_all add: wf_cpu_def)
  note ok = Deserialize_fields(8,9) [OF assms(1) l]
  show ?thesis using assms(1) unfolding Deserialize_layout [OF ok l] by (auto simp: int32_sint)
qed

lemma int32_0: "int32 0"
  by (simp add: int32_def)

lemma int32_apply_op:
  assumes "wf_cpu c" "typed_op oper" "budget_op oper" "int32 (deficit c)"
  shows "int32 (deficit (apply_op oper c))"
proof (cases oper)
  case (OpDeserialize buf)
  then show ?thesis
    using assms(1,4) by (auto split: sum.split dest: deficit_Deserialize)
qed (use assms in \<open>simp_all add: deficit_Step int32_StepCycles deficit_methods wf_cpu_def int32_0
      AddCycles_def addCycles_def RequestInterrupt_def SetIPL_def\<close>)

lemma reachable_serializable:
  assumes "reachable B I (\<lambda>oper. typed_op oper \<and> budget_op oper) c"
  shows "serializable c"
proof -
  have "int32 (deficit c)"
    using assms
  proof (induction rule: reachable.induct)
    case (reachable_New s)
    then show ?case by (simp add: deficit_methods int32_def)
  next
    case (reachable_op c oper)
    then show ?case using reachable_wf [OF reachable_op(1)] by (simp add: int32_apply_op)
  qed
  then show ?thesis
    using reachable_wf [OF assms] by (simp add: serializable_def int32_def wf_cpu_def)
qed

text \<open>
  C6. A machine can be saved at any time. Every state reachable from \<open>New\<close> by the exported methods,
  with budgets that are not negative, is written by \<open>Serialize\<close> into any buffer that is large
  enough, and \<open>Deserialize\<close> restores exactly that state in any other CPU, except for its bus.
\<close>

theorem reachable_restore:
  assumes "reachable B I (\<lambda>oper. typed_op oper \<and> budget_op oper) c"
    and "SerializeSize \<le> length buf" "wf_cpu d"
  shows "\<exists>buf'. Serialize c buf = Inr buf' \<and>
    Deserialize buf' d = Inr (c\<lparr>bus := bus d, busState := busState d, panicked := panicked d\<rparr>)"
  by (rule Deserialize_Serialize [OF reachable_serializable [OF assms(1)] assms(2)]) (use assms(3) in \<open>simp_all add: wf_cpu_def\<close>)

theorem reachable_restore_witness:
  "let c = apply_op (OpStepCycles 3) (New testBus (\<lambda>_. 0x4E)); d = New testBus (\<lambda>_. 0)
   in \<exists>buf'. Serialize c (replicate 104 0) = Inr buf' \<and>
     Deserialize buf' d = Inr (c\<lparr>bus := bus d, busState := busState d, panicked := panicked d\<rparr>)"
  unfolding Let_def
proof (rule reachable_restore)
  show "reachable testBus (\<lambda>_. True) (\<lambda>oper. typed_op oper \<and> budget_op oper)
      (apply_op (OpStepCycles 3) (New testBus (\<lambda>_. 0x4E)))"
    by (intro reachable_op reachable_New; simp)
qed (simp_all add: wf_cpu_def New_fields)

end
