(* ===== verification/M68k_Halt.thy ===== *)
theory M68k_Halt
  imports M68k_Api M68k_Memory
begin

text \<open>
  Address errors. The emulator does not build the frame of an address error: it halts. A step at an
  odd program counter, a jump to an odd address and a word or long access at an odd address all end
  in the halted state, and from there only \<open>Reset\<close>, \<open>SetState\<close> and \<open>Deserialize\<close> lead out.
\<close>

lemma odd_access_halts:
  assumes "sz \<noteq> sizeByte" "a AND 1 \<noteq> 0" "\<not> halted c"
  shows "run_state (readBus sz a) c = (0, c\<lparr>halted := True\<rparr>)"
    "run_state (writeBus sz a v) c = ((), c\<lparr>halted := True\<rparr>)"
  using assms by (simp_all add: readBus_def writeBus_def setHalted_def)

lemma running_even_PC: "\<not> stopped c \<Longrightarrow> \<not> halted (step c) \<Longrightarrow> regPC (reg (step c)) AND 1 = 0"
  by (auto simp: step_def run_Step_snd execute_def setHalted_def Let_def split_def split: if_splits)

text \<open>The methods that do not load a new state.\<close>

fun ordinary_op :: "api_op \<Rightarrow> bool" where
  "ordinary_op OpReset \<longleftrightarrow> False"
| "ordinary_op (OpSetState r) \<longleftrightarrow> False"
| "ordinary_op (OpDeserialize buf) \<longleftrightarrow> False"
| "ordinary_op _ \<longleftrightarrow> True"

definition frozen :: "'b CPU \<Rightarrow> 'b CPU \<Rightarrow> bool" where
  "frozen c c' \<longleftrightarrow> halted c' \<and> reg c' = reg c \<and> bus c' = bus c \<and> busState c' = busState c \<and>
     ir c' = ir c \<and> prevPC c' = prevPC c \<and> stopped c' = stopped c \<and> deficit c' = deficit c"

lemma frozen_op: "halted c \<Longrightarrow> ordinary_op oper \<Longrightarrow> frozen c (apply_op oper c)"
  by (cases oper) (simp_all add: frozen_def run_Step StepCycles_def AddCycles_def addCycles_def
    RequestInterrupt_def SetIPL_def)

lemma frozen_trans: "frozen c c' \<Longrightarrow> frozen c' c'' \<Longrightarrow> frozen c c''"
  by (simp add: frozen_def)

lemma frozen_ops: "halted c \<Longrightarrow> list_all ordinary_op opers \<Longrightarrow> frozen c (fold apply_op opers c)"
proof (induction opers arbitrary: c)
  case (Cons oper opers)
  then have "frozen c (apply_op oper c)" by (simp add: frozen_op)
  moreover from this have "frozen (apply_op oper c) (fold apply_op opers (apply_op oper c))"
    using Cons by (simp add: frozen_def)
  ultimately show ?case by (auto intro: frozen_trans)
qed (simp add: frozen_def)

text \<open>
  C21. Address errors halt the CPU for good. At an odd program counter with no interrupt to service,
  \<open>Step\<close> returns 0 and halts without touching registers or bus; and a halted CPU is frozen: any
  further calls, in any order, of the methods that do not load a new state leave the registers, the
  bus and everything but the clock and the interrupt request as they are, and \<open>Step\<close> and
  \<open>StepCycles\<close> return 0.
\<close>

theorem address_error_halts:
  assumes "halted c \<or> \<not> stopped c \<and> pendingIPL c = 0 \<and> regPC (reg c) AND 1 = 1"
    and "list_all ordinary_op opers" "run_state Step c = (r, c1)" "c2 = fold apply_op opers c1"
  shows "r = 0 \<and> frozen c c1 \<and> frozen c c2 \<and> fst (run_state Step c2) = 0 \<and>
    fst (run_state (StepCycles b) c2) = 0"
proof -
  have "r = 0 \<and> frozen c c1"
    using assms(1,3) by (auto simp: run_Step run_checkInterrupt frozen_def split: if_splits)
  moreover from this have "frozen c1 c2" using assms(2,4) frozen_ops [of c1] by (simp add: frozen_def)
  ultimately show ?thesis
    using frozen_trans [of c c1 c2] by (auto simp: run_Step StepCycles_def frozen_def)
qed

theorem address_error_halts_witness:
  "let c = ramCPU (\<lambda>_. 0) 0x1001 0x2700; c1 = snd (run_state Step c)
   in fst (run_state Step c) = 0 \<and> frozen c (apply_op (OpStepCycles 100) (apply_op (OpSetIPL 7 None) c1))"
  using address_error_halts [of "ramCPU (\<lambda>_. 0) 0x1001 0x2700" "[OpSetIPL 7 None, OpStepCycles 100]"
    "fst (run_state Step (ramCPU (\<lambda>_. 0) 0x1001 0x2700))" "snd (run_state Step (ramCPU (\<lambda>_. 0) 0x1001 0x2700))"]
  by (simp add: Let_def del: apply_op.simps)

end
