(* ===== verification/Spec2Isabelle.thy ===== *)
theory Spec2Isabelle
  imports M68k_Api M68k_Opcode Spec_MulDiv Spec_Bcd Spec_Shift Spec_Multi Spec_Bit Spec_Move Spec_Stop Spec_Movem
    Spec_Mode Spec_Trap Spec_Soft Spec_Copy Spec_Compare Spec_Movep Spec_Unary Spec_Address M68k_Save M68k_Halt M68k_Time
begin

text \<open>
  A verification library for \<open>go-chip-m68k\<close>, an emulator of the Motorola MC68000 written in Go.

  \<^bold>\<open>The program.\<close> A \<open>CPU\<close> (\<open>cpu.go\<close>) holds the registers, a cycle counter and the interrupt state, and
  talks to the rest of a machine through the interface \<open>Bus\<close>. \<open>Step\<close> checks for an interrupt
  (\<open>interrupt.go\<close>), fetches an opcode and calls its handler from \<open>opcodeTable\<close> (\<open>decode.go\<close>), or raises
  an exception (\<open>exception.go\<close>) if there is none; \<open>StepCycles\<close> does so within a budget. The \<open>init\<close>
  functions of the \<open>ops_*.go\<close> files fill the table: each \<open>registerX\<close> stores handlers at all opcodes of
  one instruction. Handlers reach their operands through the addressing modes (\<open>ea.go\<close>, and the
  specialised closures of \<open>ea_inline.go\<close>), set the condition codes (\<open>flags.go\<close>) and add their time
  (\<open>timing.go\<close>). \<open>serialize.go\<close> saves and restores the state.

  \<^bold>\<open>The model.\<close> Every function of these files that changes state is a definition with the name it has
  in the source (a few with a prefix or suffix where HOL uses the name), as a program in the state
  monad over the record \<open>CPU\<close>. Machine integers are words of their width, and arrays are lists. Where Go
  would panic, the model sets the ghost field \<open>panicked\<close>: on an index of a register file or table out of
  range (\<open>getD\<close>, \<open>putD\<close>, \<open>getA\<close>, \<open>putA\<close>, \<open>goIndex\<close>), a division by zero (\<open>goDivide\<close> and the rotations of
  \<open>doShift\<close>) and a call of an operand closure that does not exist (\<open>makeEARead\<close>, \<open>makeEAMemAddr\<close>). An access
  of a byte slice out of range is the error value \<open>IndexPanic\<close> of \<open>Serialize\<close> and \<open>Deserialize\<close>, which
  \<open>apply_op\<close>, the model of a call of an exported method, turns into \<open>panicked\<close>. The bus is a record of
  functions on a state of any type, so nothing is assumed of it unless a theorem says so.

  \<^item> \<open>M68k_Prelude\<close>: integer types, combinators, and rules about words and programs.
  \<^item> \<open>M68k_Size\<close>, \<open>M68k_Cpu\<close>, \<open>M68k_Exception\<close>, \<open>M68k_Flags\<close>, \<open>M68k_EA\<close>: \<open>size.go\<close>; \<open>cpu.go\<close> without \<open>Step\<close>;
    \<open>exception.go\<close> and \<open>interrupt.go\<close>; \<open>flags.go\<close>; \<open>ea.go\<close>, \<open>ea_inline.go\<close> and \<open>timing.go\<close>.
  \<^item> \<open>M68k_Ops\<close> and \<open>Ops_Arith\<close>, \<open>Ops_Bcd\<close>, \<open>Ops_Bit\<close>, \<open>Ops_Branch\<close>, \<open>Ops_Ctrl\<close>, \<open>Ops_Logic\<close>, \<open>Ops_Move\<close>: the
    instructions, one theory per \<open>ops_*.go\<close> file, with the stores of the registration loops as lists.
  \<^item> \<open>M68k_Decode\<close>, \<open>M68k_Step\<close>: the opcode table, and \<open>Step\<close> and \<open>StepCycles\<close>.
  \<^item> \<open>M68k_Serialize\<close>: \<open>Serialize\<close> and \<open>Deserialize\<close>, on lists of bytes.
  \<^item> \<open>M68k_TestBus\<close>: the memory of \<open>testutil_test.go\<close>, on which witnesses run, and where its array ends.

  \<^bold>\<open>The interfaces.\<close> \<open>M68k_Frame\<close> is the contract between the core and the instruction set: a relation
  between states that the operations of \<open>cpu.go\<close> respect is respected by all code built from them.
  \<open>cpu_frame\<close> and its extensions (\<open>_trap\<close>, \<open>_exc\<close>, \<open>_sys\<close>, \<open>_any\<close>, \<open>_table\<close>, \<open>_step\<close>, \<open>_api\<close>) carry this through
  operands, handlers, the table, \<open>Step\<close> and the exported methods; one interpretation per relation then
  gives a property of the whole instruction set. \<open>bus_client\<close> is the contract of a bus with an invariant,
  \<open>ram_bus\<close> (\<open>M68k_Memory\<close>) that of a bus that behaves like memory; the test bus satisfies it.

  \<^bold>\<open>What is shown.\<close>

  \<^item> \<^emph>\<open>For every use of the exported methods\<close> (\<open>M68k_Safety\<close>, \<open>M68k_Api\<close>, \<open>M68k_Halt\<close>, \<open>M68k_Save\<close>): nothing
    panics, accesses are aligned and within 24 bits, the status register stays valid, a halted CPU
    is frozen, and any reachable state survives saving and restoring.
  \<^item> \<^emph>\<open>Protection\<close> (\<open>M68k_Privilege\<close>, \<open>Spec_Mode\<close>): user programs change system state only by entering
    supervisor mode, and do that only by ending an instruction with a call of \<open>exception\<close>; privileged
    instructions trap; no mode change loses a
    stack pointer.
  \<^item> \<^emph>\<open>Decoding\<close> (\<open>M68k_Opcode\<close>, \<open>M68k_Operand\<close>): the table is exactly a reference decoder, in whichever
    order it is filled, and the specialised operand code is the general one.
  \<^item> \<^emph>\<open>Instructions\<close> (\<open>M68k_Alu\<close> and \<open>Spec_Alu\<close>, \<open>Spec_Rmw\<close>, \<open>Spec_Unary\<close>, \<open>Spec_Address\<close>, \<open>Spec_MulDiv\<close>, \<open>Spec_Bcd\<close>,
    \<open>Spec_Shift\<close>, \<open>Spec_Bit\<close>, \<open>Spec_Move\<close>, \<open>Spec_Multi\<close>): results, condition codes and times refine specifications
    over integers, and chains of ADDX and SUBX compute with numbers of several long words. The time of
    BTST with an immediate bit number on a data register is left open.
  \<^item> \<^emph>\<open>Control flow in memory\<close> (\<open>M68k_Return\<close>, \<open>Spec_Call\<close>, \<open>Spec_Movem\<close>, \<open>Spec_Program\<close>, \<open>Spec_Stop\<close>, \<open>Spec_Trap\<close>,
    \<open>Spec_Soft\<close>): exceptions, interrupts and subroutines return, frames and saved registers are restored,
    counted loops end, STOP waits, unassigned opcodes trap, software traps trap exactly under their
    condition, the most urgent request wins.
  \<^item> \<^emph>\<open>Programs\<close> (\<open>Spec_Copy\<close>, \<open>Spec_Compare\<close>, \<open>Spec_Movep\<close>): sequences of instructions, fetched from memory,
    decoded and executed by \<open>Step\<close>, meet a specification of their joint effect and time. A copy loop is
    totally correct, a comparison followed by a branch decides a relation between numbers, and MOVEP
    loads what MOVEP stored. They rest on one lemma per instruction, each from \<open>run_Step_ram\<close>.
  \<^item> \<^emph>\<open>Time\<close> (\<open>M68k_Cost\<close>, \<open>M68k_Time\<close>): each handler takes 4 to 170 cycles and a step at most 214, stepping
    makes progress, and \<open>StepCycles\<close> charges exactly the cycles taken as long as the CPU does not halt.

  \<^bold>\<open>Bounds.\<close> No definition needs fuel: the loops of the source run over fixed ranges (sixteen registers
  in MOVEM, eight in the save format) or a count below 64 (shifts), and are folds. A Go \<open>int\<close> is an
  integer, wrapped to 64 bits where the caller chooses the value. Memory theorems ask that code and
  stack lie inside the 24-bit address space and that the stack is even and clear of the vector table;
  program theorems also that the data written does not meet the program.

  \<^bold>\<open>Not modelled.\<close> Calls of \<open>log.Printf\<close> only produce text. \<open>RequestInterrupt\<close> and \<open>SetIPL\<close> take the vector as
  a pointer and keep it; the model keeps the byte it points to, so a caller that changes that byte
  before the interrupt is accepted is not covered. The Go tests
  and the runner of the SingleStepTests exercise the program and are not part of it; of their files only
  the test bus is modelled. What else the source has are comments and declarations of packages. Memory
  operands that wrap around the top of the address space are outside \<open>ram_bus\<close>, because buses differ
  there. The emulator has no bus errors, no trace exception and no address error frame; neither has
  the model.
\<close>

end
